(* ===== verification/Prelude.thy ===== *)
theory Prelude
  imports
    Main
    "HOL-Library.Word"
    "HOL-Library.Multiset"
    "HOL-Library.Sublist"
    "HOL-Library.Char_ord"
    "HOL-Library.List_Lexorder"
begin

text \<open>
  What the components share: the parts of the Go language and its standard library the sources use
  (\<^verbatim>\<open>error\<close> values and wrapping, \<^verbatim>\<open>time\<close>, \<^verbatim>\<open>strings\<close>, \<^verbatim>\<open>strconv\<close>, \<^verbatim>\<open>slices.SortFunc\<close>,
  \<^verbatim>\<open>path.Join\<close>), and the generic lemmas on them.

  A Go string is a sequence of bytes, and so is HOL's \<^typ>\<open>string\<close> (a list of 8-bit
  characters). A \<^verbatim>\<open>time.Time\<close> is the number of nanoseconds since Go's zero time, so
  \<^verbatim>\<open>IsZero\<close> is equality with 0; a \<^verbatim>\<open>time.Duration\<close> is a number of nanoseconds that
  \<^verbatim>\<open>Time.Sub\<close> saturates to 64 bits.
\<close>

named_theorems go_simps \<open>defining equations of the Go constructs\<close>

section \<open>Errors\<close>

text \<open>
  A Go \<^verbatim>\<open>error\<close> is \<open>Errorf\<close> with its text, a sentinel the code compares with
  \<^verbatim>\<open>errors.Is\<close>, an error the Kubernetes client returned (its status reason and text), or
  \<^verbatim>\<open>fmt.Errorf\<close> with \<^verbatim>\<open>%w\<close>: the wrapped error between the text before and after it.
  A result that is a value and an \<^verbatim>\<open>error\<close> is \<open>error + 'a\<close>, an \<^verbatim>\<open>error\<close> alone is
  \<open>error option\<close>.
\<close>

datatype error =
    Errorf string
  | ErrDeploymentPodNotFound
  | DeadlineExceeded
  | Canceled
  | ApiStatus string string
  | Wrapf string error string

fun Error_text :: "error \<Rightarrow> string" where
  "Error_text (Errorf m) = m"
| "Error_text ErrDeploymentPodNotFound = ''deployment pod not found''"
| "Error_text DeadlineExceeded = ''context deadline exceeded''"
| "Error_text Canceled = ''context canceled''"
| "Error_text (ApiStatus reason m) = m"
| "Error_text (Wrapf pre e post) = pre @ Error_text e @ post"

fun errors_Is :: "error \<Rightarrow> error \<Rightarrow> bool" where
  "errors_Is (Wrapf pre e post) target \<longleftrightarrow> Wrapf pre e post = target \<or> errors_Is e target"
| "errors_Is e target \<longleftrightarrow> e = target"

lemma errors_Is_refl [simp]: "errors_Is e e"
  by (cases e) auto

section \<open>Loops\<close>

text \<open>
  An unbounded \<^verbatim>\<open>for\<close> loop over a state: one pass either leaves the loop with a result
  (\<open>Inr\<close>) or goes on with a new state (\<open>Inl\<close>). \<open>None\<close> is a loop that never leaves.
\<close>

partial_function (option) iterate :: "('s \<Rightarrow> 's + 'r) \<Rightarrow> 's \<Rightarrow> 'r option" where
  "iterate pass s = (case pass s of Inl s' \<Rightarrow> iterate pass s' | Inr r \<Rightarrow> Some r)"

declare iterate.simps [code]

lemma iterate_induct [consumes 1, case_names leave again]:
  fixes pass :: "'s \<Rightarrow> 's + 'r"
  assumes "iterate pass s = Some r"
    and "\<And>s r. pass s = Inr r \<Longrightarrow> P s r"
    and "\<And>s s' r. pass s = Inl s' \<Longrightarrow> P s' r \<Longrightarrow> P s r"
  shows "P s r"
proof -
  have "pass = pass \<longrightarrow> P s r"
  proof (rule iterate.raw_induct [where P = "\<lambda>p s r. p = pass \<longrightarrow> P s r", OF _ assms(1)], rule impI)
    fix f :: "('s \<Rightarrow> 's + 'r) \<Rightarrow> 's \<Rightarrow> 'r option" and p s r
    assume "\<And>p s r. f p s = Some r \<Longrightarrow> p = pass \<longrightarrow> P s r"
      "(case p s of Inl s' \<Rightarrow> f p s' | Inr r \<Rightarrow> Some r) = Some r" "p = pass"
    then show "P s r" using assms(2,3) by (auto split: sum.splits)
  qed
  then show ?thesis by simp
qed

lemma iterate_returns:
  assumes "\<And>s s'. pass s = Inl s' \<Longrightarrow> (m s' :: nat) < m s"
  shows "\<exists>r. iterate pass s = Some r"
proof (induction "m s" arbitrary: s rule: less_induct)
  case less
  then show ?case
    using assms by (subst iterate.simps) (auto split: sum.splits)
qed

text \<open>Two loops in step: passes that relate the states relate the results.\<close>

lemma iterate_simulation:
  assumes "iterate pass s = Some r" and "R s t"
    and "\<And>s t. R s t \<Longrightarrow> rel_sum R Q (pass s) (pass' t)"
  shows "\<exists>r'. iterate pass' t = Some r' \<and> Q r r'"
  using assms(1,2)
proof (induction arbitrary: t rule: iterate_induct)
  case (leave s r)
  then have "rel_sum R Q (Inr r) (pass' t)" using assms(3) [of s t] by simp
  then show ?case by (subst iterate.simps) (auto elim: rel_sum.cases)
next
  case (again s s' r)
  then have "rel_sum R Q (Inl s') (pass' t)" using assms(3) [of s t] by simp
  then obtain t' where "pass' t = Inl t'" "R s' t'" by (auto elim: rel_sum.cases)
  then show ?case using again.IH [of t'] by (subst iterate.simps) simp
qed

section \<open>Time\<close>

type_synonym time = int
type_synonym duration = int

abbreviation (input) zeroTime :: time where "zeroTime \<equiv> 0"

definition Nanosecond :: duration where "Nanosecond = 1"
definition Second :: duration where "Second = 1000000000"
definition Minute :: duration where "Minute = 60 * Second"

definition maxDuration :: duration where "maxDuration = 2 ^ 63 - 1"
definition minDuration64 :: duration where "minDuration64 = - (2 ^ 63)"

text \<open>\<^verbatim>\<open>Time.Sub\<close>: the difference, saturated at the ends of the 64-bit range.\<close>

definition time_Sub :: "time \<Rightarrow> time \<Rightarrow> duration" where
  "time_Sub t u = max minDuration64 (min maxDuration (t - u))"

definition time_Add :: "time \<Rightarrow> duration \<Rightarrow> time" where
  "time_Add t d = t + d"

definition time_Before :: "time \<Rightarrow> time \<Rightarrow> bool" where
  "time_Before t u \<longleftrightarrow> t < u"

definition time_IsZero :: "time \<Rightarrow> bool" where
  "time_IsZero t \<longleftrightarrow> t = zeroTime"

lemmas duration_defs = Nanosecond_def Second_def Minute_def maxDuration_def minDuration64_def

lemmas time_defs [go_simps] = time_Add_def time_Before_def time_IsZero_def

lemma time_Sub_less_iff:
  assumes "minDuration64 < d" "d \<le> maxDuration"
  shows "time_Sub t u < d \<longleftrightarrow> t - u < d"
  using assms by (auto simp: time_Sub_def)

lemma time_Sub_exact:
  assumes "\<bar>t - u\<bar> \<le> maxDuration"
  shows "time_Sub t u = t - u"
  using assms by (auto simp: time_Sub_def duration_defs)

lemma time_Sub_nonneg: "u \<le> t \<Longrightarrow> 0 \<le> time_Sub t u"
  by (auto simp: time_Sub_def duration_defs)

section \<open>Strings\<close>

fun HasPrefix :: "string \<Rightarrow> string \<Rightarrow> bool" where
  "HasPrefix s [] = True"
| "HasPrefix [] (p # ps) = False"
| "HasPrefix (c # cs) (p # ps) = (c = p \<and> HasPrefix cs ps)"

fun Contains :: "string \<Rightarrow> string \<Rightarrow> bool" where
  "Contains [] sub = (sub = [])"
| "Contains (c # cs) sub = (HasPrefix (c # cs) sub \<or> Contains cs sub)"

fun Join :: "string list \<Rightarrow> string \<Rightarrow> string" where
  "Join [] sep = []"
| "Join [x] sep = x"
| "Join (x # y # ys) sep = x @ sep @ Join (y # ys) sep"

lemma HasPrefix_iff: "HasPrefix s p \<longleftrightarrow> prefix p s"
  by (induction s p rule: HasPrefix.induct) auto

lemma Contains_iff_sublist: "Contains s sub \<longleftrightarrow> sublist sub s"
  by (induction s) (auto simp: HasPrefix_iff sublist_Cons_right simp del: HasPrefix.simps)

lemma Contains_append: "Contains s sub \<Longrightarrow> Contains (l @ s @ r) sub"
  by (auto simp: Contains_iff_sublist sublist_def) (metis append.assoc)

lemma Contains_append_left: "Contains s sub \<Longrightarrow> Contains (s @ r) sub"
  using Contains_append [of s sub "[]" r] by simp

lemma Contains_append_right: "Contains s sub \<Longrightarrow> Contains (l @ s) sub"
  using Contains_append [of s sub l "[]"] by simp

text \<open>
  \<^verbatim>\<open>strings.ToLower\<close>. ASCII letters are mapped; of the other code points exactly two have
  an ASCII lower case, U+0130 (bytes C4 B0, to \<open>i\<close>) and U+212A (bytes E2 84 AA, to
  \<open>k\<close>), and are mapped too. Every other byte above 127 is kept: Go maps it to bytes
  above 127 as well, so the ASCII text of the result, all the sources look for, is exact.
\<close>

definition lower_byte :: "char \<Rightarrow> char" where
  "lower_byte c = (let n = of_char c :: nat in
     if 65 \<le> n \<and> n \<le> 90 then char_of (n + 32) else c)"

fun ToLower :: "string \<Rightarrow> string" where
  "ToLower [] = []"
| "ToLower (c # cs) =
     (if c = CHR 0xC4 \<and> take 1 cs = [CHR 0xB0] then CHR ''i'' # ToLower (drop 1 cs)
      else if c = CHR 0xE2 \<and> take 2 cs = [CHR 0x84, CHR 0xAA] then CHR ''k'' # ToLower (drop 2 cs)
      else lower_byte c # ToLower cs)"

text \<open>
  \<^verbatim>\<open>strings.TrimSpace\<close> removes the code points with Unicode's White\_Space property from
  both ends; their UTF-8 encodings are listed here.
\<close>

definition space_encodings :: "string list" where
  "space_encodings =
     map (\<lambda>n. [char_of (n::nat)]) [9, 10, 11, 12, 13, 32] @
     [[CHR 0xC2, CHR 0x85], [CHR 0xC2, CHR 0xA0], [CHR 0xE1, CHR 0x9A, CHR 0x80]] @
     map (\<lambda>n. [CHR 0xE2, CHR 0x80, char_of (n::nat)])
       [128, 129, 130, 131, 132, 133, 134, 135, 136, 137, 138, 168, 169, 175] @
     [[CHR 0xE2, CHR 0x81, CHR 0x9F], [CHR 0xE3, CHR 0x80, CHR 0x80]]"

definition space_len :: "string list \<Rightarrow> string \<Rightarrow> nat" where
  "space_len encs s = (case filter (HasPrefix s) encs of [] \<Rightarrow> 0 | e # _ \<Rightarrow> length e)"

function trim_front :: "string list \<Rightarrow> string \<Rightarrow> string" where
  "trim_front encs s = (let n = space_len encs s in
     if n = 0 \<or> s = [] then s else trim_front encs (drop n s))"
  by pat_completeness auto
termination
  by (relation "measure (\<lambda>(encs, s). length s)") auto

declare trim_front.simps [simp del]

definition TrimLeft :: "string \<Rightarrow> string" where
  "TrimLeft s = trim_front space_encodings s"

definition TrimRight :: "string \<Rightarrow> string" where
  "TrimRight s = rev (trim_front (map rev space_encodings) (rev s))"

definition TrimSpace :: "string \<Rightarrow> string" where
  "TrimSpace s = TrimRight (TrimLeft s)"

lemma trim_front_suffix: "suffix (trim_front encs s) s"
proof (induction encs s rule: trim_front.induct)
  case (1 encs s)
  then show ?case
    by (subst trim_front.simps) (auto simp: Let_def intro: suffix_order.trans suffix_drop)
qed

lemma trim_front_stops: "trim_front encs s = [] \<or> space_len encs (trim_front encs s) = 0"
proof (induction encs s rule: trim_front.induct)
  case (1 encs s)
  then show ?case
    by (cases "space_len encs s = 0 \<or> s = []") (auto simp: trim_front.simps [of encs s] Let_def)
qed

lemma trim_front_id: "space_len encs s = 0 \<Longrightarrow> trim_front encs s = s"
  by (subst trim_front.simps) simp

lemma trim_front_idem [simp]: "trim_front encs (trim_front encs s) = trim_front encs s"
  using trim_front_stops [of encs s] by (auto simp: trim_front_id trim_front.simps)

lemma find_Some_mem: "List.find P xs = Some x \<Longrightarrow> x \<in> set xs \<and> P x"
  by (auto simp: find_Some_iff)

lemma filter_eq_Cons_mem: "filter P xs = y # ys \<Longrightarrow> y \<in> set xs \<and> P y"
  by (auto dest: filter_eq_ConsD)

lemma space_len_0_iff:
  assumes "[] \<notin> set encs"
  shows "space_len encs s = 0 \<longleftrightarrow> (\<forall>e \<in> set encs. \<not> prefix e s)"
proof -
  have "filter (HasPrefix s) encs = [] \<longleftrightarrow> (\<forall>e \<in> set encs. \<not> prefix e s)"
    by (auto simp: filter_empty_conv HasPrefix_iff)
  moreover have "e = [] \<Longrightarrow> filter (HasPrefix s) encs = e # es \<Longrightarrow> False" for e es
    using assms filter_eq_Cons_mem by fastforce
  ultimately show ?thesis
    by (auto simp: space_len_def split: list.split)
qed

lemma space_len_prefix:
  assumes "[] \<notin> set encs" and "prefix t s" and "space_len encs s = 0"
  shows "space_len encs t = 0"
  using assms by (auto simp: space_len_0_iff dest: prefix_order.trans)

lemma space_encodings_nonempty [simp]: "[] \<notin> set space_encodings" "[] \<notin> set (map rev space_encodings)"
  by (auto simp: space_encodings_def)

lemma prefix_TrimRight: "prefix (TrimRight s) s"
  using trim_front_suffix [of "map rev space_encodings" "rev s"]
  by (simp add: TrimRight_def suffix_to_prefix)

lemma TrimLeft_TrimSpace: "TrimLeft (TrimSpace s) = TrimSpace s"
proof (cases "TrimSpace s = []")
  case True
  then show ?thesis by (simp add: TrimLeft_def trim_front.simps)
next
  case False
  then have "TrimLeft s \<noteq> []"
    using prefix_TrimRight [of "TrimLeft s"] by (auto simp: TrimSpace_def)
  then have "space_len space_encodings (TrimLeft s) = 0"
    using trim_front_stops [of space_encodings s] by (simp add: TrimLeft_def)
  then have "space_len space_encodings (TrimSpace s) = 0"
    using prefix_TrimRight space_len_prefix space_encodings_nonempty(1) by (metis TrimSpace_def)
  then show ?thesis by (simp add: TrimLeft_def trim_front_id)
qed

lemma TrimSpace_idem [simp]: "TrimSpace (TrimSpace s) = TrimSpace s"
  using TrimLeft_TrimSpace [of s] by (simp add: TrimSpace_def TrimRight_def)

lemma TrimSpace_Nil [simp]: "TrimSpace [] = []"
  by (simp add: TrimSpace_def TrimLeft_def TrimRight_def trim_front.simps)

text \<open>A string with a visible first byte and last byte is its own trimming.\<close>

definition visible :: "char \<Rightarrow> bool" where
  "visible c \<longleftrightarrow> (let n = of_char c :: nat in 32 < n \<and> n < 127)"

lemma space_heads_not_visible: "\<forall>e \<in> set space_encodings. \<not> visible (hd e) \<and> \<not> visible (last e)"
  by (simp add: space_encodings_def visible_def)

lemma TrimLeft_visible:
  assumes "s \<noteq> []" and "visible (hd s)"
  shows "TrimLeft s = s"
proof -
  have "\<not> prefix e s" if "e \<in> set space_encodings" for e
    using assms that space_heads_not_visible space_encodings_nonempty(1)
    by (metis hd_append2 prefix_def)
  then have "space_len space_encodings s = 0"
    by (simp add: space_len_0_iff)
  then show ?thesis by (simp add: TrimLeft_def trim_front_id)
qed

lemma TrimRight_visible:
  assumes "s \<noteq> []" and "visible (last s)"
  shows "TrimRight s = s"
proof -
  have "\<not> prefix e (rev s)" if "e \<in> set (map rev space_encodings)" for e
  proof
    assume "prefix e (rev s)"
    moreover have "e \<noteq> []" using that space_encodings_nonempty(2) by metis
    ultimately have "hd e = last s"
      using assms(1) by (metis hd_append2 hd_rev prefix_def)
    moreover from that obtain e' where "e' \<in> set space_encodings" "e = rev e'" by auto
    ultimately show False
      using assms(2) space_heads_not_visible \<open>e \<noteq> []\<close> by (auto simp: hd_rev)
  qed
  then have "space_len (map rev space_encodings) (rev s) = 0"
    by (subst space_len_0_iff [OF space_encodings_nonempty(2)]) blast
  then show ?thesis by (simp add: TrimRight_def trim_front_id)
qed

lemma TrimSpace_visible:
  "s \<noteq> [] \<Longrightarrow> visible (hd s) \<Longrightarrow> visible (last s) \<Longrightarrow> TrimSpace s = s"
  by (simp add: TrimSpace_def TrimLeft_visible TrimRight_visible)

lemma trim_front_visible_last:
  assumes "\<forall>e \<in> set encs. e \<noteq> [] \<and> \<not> visible (last e)"
  shows "trim_front encs s = [] \<Longrightarrow> s = [] \<or> \<not> visible (last s)"
  using assms
proof (induction encs s rule: trim_front.induct)
  case (1 encs s)
  let ?n = "space_len encs s"
  show ?case
  proof (cases "?n = 0 \<or> s = []")
    case True
    with 1(2) show ?thesis by (auto simp: trim_front.simps [of _ s] Let_def)
  next
    case False
    then obtain e es where e: "filter (HasPrefix s) encs = e # es" "?n = length e"
      by (auto simp: space_len_def split: list.splits)
    then have mem: "e \<in> set encs" and "prefix e s"
      by (auto dest!: filter_eq_Cons_mem simp: HasPrefix_iff)
    then obtain t where s: "s = e @ t" by (auto simp: prefix_def)
    from False 1(2) have "trim_front encs (drop ?n s) = []"
      by (auto simp: trim_front.simps [of _ s] Let_def)
    with 1(1) [OF refl] 1(3) False have "drop ?n s = [] \<or> \<not> visible (last (drop ?n s))" by auto
    with s e mem 1(3) show ?thesis by (auto simp: last_append)
  qed
qed

lemma TrimSpace_visible_hd:
  assumes "s \<noteq> []" and "visible (hd s)"
  shows "TrimSpace s \<noteq> []"
proof
  assume "TrimSpace s = []"
  then have "trim_front (map rev space_encodings) (rev s) = []"
    using assms by (simp add: TrimSpace_def TrimLeft_visible TrimRight_def)
  moreover have "\<forall>e \<in> set (map rev space_encodings). e \<noteq> [] \<and> \<not> visible (last e)"
    using space_heads_not_visible space_encodings_nonempty(1) by (auto simp: last_rev)
  ultimately have "rev s = [] \<or> \<not> visible (last (rev s))"
    by (rule trim_front_visible_last [rotated])
  with assms show False by (simp add: last_rev)
qed

section \<open>Decimal numbers\<close>

fun digits :: "nat \<Rightarrow> string" where
  "digits n = (if n < 10 then [char_of (48 + n)] else digits (n div 10) @ [char_of (48 + n mod 10)])"

declare digits.simps [simp del]

definition Itoa :: "int \<Rightarrow> string" where
  "Itoa i = (if i < 0 then CHR ''-'' # digits (nat (- i)) else digits (nat i))"

datatype numError = ErrSyntax | ErrRange

text \<open>
  \<^verbatim>\<open>strconv.ParseUint\<close> in base 10 stops at the first byte that is not a digit (syntax error)
  or at the first digit that takes the value past 64 bits (range error, whatever follows).
\<close>

fun ParseUint :: "int \<Rightarrow> string \<Rightarrow> numError + int" where
  "ParseUint n [] = Inr n"
| "ParseUint n (c # cs) = (let d = int (of_char c) - 48 in
     if d < 0 \<or> 9 < d then Inl ErrSyntax
     else if 2 ^ 64 - 1 < n * 10 + d then Inl ErrRange
     else ParseUint (n * 10 + d) cs)"

text \<open>
  \<^verbatim>\<open>strconv.Atoi\<close> returns a value beside its error: 0 for a syntax error, the nearest 64-bit
  value for a range error.
\<close>

definition Atoi :: "string \<Rightarrow> int \<times> numError option" where
  "Atoi s =
     (let neg = (s \<noteq> [] \<and> hd s = CHR ''-'');
          body = (if s \<noteq> [] \<and> hd s \<in> {CHR ''-'', CHR ''+''} then tl s else s)
      in if body = [] then (0, Some ErrSyntax)
         else case ParseUint 0 body of
             Inl ErrSyntax \<Rightarrow> (0, Some ErrSyntax)
           | Inl ErrRange \<Rightarrow> (if neg then - (2 ^ 63) else 2 ^ 63 - 1, Some ErrRange)
           | Inr un \<Rightarrow>
               if \<not> neg \<and> 2 ^ 63 \<le> un then (2 ^ 63 - 1, Some ErrRange)
               else if neg \<and> 2 ^ 63 < un then (- (2 ^ 63), Some ErrRange)
               else (if neg then - un else un, None))"

lemma ParseUint_nonneg: "0 \<le> n \<Longrightarrow> ParseUint n s = Inr m \<Longrightarrow> 0 \<le> m"
  by (induction n s rule: ParseUint.induct) (auto simp: Let_def split: if_splits)

lemma Atoi_range: "- (2 ^ 63) \<le> fst (Atoi s) \<and> fst (Atoi s) \<le> 2 ^ 63 - 1"
  using ParseUint_nonneg [of 0]
  by (auto simp: Atoi_def Let_def split: sum.splits numError.splits) fastforce+

section \<open>Sorting\<close>

text \<open>
  \<^verbatim>\<open>slices.SortFunc\<close> is documented to sort by a comparison that is a strict weak order, with no
  promise about equal elements. Its interface is the locale \<open>sort_func\<close>; the model is the
  insertion sort it runs on slices of at most 12 elements. The lemmas used about it are those of
  the interface, so they hold for every sorting the documentation allows.
\<close>

definition cmp_order :: "('a \<Rightarrow> 'a \<Rightarrow> int) \<Rightarrow> 'a set \<Rightarrow> bool" where
  "cmp_order cmp A \<longleftrightarrow>
     (\<forall>a \<in> A. \<forall>b \<in> A. cmp a b < 0 \<longleftrightarrow> 0 < cmp b a) \<and>
     (\<forall>a \<in> A. \<forall>b \<in> A. \<forall>c \<in> A. cmp a b \<le> 0 \<longrightarrow> cmp b c \<le> 0 \<longrightarrow> cmp a c \<le> 0)"

lemma cmp_order_key:
  "(\<And>a b. cmp a b < 0 \<longleftrightarrow> f a < (f b :: 'k :: linorder)) \<Longrightarrow> (\<And>a b. 0 < cmp a b \<longleftrightarrow> f b < f a)
    \<Longrightarrow> cmp_order cmp A"
  unfolding cmp_order_def by (metis linorder_not_less order_trans)

locale sort_func =
  fixes sort_by :: "('a \<Rightarrow> 'a \<Rightarrow> int) \<Rightarrow> 'a list \<Rightarrow> 'a list"
  assumes sort_perm: "mset (sort_by cmp xs) = mset xs"
    and sort_sorted: "cmp_order cmp (set xs) \<Longrightarrow> sorted_wrt (\<lambda>a b. cmp a b \<le> 0) (sort_by cmp xs)"
begin

lemma sort_set [simp]: "set (sort_by cmp xs) = set xs"
  using sort_perm [of cmp xs] mset_eq_setD by blast

lemma sort_length [simp]: "length (sort_by cmp xs) = length xs"
  using sort_perm [of cmp xs] by (metis size_mset)

lemma sort_Nil_iff [simp]: "sort_by cmp xs = [] \<longleftrightarrow> xs = []"
  using sort_length [of cmp xs] by (metis length_0_conv)

text \<open>The first element is a least one: what \<^verbatim>\<open>candidates[0]\<close> and \<^verbatim>\<open>prior[0]\<close> rely on.\<close>

lemma sort_hd_mem: "xs \<noteq> [] \<Longrightarrow> hd (sort_by cmp xs) \<in> set xs"
  using sort_set [of cmp xs] sort_Nil_iff [of cmp xs] by (metis list.set_sel(1))

lemma sort_hd_least:
  assumes "cmp_order cmp (set xs)" and "y \<in> set xs"
  shows "cmp (hd (sort_by cmp xs)) y \<le> 0"
proof (cases "sort_by cmp xs")
  case Nil
  with assms(2) show ?thesis by auto
next
  case (Cons x ys)
  have "y = x \<or> y \<in> set ys"
    using assms(2) sort_set [of cmp xs] Cons by auto
  moreover have "cmp x x \<le> 0"
    using assms(1) sort_set [of cmp xs] Cons unfolding cmp_order_def
    by (metis linorder_not_less list.set_intros(1) order_less_asym)
  ultimately show ?thesis
    using sort_sorted [OF assms(1)] Cons by auto
qed

end

fun sift :: "('a \<Rightarrow> 'a \<Rightarrow> int) \<Rightarrow> 'a \<Rightarrow> 'a list \<Rightarrow> 'a list" where
  "sift cmp x [] = [x]"
| "sift cmp x (y # ys) = (if cmp x y < 0 then y # sift cmp x ys else x # y # ys)"

fun insertionSort :: "('a \<Rightarrow> 'a \<Rightarrow> int) \<Rightarrow> 'a list \<Rightarrow> 'a list \<Rightarrow> 'a list" where
  "insertionSort cmp acc [] = acc"
| "insertionSort cmp acc (x # xs) = insertionSort cmp (sift cmp x acc) xs"

definition SortFunc :: "('a \<Rightarrow> 'a \<Rightarrow> int) \<Rightarrow> 'a list \<Rightarrow> 'a list" where
  "SortFunc cmp xs = rev (insertionSort cmp [] xs)"

lemma mset_sift [simp]: "mset (sift cmp x ys) = add_mset x (mset ys)"
  by (induction ys) auto

lemma set_sift [simp]: "set (sift cmp x ys) = insert x (set ys)"
  using mset_sift [of cmp x ys] by (metis set_mset_add_mset_insert set_mset_mset)

lemma mset_insertionSort: "mset (insertionSort cmp ys xs) = mset ys + mset xs"
  by (induction xs arbitrary: ys) auto

lemma sorted_sift:
  assumes "cmp_order cmp A" "insert x (set ys) \<subseteq> A" "sorted_wrt (\<lambda>a b. cmp b a \<le> 0) ys"
  shows "sorted_wrt (\<lambda>a b. cmp b a \<le> 0) (sift cmp x ys)"
  using assms(2,3)
proof (induction ys)
  case Nil
  then show ?case by simp
next
  case (Cons y ys)
  have asym: "\<And>a b. a \<in> A \<Longrightarrow> b \<in> A \<Longrightarrow> (cmp a b < 0 \<longleftrightarrow> 0 < cmp b a)"
    and trans: "\<And>a b c. a \<in> A \<Longrightarrow> b \<in> A \<Longrightarrow> c \<in> A \<Longrightarrow> cmp a b \<le> 0 \<Longrightarrow> cmp b c \<le> 0 \<Longrightarrow> cmp a c \<le> 0"
    using assms(1) unfolding cmp_order_def by blast+
  show ?case
  proof (cases "cmp x y < 0")
    case True
    with Cons show ?thesis by auto
  next
    case False
    then have "cmp y x \<le> 0"
      using asym [of x y] asym [of y x] Cons.prems(1) by force
    with False Cons.prems show ?thesis
      by (auto intro: trans [of _ y x])
  qed
qed

lemma sorted_insertionSort:
  assumes "cmp_order cmp A" "set ys \<union> set xs \<subseteq> A" "sorted_wrt (\<lambda>a b. cmp b a \<le> 0) ys"
  shows "sorted_wrt (\<lambda>a b. cmp b a \<le> 0) (insertionSort cmp ys xs)"
  using assms(2,3)
  by (induction xs arbitrary: ys) (auto simp: sorted_sift [OF assms(1)])

interpretation go_sort: sort_func SortFunc
proof
  show "mset (SortFunc cmp xs) = mset xs" for cmp and xs :: "'a list"
    by (simp add: SortFunc_def mset_insertionSort)
  show "cmp_order cmp (set xs) \<Longrightarrow> sorted_wrt (\<lambda>a b. cmp a b \<le> 0) (SortFunc cmp xs)"
    for cmp and xs :: "'a list"
    using sorted_insertionSort [of cmp "set xs" "[]" xs] by (simp add: SortFunc_def sorted_wrt_rev)
qed

section \<open>Paths\<close>

text \<open>\<^verbatim>\<open>path.Clean\<close> on the elements between slashes, and \<^verbatim>\<open>path.Join\<close> of two elements.\<close>

fun split_slash :: "string \<Rightarrow> string list" where
  "split_slash [] = [[]]"
| "split_slash (c # cs) = (if c = CHR ''/'' then [] # split_slash cs
     else case split_slash cs of [] \<Rightarrow> [[c]] | w # ws \<Rightarrow> (c # w) # ws)"

fun clean_elems :: "bool \<Rightarrow> string list \<Rightarrow> string list \<Rightarrow> string list" where
  "clean_elems rooted out [] = rev out"
| "clean_elems rooted out (w # ws) =
     (if w = [] \<or> w = ''.'' then clean_elems rooted out ws
      else if w = ''..'' then
        (if out \<noteq> [] \<and> hd out \<noteq> ''..'' then clean_elems rooted (tl out) ws
         else if rooted then clean_elems rooted out ws
         else clean_elems rooted (w # out) ws)
      else clean_elems rooted (w # out) ws)"

definition path_Clean :: "string \<Rightarrow> string" where
  "path_Clean p =
     (if p = [] then ''.''
      else let rooted = (hd p = CHR ''/''); body = Join (clean_elems rooted [] (split_slash p)) ''/''
        in if rooted then CHR ''/'' # body else if body = [] then ''.'' else body)"

definition path_Join :: "string \<Rightarrow> string \<Rightarrow> string" where
  "path_Join a b = (let parts = filter (\<lambda>e. e \<noteq> []) [a, b] in
     if parts = [] then [] else path_Clean (Join parts ''/''))"

text \<open>A plain path element: what every Kubernetes namespace and Pod name is.\<close>

definition plain_elem :: "string \<Rightarrow> bool" where
  "plain_elem w \<longleftrightarrow> w \<noteq> [] \<and> CHR ''/'' \<notin> set w \<and> w \<noteq> ''.'' \<and> w \<noteq> ''..''"

lemma split_slash_plain: "CHR ''/'' \<notin> set w \<Longrightarrow> split_slash w = [w]"
  by (induction w) auto

lemma split_slash_append: "CHR ''/'' \<notin> set w \<Longrightarrow> split_slash (w @ CHR ''/'' # rest) = w # split_slash rest"
  by (induction w) auto

lemma path_Join_plain:
  assumes "plain_elem a" and "plain_elem b"
  shows "path_Join a b = a @ ''/'' @ b"
proof -
  have "hd (a @ CHR ''/'' # b) \<noteq> CHR ''/''"
    using assms by (cases a) (auto simp: plain_elem_def)
  then show ?thesis
    using assms by (simp add: path_Join_def path_Clean_def plain_elem_def split_slash_append split_slash_plain Let_def)
qed

end
