(* ===== verification/Kube.thy ===== *)
theory Kube
  imports Prelude
begin

text \<open>
  The Kubernetes side of the program, none of which is code of the repository: the API objects
  (only the fields the sources read or write), the controller-runtime \<^verbatim>\<open>client.Reader\<close> and
  \<^verbatim>\<open>client.Client\<close> interfaces, and the few \<^verbatim>\<open>k8s.io/apimachinery\<close> functions the sources call.
  The interfaces are records of functions over a world of type \<open>'w\<close> (the API server, the clock and
  everything else outside the process): every definition that uses them takes them as arguments.

  Also here: the shared hand-off contract (\<^verbatim>\<open>internal/contracts/types.go\<close>) and a small
  concrete cluster, with which the witnesses instantiate the parameters.
\<close>

section \<open>API objects\<close>

text \<open>Parts of an object no code of the repository looks into are kept as their serialised text.\<close>

type_synonym opaque = string

record NamespacedName =
  nnNamespace :: string
  nnName :: string

record OwnerReference =
  orKind :: string
  orName :: string
  orUID :: string
  orController :: "bool option"

record ObjectMeta =
  Name :: string
  Namespace :: string
  UID :: string
  Annotations :: "string \<rightharpoonup> string"
  OwnerReferences :: "OwnerReference list"
  CreationTimestamp :: time
  DeletionTimestamp :: "time option"
  Generation :: int

record ContainerStatus =
  csName :: string
  csRestartCount :: int
  csWaiting :: "string option"

record PodCondition =
  pcType :: string
  pcStatus :: string

record Pod =
  podMeta :: ObjectMeta
  podContainers :: "string list"
  podConditions :: "PodCondition list"
  podContainerStatuses :: "ContainerStatus list"

record LabelSelector =
  MatchLabels :: "string \<rightharpoonup> string"
  MatchExpressions :: opaque

record DeploymentSpec =
  Selector :: "LabelSelector option"
  Template :: opaque
  specRest :: opaque

record Deployment =
  depMeta :: ObjectMeta
  depSpec :: DeploymentSpec

record ReplicaSet =
  rsMeta :: ObjectMeta
  rsTemplate :: opaque

abbreviation metaRef :: "ObjectMeta \<Rightarrow> NamespacedName" where
  "metaRef m \<equiv> \<lparr>nnNamespace = Namespace m, nnName = Name m\<rparr>"

abbreviation nsName :: "string \<Rightarrow> string \<Rightarrow> NamespacedName" where
  "nsName ns n \<equiv> \<lparr>nnNamespace = ns, nnName = n\<rparr>"

section \<open>Client interfaces\<close>

datatype ListSelector = MatchingLabels "string \<rightharpoonup> string" | MatchingLabelsSelector opaque

record 'w Reader =
  GetPod :: "NamespacedName \<Rightarrow> 'w \<Rightarrow> (error + Pod) \<times> 'w"
  GetDeployment :: "NamespacedName \<Rightarrow> 'w \<Rightarrow> (error + Deployment) \<times> 'w"
  GetReplicaSet :: "NamespacedName \<Rightarrow> 'w \<Rightarrow> (error + ReplicaSet) \<times> 'w"
  ListReplicaSets :: "string \<Rightarrow> ListSelector \<Rightarrow> 'w \<Rightarrow> (error + ReplicaSet list) \<times> 'w"
  ListPods :: "string \<Rightarrow> ListSelector \<Rightarrow> 'w \<Rightarrow> (error + Pod list) \<times> 'w"

record 'w Client =
  clientReader :: "'w Reader"
  UpdateDeployment :: "Deployment \<Rightarrow> 'w \<Rightarrow> error option \<times> 'w"
  DeletePod :: "Pod \<Rightarrow> 'w \<Rightarrow> error option \<times> 'w"

record Apimachinery =
  GetControllerOfNoCopy :: "ObjectMeta \<Rightarrow> OwnerReference option"
  IsControlledBy :: "ObjectMeta \<Rightarrow> ObjectMeta \<Rightarrow> bool"
  LabelSelectorAsSelector :: "LabelSelector \<Rightarrow> error + opaque"
  SemanticDeepEqual :: "DeploymentSpec \<Rightarrow> DeploymentSpec \<Rightarrow> bool"
  IgnoreNotFound :: "error \<Rightarrow> error option"

text \<open>
  The documented behaviour of the two functions the ownership checks rest on:
  \<^verbatim>\<open>GetControllerOfNoCopy\<close> returns one of the object's owner references, one with
  \<^verbatim>\<open>controller: true\<close>; \<^verbatim>\<open>IsControlledBy\<close> compares that reference's UID with the owner's.
\<close>

definition controller_refs_ok :: "Apimachinery \<Rightarrow> bool" where
  "controller_refs_ok am \<longleftrightarrow>
     (\<forall>m r. GetControllerOfNoCopy am m = Some r \<longrightarrow>
        r \<in> set (OwnerReferences m) \<and> orController r = Some True) \<and>
     (\<forall>m owner. IsControlledBy am m owner \<longleftrightarrow>
        (\<exists>r. GetControllerOfNoCopy am m = Some r \<and> orUID r = UID owner))"

section \<open>The detection event\<close>

record DetectionEvent =
  evPodName :: string
  evNamespace :: string
  evContainerName :: string
  evRestartCount :: int
  evOwnerDeployment :: string
  evTimestamp :: time
  evIncidentID :: string
  evAttemptNumber :: int

section \<open>A concrete cluster\<close>

text \<open>
  An API server with a clock: gets and lists read the stored objects, updates and deletes
  write them, and every wait moves the clock. \<open>stdMachinery\<close> instantiates the
  \<^verbatim>\<open>apimachinery\<close> functions.
\<close>

record cluster =
  clNow :: time
  clPods :: "Pod list"
  clDeployments :: "Deployment list"
  clReplicaSets :: "ReplicaSet list"

definition notFound :: "string \<Rightarrow> error" where
  "notFound n = ApiStatus ''NotFound'' (n @ '' not found'')"

definition find_obj :: "('o \<Rightarrow> ObjectMeta) \<Rightarrow> NamespacedName \<Rightarrow> 'o list \<Rightarrow> error + 'o" where
  "find_obj meta nn os =
     (case filter (\<lambda>x. metaRef (meta x) = nn) os of [] \<Rightarrow> Inl (notFound (nnName nn)) | x # _ \<Rightarrow> Inr x)"

definition clusterReader :: "cluster Reader" where
  "clusterReader =
     \<lparr>GetPod = (\<lambda>nn c. (find_obj podMeta nn (clPods c), c)),
      GetDeployment = (\<lambda>nn c. (find_obj depMeta nn (clDeployments c), c)),
      GetReplicaSet = (\<lambda>nn c. (find_obj rsMeta nn (clReplicaSets c), c)),
      ListReplicaSets = (\<lambda>ns sel c. (Inr (filter (\<lambda>x. Namespace (rsMeta x) = ns) (clReplicaSets c)), c)),
      ListPods = (\<lambda>ns sel c. (Inr (filter (\<lambda>x. Namespace (podMeta x) = ns) (clPods c)), c))\<rparr>"

definition clusterClient :: "cluster Client" where
  "clusterClient =
     \<lparr>clientReader = clusterReader,
      UpdateDeployment = (\<lambda>d c. case find_obj depMeta (metaRef (depMeta d)) (clDeployments c) of
         Inl err \<Rightarrow> (Some err, c)
       | Inr _ \<Rightarrow> (None, c\<lparr>clDeployments :=
           map (\<lambda>x. if metaRef (depMeta x) = metaRef (depMeta d) then d else x) (clDeployments c)\<rparr>)),
      DeletePod = (\<lambda>p c. (None, c\<lparr>clPods := filter (\<lambda>x. metaRef (podMeta x) \<noteq> metaRef (podMeta p)) (clPods c)\<rparr>))\<rparr>"

definition stdMachinery :: Apimachinery where
  "stdMachinery =
     \<lparr>GetControllerOfNoCopy = (\<lambda>m. List.find (\<lambda>r. orController r = Some True) (OwnerReferences m)),
      IsControlledBy = (\<lambda>m owner. case List.find (\<lambda>r. orController r = Some True) (OwnerReferences m) of
         None \<Rightarrow> False | Some r \<Rightarrow> orUID r = UID owner),
      LabelSelectorAsSelector = (\<lambda>s. Inr (MatchExpressions s)),
      SemanticDeepEqual = (\<lambda>a b. Template a = Template b \<and> specRest a = specRest b),
      IgnoreNotFound = (\<lambda>e. case e of ApiStatus r m \<Rightarrow> if r = ''NotFound'' then None else Some e | _ \<Rightarrow> Some e)\<rparr>"

lemma controller_refs_ok_std: "controller_refs_ok stdMachinery"
  unfolding controller_refs_ok_def stdMachinery_def
  by (auto dest: find_Some_mem split: option.splits)

definition exampleMeta :: "string \<Rightarrow> string \<Rightarrow> OwnerReference list \<Rightarrow> ObjectMeta" where
  "exampleMeta n uid owners = \<lparr>Name = n, Namespace = ''shop'', UID = uid, Annotations = Map.empty, OwnerReferences = owners,
     CreationTimestamp = 50, DeletionTimestamp = None, Generation = 1\<rparr>"

definition exampleOwner :: "string \<Rightarrow> string \<Rightarrow> string \<Rightarrow> OwnerReference" where
  "exampleOwner k n uid = \<lparr>orKind = k, orName = n, orUID = uid, orController = Some True\<rparr>"

text \<open>A Deployment whose replacement Pod \<open>checkout-2\<close> is Ready and stays so.\<close>

definition healedCluster :: cluster where
  "healedCluster = \<lparr>clNow = 100,
     clPods = [\<lparr>podMeta = exampleMeta ''checkout-2'' ''uid-2'' [exampleOwner ''ReplicaSet'' ''checkout-rs'' ''rs-1''],
       podContainers = [''app''], podConditions = [\<lparr>pcType = ''Ready'', pcStatus = ''True''\<rparr>],
       podContainerStatuses = [\<lparr>csName = ''app'', csRestartCount = 0, csWaiting = None\<rparr>]\<rparr>],
     clDeployments = [\<lparr>depMeta = exampleMeta ''checkout'' ''dep-1'' [],
       depSpec = \<lparr>Selector = Some \<lparr>MatchLabels = Map.empty, MatchExpressions = []\<rparr>, Template = ''v1'', specRest = []\<rparr>\<rparr>],
     clReplicaSets = [\<lparr>rsMeta = exampleMeta ''checkout-rs'' ''rs-1'' [exampleOwner ''Deployment'' ''checkout'' ''dep-1''],
       rsTemplate = ''v1''\<rparr>]\<rparr>"

end
