(* ===== verification/StateMachine.thy ===== *)
theory StateMachine
  imports Kube
begin

text \<open>
  The lifecycle of one remediation attempt, \<^verbatim>\<open>internal/safety/state_machine.go\<close>: the states, the
  table of allowed transitions, and the machine that rejects every other one. Shown: the machine
  refuses exactly the transitions outside the table and keeps its state then, and the runs it
  accepts from a new machine are the prefixes of the recovery path and of the rollback path.
\<close>

datatype State =
    StateDetected | StateSnapshotted | StateRemediating | StateVerifying
  | StateRecovered | StateRollingBack | StateRolledBack | StateLogged

fun State_string :: "State \<Rightarrow> string" where
  "State_string StateDetected = ''DETECTED''"
| "State_string StateSnapshotted = ''SNAPSHOTTED''"
| "State_string StateRemediating = ''REMEDIATING''"
| "State_string StateVerifying = ''VERIFYING''"
| "State_string StateRecovered = ''RECOVERED''"
| "State_string StateRollingBack = ''ROLLING_BACK''"
| "State_string StateRolledBack = ''ROLLED_BACK''"
| "State_string StateLogged = ''LOGGED''"

text \<open>A state that is no key of the Go map has no entry, and its nil inner map holds nothing.\<close>

fun allowedTransitions :: "State \<Rightarrow> State set" where
  "allowedTransitions StateDetected = {StateSnapshotted}"
| "allowedTransitions StateSnapshotted = {StateRemediating}"
| "allowedTransitions StateRemediating = {StateVerifying}"
| "allowedTransitions StateVerifying = {StateRecovered, StateRollingBack}"
| "allowedTransitions StateRecovered = {StateLogged}"
| "allowedTransitions StateRollingBack = {StateRolledBack}"
| "allowedTransitions StateRolledBack = {StateLogged}"
| "allowedTransitions StateLogged = {}"

record StateMachine =
  current :: State

definition NewStateMachine :: StateMachine where
  "NewStateMachine = \<lparr>current = StateDetected\<rparr>"

definition Current :: "StateMachine \<Rightarrow> State" where
  "Current m = current m"

definition Transition :: "StateMachine \<Rightarrow> State \<Rightarrow> error option \<times> StateMachine" where
  "Transition m next =
     (if next \<notin> allowedTransitions (current m)
      then (Some (Errorf (''illegal lifecycle transition '' @ State_string (current m) @ '' -> '' @ State_string next)), m)
      else (None, m\<lparr>current := next\<rparr>))"

section \<open>Runs\<close>

text \<open>
  A run submits a list of next states one by one; it is accepted when no transition is rejected.
\<close>

inductive accepts :: "StateMachine \<Rightarrow> State list \<Rightarrow> StateMachine \<Rightarrow> bool" where
  accepts_Nil: "accepts m [] m"
| accepts_Cons: "Transition m s = (None, m') \<Longrightarrow> accepts m' ss m'' \<Longrightarrow> accepts m (s # ss) m''"

inductive_cases accepts_ConsE [elim]: "accepts m (s # ss) m''"
inductive_simps accepts_Nil_iff [simp]: "accepts m [] m'"
inductive_simps accepts_Cons_iff: "accepts m (s # ss) m'"

definition recoveryPath :: "State list" where
  "recoveryPath = [StateSnapshotted, StateRemediating, StateVerifying, StateRecovered, StateLogged]"

definition rollbackPath :: "State list" where
  "rollbackPath = [StateSnapshotted, StateRemediating, StateVerifying, StateRollingBack, StateRolledBack, StateLogged]"

lemma Transition_ok_iff:
  "Transition m s = (None, m') \<longleftrightarrow> s \<in> allowedTransitions (current m) \<and> m' = m\<lparr>current := s\<rparr>"
  by (auto simp: Transition_def)

lemma Transition_ok [simp]:
  "s \<in> allowedTransitions (current m) \<Longrightarrow> Transition m s = (None, m\<lparr>current := s\<rparr>)"
  by (simp add: Transition_def)

text \<open>How far the lifecycle still is from its end: every accepted transition goes down.\<close>

fun stage :: "State \<Rightarrow> nat" where
  "stage StateDetected = 6"
| "stage StateSnapshotted = 5"
| "stage StateRemediating = 4"
| "stage StateVerifying = 3"
| "stage StateRecovered = 1"
| "stage StateRollingBack = 2"
| "stage StateRolledBack = 1"
| "stage StateLogged = 0"

lemma allowed_stage: "t \<in> allowedTransitions s \<Longrightarrow> stage t < stage s"
  by (cases s) auto

lemma accepts_length: "accepts m ss m' \<Longrightarrow> length ss + stage (current m') \<le> stage (current m)"
proof (induction rule: accepts.induct)
  case (accepts_Cons m s m' ss m'')
  then show ?case using allowed_stage [of s "current m"] by (auto simp: Transition_ok_iff)
qed simp

lemma accepts_step:
  "accepts \<lparr>current = c\<rparr> ss m \<longleftrightarrow>
     (ss = [] \<and> m = \<lparr>current = c\<rparr>) \<or>
     (\<exists>t ts. ss = t # ts \<and> t \<in> allowedTransitions c \<and> accepts \<lparr>current = t\<rparr> ts m)"
  by (cases ss) (auto simp: accepts_Cons_iff Transition_ok_iff)

text \<open>The runs accepted from each state, from the last state backwards.\<close>

lemma accepts_from:
  "accepts \<lparr>current = StateLogged\<rparr> ss m \<Longrightarrow> ss = []"
  "accepts \<lparr>current = StateRolledBack\<rparr> ss m \<Longrightarrow> prefix ss [StateLogged]"
  "accepts \<lparr>current = StateRecovered\<rparr> ss m \<Longrightarrow> prefix ss [StateLogged]"
  by (auto simp: accepts_step [of StateLogged] accepts_step [of StateRolledBack] accepts_step [of StateRecovered])

lemma accepts_from_RollingBack:
  "accepts \<lparr>current = StateRollingBack\<rparr> ss m \<Longrightarrow> prefix ss [StateRolledBack, StateLogged]"
  by (auto simp: accepts_step [of StateRollingBack] dest: accepts_from)

lemma accepts_from_Verifying:
  "accepts \<lparr>current = StateVerifying\<rparr> ss m \<Longrightarrow>
     prefix ss [StateRecovered, StateLogged] \<or> prefix ss [StateRollingBack, StateRolledBack, StateLogged]"
  by (auto simp: accepts_step [of StateVerifying] dest: accepts_from accepts_from_RollingBack)

lemma accepts_paths:
  assumes "accepts NewStateMachine ss m"
  shows "prefix ss recoveryPath \<or> prefix ss rollbackPath"
proof -
  from assms have "accepts \<lparr>current = StateDetected\<rparr> ss m" by (simp add: NewStateMachine_def)
  then consider "ss = []"
    | "ss = [StateSnapshotted]"
    | "ss = [StateSnapshotted, StateRemediating]"
    | ts where "ss = StateSnapshotted # StateRemediating # StateVerifying # ts"
        "accepts \<lparr>current = StateVerifying\<rparr> ts m"
    by (auto simp: accepts_step [of StateDetected] accepts_step [of StateSnapshotted]
        accepts_step [of StateRemediating])
  then show ?thesis
    by cases (auto simp: recoveryPath_def rollbackPath_def dest: accepts_from_Verifying)
qed

lemma accepts_append:
  "accepts m (ss @ ts) m'' \<Longrightarrow> \<exists>m'. accepts m ss m'"
  by (induction ss arbitrary: m) (fastforce simp: accepts_Cons_iff intro: accepts.intros)+

lemma accepts_full_paths:
  "accepts NewStateMachine recoveryPath \<lparr>current = StateLogged\<rparr>"
  "accepts NewStateMachine rollbackPath \<lparr>current = StateLogged\<rparr>"
  by (simp_all add: recoveryPath_def rollbackPath_def NewStateMachine_def accepts_Cons_iff Transition_def)

text \<open>
  C22: the lifecycle machine accepts exactly the prefixes of two paths. From a new machine, a list of
  transitions is accepted in full if and only if it is a prefix of the recovery path
  (SNAPSHOTTED, REMEDIATING, VERIFYING, RECOVERED, LOGGED) or of the rollback path (SNAPSHOTTED,
  REMEDIATING, VERIFYING, ROLLING\_BACK, ROLLED\_BACK, LOGGED).
\<close>

theorem lifecycle_paths:
  "(\<exists>m. accepts NewStateMachine ss m) \<longleftrightarrow> prefix ss recoveryPath \<or> prefix ss rollbackPath"
proof
  assume "\<exists>m. accepts NewStateMachine ss m"
  then show "prefix ss recoveryPath \<or> prefix ss rollbackPath" using accepts_paths by blast
next
  assume "prefix ss recoveryPath \<or> prefix ss rollbackPath"
  then show "\<exists>m. accepts NewStateMachine ss m"
    using accepts_full_paths accepts_append unfolding prefix_def by metis
qed

end
