(* ===== verification/Json.thy ===== *)
theory Json
  imports Prelude
begin

text \<open>
  The part of \<^verbatim>\<open>encoding/json\<close> the sources use: the encoding of strings, with HTML
  characters, control characters, U+2028, U+2029 and invalid UTF-8 escaped as
  \<^verbatim>\<open>json.Encoder\<close> and \<^verbatim>\<open>json.Marshal\<close> do by default, of integers, and of objects
  as fields in the order of the struct. Shown: an encoded string never contains a line feed,
  which makes one encoded value one line.
\<close>

section \<open>UTF-8\<close>

definition byte :: "char \<Rightarrow> nat" where "byte c = of_char c"

definition isCont :: "char \<Rightarrow> bool" where
  "isCont c \<longleftrightarrow> 128 \<le> byte c \<and> byte c \<le> 191"

text \<open>The length of the code point a string starts with, 0 when its bytes are not valid UTF-8.\<close>

fun rune_len :: "string \<Rightarrow> nat" where
  "rune_len [] = 0"
| "rune_len (a # s) =
     (let n = byte a in
      if n < 128 then 1
      else if 194 \<le> n \<and> n \<le> 223 then
        (case s of b # _ \<Rightarrow> if isCont b then 2 else 0 | _ \<Rightarrow> 0)
      else if 224 \<le> n \<and> n \<le> 239 then
        (case s of b # c # _ \<Rightarrow>
           if isCont b \<and> isCont c \<and> (n = 224 \<longrightarrow> 160 \<le> byte b) \<and> (n = 237 \<longrightarrow> byte b \<le> 159) then 3 else 0
         | _ \<Rightarrow> 0)
      else if 240 \<le> n \<and> n \<le> 244 then
        (case s of b # c # d # _ \<Rightarrow>
           if isCont b \<and> isCont c \<and> isCont d \<and> (n = 240 \<longrightarrow> 144 \<le> byte b) \<and> (n = 244 \<longrightarrow> byte b \<le> 143) then 4 else 0
         | _ \<Rightarrow> 0)
      else 0)"

section \<open>String encoding\<close>

definition hex :: "nat \<Rightarrow> char" where
  "hex n = (''0123456789abcdef'' ! (n mod 16))"

definition htmlSafe :: "char \<Rightarrow> bool" where
  "htmlSafe c \<longleftrightarrow> 32 \<le> byte c \<and> byte c < 128 \<and> c \<notin> {CHR 0x22, CHR ''&'', CHR ''<'', CHR ''>'', CHR 0x5C}"

definition escape_ascii :: "char \<Rightarrow> string" where
  "escape_ascii c =
     (if htmlSafe c then [c]
      else if c = CHR 0x5C \<or> c = CHR 0x22 then [CHR 0x5C, c]
      else if byte c = 8 then CHR 0x5C # ''b''
      else if byte c = 12 then CHR 0x5C # ''f''
      else if byte c = 10 then CHR 0x5C # ''n''
      else if byte c = 13 then CHR 0x5C # ''r''
      else if byte c = 9 then CHR 0x5C # ''t''
      else CHR 0x5C # ''u00'' @ [hex (byte c div 16), hex (byte c)])"

function escape :: "string \<Rightarrow> string" where
  "escape [] = []"
| "escape (c # cs) =
     (if byte c < 128 then escape_ascii c @ escape cs
      else let n = rune_len (c # cs) in
        if n = 0 then CHR 0x5C # ''ufffd'' @ escape cs
        else if take n (c # cs) = [CHR 0xE2, CHR 0x80, CHR 0xA8] then CHR 0x5C # ''u2028'' @ escape (drop n (c # cs))
        else if take n (c # cs) = [CHR 0xE2, CHR 0x80, CHR 0xA9] then CHR 0x5C # ''u2029'' @ escape (drop n (c # cs))
        else take n (c # cs) @ escape (drop n (c # cs)))"
  by pat_completeness auto
termination
  by (relation "measure length") auto

declare escape.simps(2) [simp del]

definition json_string :: "string \<Rightarrow> string" where
  "json_string s = CHR 0x22 # escape s @ [CHR 0x22]"

definition json_object :: "(string \<times> string) list \<Rightarrow> string" where
  "json_object fields = ''{'' @ Join (map (\<lambda>(k, v). json_string k @ '':'' @ v) fields) '','' @ ''}''"

text \<open>
  \<^verbatim>\<open>strconv.Quote\<close> (the verb \<^verbatim>\<open>%q\<close>), used in error texts only: quotes, backslashes and control
  characters are escaped, bytes above 127 are kept as the printable characters they encode.
\<close>

definition quote_byte :: "char \<Rightarrow> string" where
  "quote_byte c =
     (if c = CHR 0x5C \<or> c = CHR 0x22 then [CHR 0x5C, c]
      else if 7 \<le> byte c \<and> byte c \<le> 13 then [CHR 0x5C, ''abtnvfr'' ! (byte c - 7)]
      else if byte c < 32 \<or> byte c = 127 then CHR 0x5C # ''x'' @ [hex (byte c div 16), hex (byte c)]
      else [c])"

definition Quote :: "string \<Rightarrow> string" where
  "Quote s = CHR 0x22 # concat (map quote_byte s) @ [CHR 0x22]"

section \<open>One value is one line\<close>

abbreviation LF :: char where "LF \<equiv> CHR 0x0A"

lemma byte_LF [simp]: "byte LF = 10" by (simp add: byte_def)

lemma hex_no_LF [simp]: "hex n \<noteq> LF"
proof -
  have "\<forall>i \<in> {..<16}. ''0123456789abcdef'' ! i \<noteq> LF"
    by (simp add: lessThan_nat_numeral lessThan_Suc numeral_eq_Suc)
  moreover have "n mod 16 \<in> {..<16}" by simp
  ultimately show ?thesis unfolding hex_def by blast
qed

lemma LF_neq_hex [simp]: "LF \<noteq> hex n"
  using hex_no_LF by metis

lemma escape_ascii_no_LF: "LF \<notin> set (escape_ascii c)"
proof (cases "htmlSafe c")
  case True
  then have "c \<noteq> LF" by (auto simp: htmlSafe_def)
  with True show ?thesis by (simp add: escape_ascii_def)
next
  case False
  then show ?thesis by (simp add: escape_ascii_def)
qed

lemma rune_take_no_LF:
  assumes "128 \<le> byte c"
  shows "LF \<notin> set (take (rune_len (c # cs)) (c # cs))"
proof -
  have "\<not> isCont LF" by (simp add: isCont_def)
  with assms show ?thesis
    by (auto simp: Let_def split: list.splits if_splits)
qed

lemma escape_no_LF [simp]: "LF \<notin> set (escape s)"
proof (induction s rule: escape.induct)
  case (2 c cs)
  then show ?case
    using escape_ascii_no_LF [of c] rune_take_no_LF [of c cs]
    by (auto simp: escape.simps(2) [of c cs] Let_def simp del: rune_len.simps take_Suc_Cons)
qed simp

lemma json_string_no_LF [simp]: "LF \<notin> set (json_string s)"
  by (simp add: json_string_def)

lemma Join_notin: "(\<And>x. x \<in> set xs \<Longrightarrow> c \<notin> set x) \<Longrightarrow> c \<notin> set sep \<Longrightarrow> c \<notin> set (Join xs sep)"
  by (induction xs sep rule: Join.induct) auto

lemma json_object_no_LF:
  assumes "\<And>k v. (k, v) \<in> set fields \<Longrightarrow> LF \<notin> set v"
  shows "LF \<notin> set (json_object fields)"
proof -
  have "LF \<notin> set (Join (map (\<lambda>(k, v). json_string k @ '':'' @ v) fields) '','')"
    by (rule Join_notin) (auto dest: assms)
  then show ?thesis by (simp add: json_object_def)
qed

lemma digits_no_LF: "LF \<notin> set (digits n)"
proof (induction n rule: digits.induct)
  case (1 n)
  have "(char_of (48 + k) :: char) \<noteq> LF" if "k < 10" for k :: nat
  proof
    assume "(char_of (48 + k) :: char) = LF"
    then have "(of_char (char_of (48 + k)) :: nat) = of_char LF" by simp
    with that show False by simp
  qed
  with 1 show ?case by (subst digits.simps) (auto simp: eq_commute)
qed

lemma Itoa_no_LF [simp]: "LF \<notin> set (Itoa i)"
  by (simp add: Itoa_def digits_no_LF)

end
