(* ===== verification/AuditLog.thy ===== *)
theory AuditLog
  imports StateMachine Json
begin

text \<open>
  The audit sink, \<^verbatim>\<open>internal/safety/audit.go\<close>: the entry schema, the \<^verbatim>\<open>AuditWriter\<close>
  interface, and the JSON Lines writer behind it. The writer's \<^verbatim>\<open>io.Writer\<close> (stdout or a file),
  \<^verbatim>\<open>Sync\<close>, \<^verbatim>\<open>Close\<close> and \<^verbatim>\<open>os.OpenFile\<close> are parameters, and so is the rendering of a timestamp
  (it depends on the process's time zone). \<^verbatim>\<open>mu\<close> makes each \<^verbatim>\<open>Append\<close> one atomic step,
  which a HOL function is.

  Shown: through the writer that \<^verbatim>\<open>NewJSONLFileAuditWriter\<close> returns, a successful append adds
  exactly one line to the file (the encoded entry, with its only line feed at the end) and syncs it,
  and a failed one loses nothing already written; reading the file back gives the appended entries.
\<close>

record AuditMetadata =
  Workload :: string
  ArmLabel :: string

record AuditEntry =
  aeIncidentID :: string
  aeAttemptNumber :: int
  aeTimestamp :: time
  aePod :: string
  aeState :: State
  aeAction :: string
  aeResult :: string
  aeWorkload :: string
  aeArmLabel :: string

record 'w AuditWriter =
  Append :: "AuditEntry \<Rightarrow> 'w \<Rightarrow> error option \<times> 'w"

section \<open>The JSON Lines writer\<close>

text \<open>
  \<open>encoder\<close> is how the encoder hands a line to its underlying writer, \<open>None\<close> for a nil encoder;
  a \<^verbatim>\<open>json.Encoder\<close> refuses every line after a failed write, and that memory belongs, with the
  writer itself, to the world this function acts on. \<open>wsync\<close> and
  \<open>wclose\<close> are the two function fields, \<open>None\<close> for nil.
\<close>

record 'w JSONLAuditWriter =
  encoder :: "(string \<Rightarrow> 'w \<Rightarrow> error option \<times> 'w) option"
  wsync :: "('w \<Rightarrow> error option \<times> 'w) option"
  wclose :: "('w \<Rightarrow> error option \<times> 'w) option"

definition NewJSONLAuditWriter :: "(string \<Rightarrow> 'w \<Rightarrow> error option \<times> 'w) \<Rightarrow> 'w JSONLAuditWriter" where
  "NewJSONLAuditWriter writer = \<lparr>encoder = Some writer, wsync = None, wclose = None\<rparr>"

text \<open>An opened file: its \<^verbatim>\<open>Write\<close>, \<^verbatim>\<open>Sync\<close> and \<^verbatim>\<open>Close\<close>.\<close>

record 'w File =
  fWrite :: "string \<Rightarrow> 'w \<Rightarrow> error option \<times> 'w"
  fSync :: "'w \<Rightarrow> error option \<times> 'w"
  fClose :: "'w \<Rightarrow> error option \<times> 'w"

definition NewJSONLFileAuditWriter ::
  "(string \<Rightarrow> 'w \<Rightarrow> (error + 'w File) \<times> 'w) \<Rightarrow> string \<Rightarrow> 'w \<Rightarrow> (error + 'w JSONLAuditWriter) \<times> 'w" where
  "NewJSONLFileAuditWriter OpenFile filePath w =
     (if filePath = [] then (Inl (Errorf ''open audit file: path is required''), w)
      else case OpenFile filePath w of
          (Inl e, w1) \<Rightarrow> (Inl (Wrapf (''open audit file '' @ Quote filePath @ '': '') e []), w1)
        | (Inr file, w1) \<Rightarrow>
            (Inr \<lparr>encoder = Some (fWrite file), wsync = Some (fSync file), wclose = Some (fClose file)\<rparr>, w1))"

text \<open>
  \<^verbatim>\<open>json.Encoder.Encode\<close>: the fields in the struct's order under their tags, then a line feed,
  handed to the writer in one call. Only the timestamp's own encoder can fail.
\<close>

definition encodeEntry :: "(time \<Rightarrow> error + string) \<Rightarrow> AuditEntry \<Rightarrow> error + string" where
  "encodeEntry marshalTime e =
     (case marshalTime (aeTimestamp e) of
        Inl err \<Rightarrow> Inl err
      | Inr ts \<Rightarrow> Inr (json_object
          [(''incidentID'', json_string (aeIncidentID e)),
           (''attemptNumber'', Itoa (aeAttemptNumber e)),
           (''timestamp'', ts),
           (''pod'', json_string (aePod e)),
           (''state'', json_string (State_string (aeState e))),
           (''action'', json_string (aeAction e)),
           (''result'', json_string (aeResult e)),
           (''workload'', json_string (aeWorkload e)),
           (''armLabel'', json_string (aeArmLabel e))] @ [LF]))"

definition Encode :: "(time \<Rightarrow> error + string) \<Rightarrow> (string \<Rightarrow> 'w \<Rightarrow> error option \<times> 'w) \<Rightarrow> AuditEntry \<Rightarrow> 'w
    \<Rightarrow> error option \<times> 'w" where
  "Encode marshalTime writer e w =
     (case encodeEntry marshalTime e of
        Inl err \<Rightarrow> (Some err, w)
      | Inr line \<Rightarrow> writer line w)"

text \<open>The receiver is a pointer: \<open>None\<close> is the nil \<^verbatim>\<open>*JSONLAuditWriter\<close>.\<close>

definition JSONL_Append :: "(time \<Rightarrow> error + string) \<Rightarrow> 'w JSONLAuditWriter option \<Rightarrow> AuditEntry \<Rightarrow> 'w
    \<Rightarrow> error option \<times> 'w" where
  "JSONL_Append marshalTime jw entry w =
     (case jw of
        None \<Rightarrow> (Some (Errorf ''append audit entry: writer is required''), w)
      | Some wr \<Rightarrow>
        (case encoder wr of
           None \<Rightarrow> (Some (Errorf ''append audit entry: writer is required''), w)
         | Some out \<Rightarrow>
           (case Encode marshalTime out entry w of
              (Some err, w1) \<Rightarrow>
                (Some (Wrapf (''append audit entry for state '' @ State_string (aeState entry) @ '': '') err []), w1)
            | (None, w1) \<Rightarrow>
                (case wsync wr of
                   None \<Rightarrow> (None, w1)
                 | Some sync \<Rightarrow>
                     (case sync w1 of
                        (Some err, w2) \<Rightarrow>
                          (Some (Wrapf (''sync audit entry for state '' @ State_string (aeState entry) @ '': '') err []), w2)
                      | (None, w2) \<Rightarrow> (None, w2))))))"

definition JSONL_Close :: "'w JSONLAuditWriter option \<Rightarrow> 'w \<Rightarrow> error option \<times> 'w JSONLAuditWriter option \<times> 'w" where
  "JSONL_Close jw w =
     (case jw of
        None \<Rightarrow> (None, None, w)
      | Some wr \<Rightarrow>
        (case wclose wr of
           None \<Rightarrow> (None, Some wr, w)
         | Some close \<Rightarrow>
           (case close w of
              (err, w1) \<Rightarrow>
                (map_option (\<lambda>e. Wrapf ''close audit writer: '' e []) err,
                 Some (wr\<lparr>wclose := None, wsync := None\<rparr>), w1))))"

definition JSONLWriter :: "(time \<Rightarrow> error + string) \<Rightarrow> 'w JSONLAuditWriter option \<Rightarrow> 'w AuditWriter" where
  "JSONLWriter marshalTime jw = \<lparr>Append = JSONL_Append marshalTime jw\<rparr>"

section \<open>Lines\<close>

definition isLine :: "string \<Rightarrow> bool" where
  "isLine s \<longleftrightarrow> (\<exists>body. s = body @ [LF] \<and> LF \<notin> set body)"

text \<open>What is relied on of the timestamp's rendering: it is a quoted RFC 3339 time, with no line feed.\<close>

definition marshals_plain :: "(time \<Rightarrow> error + string) \<Rightarrow> bool" where
  "marshals_plain marshalTime \<longleftrightarrow> (\<forall>t s. marshalTime t = Inr s \<longrightarrow> LF \<notin> set s)"

lemma encodeEntry_isLine:
  assumes "marshals_plain marshalTime" and "encodeEntry marshalTime e = Inr line"
  shows "isLine line"
proof -
  from assms(2) obtain ts where ts: "marshalTime (aeTimestamp e) = Inr ts"
    by (auto simp: encodeEntry_def split: sum.splits)
  with assms(1) have "LF \<notin> set ts" by (auto simp: marshals_plain_def)
  then have "\<exists>body. line = body @ [LF] \<and> LF \<notin> set body"
    using assms(2) ts by (auto simp: encodeEntry_def intro!: json_object_no_LF)
  then show ?thesis by (simp add: isLine_def)
qed

section \<open>The sink's contract\<close>

text \<open>
  What a client of an \<^verbatim>\<open>AuditWriter\<close> relies on: a successful append adds exactly the encoded entry
  to the end of the sink, a failed one at most adds to it (nothing already written is lost).
  \<open>appendAll\<close> appends entries in order up to the first failure.
\<close>

fun appendAll :: "(AuditEntry \<Rightarrow> 'w \<Rightarrow> error option \<times> 'w) \<Rightarrow> AuditEntry list \<Rightarrow> 'w \<Rightarrow> error option \<times> 'w" where
  "appendAll app [] w = (None, w)"
| "appendAll app (e # es) w =
     (case app e w of (Some err, w1) \<Rightarrow> (Some err, w1) | (None, w1) \<Rightarrow> appendAll app es w1)"

locale audit_sink =
  fixes append :: "AuditEntry \<Rightarrow> 'w \<Rightarrow> error option \<times> 'w"
    and encode :: "AuditEntry \<Rightarrow> error + string"
    and content :: "'w \<Rightarrow> string"
  assumes append_ok: "append e w = (None, w') \<Longrightarrow> \<exists>line. encode e = Inr line \<and> content w' = content w @ line"
    and append_failed: "append e w = (Some err, w') \<Longrightarrow> prefix (content w) (content w')"
begin

lemma appendAll_ok:
  "appendAll append es w = (None, w') \<Longrightarrow> \<exists>ls. map encode es = map Inr ls \<and> content w' = content w @ concat ls"
proof (induction es arbitrary: w)
  case (Cons e es)
  then obtain w1 where w1: "append e w = (None, w1)" "appendAll append es w1 = (None, w')"
    by (auto split: prod.splits option.splits)
  obtain l where l: "encode e = Inr l" "content w1 = content w @ l"
    using append_ok [OF w1(1)] by blast
  obtain ls where "map encode es = map Inr ls" "content w' = content w1 @ concat ls"
    using Cons.IH [OF w1(2)] by blast
  with l have "map encode (e # es) = map Inr (l # ls) \<and> content w' = content w @ concat (l # ls)"
    by simp
  then show ?case by blast
qed simp

lemma append_grows: "append e w = (r, w') \<Longrightarrow> prefix (content w) (content w')"
  using append_ok append_failed by (cases r) (fastforce simp: prefix_def)+

lemma appendAll_grows: "appendAll append es w = (r, w') \<Longrightarrow> prefix (content w) (content w')"
proof (induction es arbitrary: w)
  case (Cons e es)
  then show ?case
    by (auto split: prod.splits option.splits dest!: append_grows intro: prefix_order.trans)
qed simp

end

locale durable_sink = audit_sink append encode content
  for append :: "AuditEntry \<Rightarrow> 'w \<Rightarrow> error option \<times> 'w"
    and encode :: "AuditEntry \<Rightarrow> error + string"
    and content :: "'w \<Rightarrow> string" +
  fixes durable :: "'w \<Rightarrow> string"
  assumes append_durable: "append e w = (None, w') \<Longrightarrow> durable w' = content w'"
begin

lemma appendAll_durable: "appendAll append es w = (None, w') \<Longrightarrow> es \<noteq> [] \<Longrightarrow> durable w' = content w'"
proof (induction es arbitrary: w)
  case (Cons e es)
  then show ?case
    by (cases "es = []") (auto split: prod.splits option.splits dest: append_durable)
qed simp

end

text \<open>
  What is relied on of a file opened with \<^verbatim>\<open>O_APPEND\<close>: a write that succeeds puts all its bytes at the end,
  a write that fails at most a first part of them, a \<^verbatim>\<open>Sync\<close> changes nothing and, when it
  succeeds, makes everything written so far durable.
\<close>

locale append_only_file =
  fixes fh :: "'w File" and content :: "'w \<Rightarrow> string" and durable :: "'w \<Rightarrow> string"
  assumes write_ok: "fWrite fh s w = (None, w') \<Longrightarrow> content w' = content w @ s"
    and write_failed: "fWrite fh s w = (Some err, w') \<Longrightarrow> \<exists>k. content w' = content w @ take k s"
    and sync_keeps: "fSync fh w = (r, w') \<Longrightarrow> content w' = content w"
    and sync_ok: "fSync fh w = (None, w') \<Longrightarrow> durable w' = content w"

text \<open>The writer the constructor returns on such a file.\<close>

locale opened_writer = append_only_file fh content durable
  for fh :: "'w File" and content :: "'w \<Rightarrow> string" and durable :: "'w \<Rightarrow> string" +
  fixes mt :: "time \<Rightarrow> error + string" and OpenFile :: "string \<Rightarrow> 'w \<Rightarrow> (error + 'w File) \<times> 'w"
    and path :: string and w0 :: 'w and w1 :: 'w and writer :: "'w JSONLAuditWriter"
  assumes opened: "OpenFile path w0 = (Inr fh, w1)"
    and built: "NewJSONLFileAuditWriter OpenFile path w0 = (Inr writer, w1)"
begin

lemma writer_fields: "encoder writer = Some (fWrite fh)" "wsync writer = Some (fSync fh)"
  using opened built by (auto simp: NewJSONLFileAuditWriter_def split: if_splits)

lemma append_cases:
  assumes "JSONL_Append mt (Some writer) e w = (r, w')"
  shows "(\<exists>err. encodeEntry mt e = Inl err \<and> r \<noteq> None \<and> w' = w) \<or>
    (\<exists>line ws. encodeEntry mt e = Inr line \<and>
       (r \<noteq> None \<and> (\<exists>err. fWrite fh line w = (Some err, w')) \<or>
        fWrite fh line w = (None, ws) \<and> (\<exists>rs. fSync fh ws = (rs, w') \<and> (r = None) = (rs = None))))"
  using assms by (auto simp: JSONL_Append_def writer_fields Encode_def split: sum.splits option.splits prod.splits)

end

sublocale opened_writer \<subseteq> sink: durable_sink "JSONL_Append mt (Some writer)" "encodeEntry mt" content durable
proof
  fix e w w' err
  show "\<exists>line. encodeEntry mt e = Inr line \<and> content w' = content w @ line"
    if "JSONL_Append mt (Some writer) e w = (None, w')"
    using append_cases [OF that] by (auto dest!: write_ok sync_keeps)
  show "prefix (content w) (content w')" if "JSONL_Append mt (Some writer) e w = (Some err, w')"
    using append_cases [OF that] by (auto dest!: write_ok write_failed sync_keeps)
  show "durable w' = content w'" if "JSONL_Append mt (Some writer) e w = (None, w')"
    using append_cases [OF that] sync_keeps sync_ok by (metis option.distinct(1))
qed

context opened_writer
begin

lemma writer_appends:
  assumes "appendAll (JSONL_Append mt (Some writer)) es w = (None, w')"
  shows "\<exists>ls. map (encodeEntry mt) es = map Inr ls \<and> content w' = content w @ concat ls"
    and "es \<noteq> [] \<Longrightarrow> durable w' = content w'"
  using assms by (rule sink.appendAll_ok, rule sink.appendAll_durable)

lemma writer_keeps:
  "appendAll (JSONL_Append mt (Some writer)) es w = (r, w') \<Longrightarrow> prefix (content w) (content w')"
  by (rule sink.appendAll_grows)

end

text \<open>
  A concrete file: what was written, how much of it is
  synced, and a disk that may run full (\<open>diskRoom\<close> bytes left), when a write stops short.
\<close>

record osFile =
  fileContent :: string
  fileSynced :: string
  diskRoom :: nat

definition appendFile :: "osFile File" where
  "appendFile =
     \<lparr>fWrite = (\<lambda>s w. if length s \<le> diskRoom w
         then (None, w\<lparr>fileContent := fileContent w @ s, diskRoom := diskRoom w - length s\<rparr>)
         else (Some (Errorf ''no space left on device''), w\<lparr>fileContent := fileContent w @ take (diskRoom w) s, diskRoom := 0\<rparr>)),
      fSync = (\<lambda>w. (None, w\<lparr>fileSynced := fileContent w\<rparr>)),
      fClose = (\<lambda>w. (None, w))\<rparr>"

definition openAppend :: "string \<Rightarrow> osFile \<Rightarrow> (error + osFile File) \<times> osFile" where
  "openAppend path w = (Inr appendFile, w)"

abbreviation openedAudit :: "osFile \<Rightarrow> osFile JSONLAuditWriter" where
  "openedAudit w \<equiv> projr (fst (NewJSONLFileAuditWriter openAppend ''/audit/audit.jsonl'' w))"

interpretation os_file: append_only_file appendFile fileContent fileSynced
  by unfold_locales (auto simp: appendFile_def split: if_splits)

interpretation os_audit: opened_writer appendFile fileContent fileSynced mt openAppend "''/audit/audit.jsonl''" w w "openedAudit w"
  for mt w
  by unfold_locales (simp_all add: NewJSONLFileAuditWriter_def openAppend_def)

section \<open>Reading the fh back\<close>

fun lines_of :: "string \<Rightarrow> string \<Rightarrow> string list" where
  "lines_of acc [] = (if acc = [] then [] else [acc])"
| "lines_of acc (c # cs) = (if c = LF then (acc @ [c]) # lines_of [] cs else lines_of (acc @ [c]) cs)"

lemma lines_of_line: "LF \<notin> set body \<Longrightarrow> lines_of acc (body @ LF # rest) = (acc @ body @ [LF]) # lines_of [] rest"
  by (induction body arbitrary: acc) auto

lemma lines_of_concat: "(\<And>l. l \<in> set ls \<Longrightarrow> isLine l) \<Longrightarrow> lines_of [] (concat ls) = ls"
proof (induction ls)
  case (Cons l ls)
  then obtain body where "l = body @ [LF]" "LF \<notin> set body" by (auto simp: isLine_def)
  with Cons show ?case by (simp add: lines_of_line)
qed simp

lemma encoded_lines:
  assumes "marshals_plain mt" and "map (encodeEntry mt) es = map Inr ls"
  shows "\<forall>l \<in> set ls. isLine l"
proof
  fix l
  assume "l \<in> set ls"
  then have "Inr l \<in> set (map (encodeEntry mt) es)" using assms(2) by simp
  then show "isLine l" using assms(1) encodeEntry_isLine by fastforce
qed

text \<open>
  What is relied on of \<^verbatim>\<open>os.OpenFile\<close> with \<^verbatim>\<open>O_CREATE|O_WRONLY|O_APPEND\<close>: the file of that path
  keeps its content (nothing, when it did not exist), and what is returned is append-only on it.
\<close>

definition opens_append_only :: "(string \<Rightarrow> 'w \<Rightarrow> (error + 'w File) \<times> 'w) \<Rightarrow> (string \<Rightarrow> 'w \<Rightarrow> string)
    \<Rightarrow> (string \<Rightarrow> 'w \<Rightarrow> string) \<Rightarrow> bool" where
  "opens_append_only OpenFile content durable \<longleftrightarrow>
     (\<forall>path w fh w'. OpenFile path w = (Inr fh, w') \<longrightarrow>
        content path w' = content path w \<and> append_only_file fh (content path) (durable path))"

lemma NewJSONLFile_opened:
  assumes "opens_append_only OpenFile content durable" and "NewJSONLFileAuditWriter OpenFile path w0 = (Inr writer, w1)"
  obtains fh where "opened_writer fh (content path) (durable path) OpenFile path w0 w1 writer"
    "content path w1 = content path w0"
proof -
  obtain fh where fh: "OpenFile path w0 = (Inr fh, w1)"
    using assms(2) by (auto simp: NewJSONLFileAuditWriter_def split: if_splits prod.splits sum.splits)
  with assms have "append_only_file fh (content path) (durable path)" "content path w1 = content path w0"
    unfolding opens_append_only_def by blast+
  with fh assms(2) that show thesis by (auto intro: opened_writer.intro opened_writer_axioms.intro)
qed

text \<open>
  C19: reading a durable audit file back. Take the writer that the file constructor returned, on a
  file that held complete lines before (none when it is new), and append entries through it in order,
  up to the first failure. If all appends succeeded, splitting the file at its line feeds gives the old
  lines and then exactly the encodings of the appended entries, one per line and in order, and when
  at least one entry was appended everything in the file is durable. If one failed, what the file
  held is still there in front. Relied on: the file is append-only and a successful sync is durable;
  the rendering of a timestamp contains no line feed.
\<close>

theorem audit_file_roundtrip:
  assumes "marshals_plain mt" and "opens_append_only OpenFile content durable"
    and "NewJSONLFileAuditWriter OpenFile path w0 = (Inr writer, w1)"
    and "content path w0 = concat old" and "list_all isLine old"
    and "appendAll (JSONL_Append mt (Some writer)) es w1 = (r, w2)"
  shows "if r = None
    then (\<exists>ls. lines_of [] (content path w2) = old @ ls \<and> map Inr ls = map (encodeEntry mt) es) \<and>
         (es \<noteq> [] \<longrightarrow> durable path w2 = content path w2)
    else prefix (concat old) (content path w2)"
proof -
  obtain fh where sink: "opened_writer fh (content path) (durable path) OpenFile path w0 w1 writer"
    and w1: "content path w1 = concat old"
    using NewJSONLFile_opened [OF assms(2,3)] assms(4) by metis
  show ?thesis
  proof (cases r)
    case None
    obtain ls where ls: "map (encodeEntry mt) es = map Inr ls" "content path w2 = concat (old @ ls)"
      using opened_writer.writer_appends(1) [OF sink] assms(6) None w1 by fastforce
    have "lines_of [] (concat (old @ ls)) = old @ ls"
      using encoded_lines [OF assms(1) ls(1)] assms(5) by (intro lines_of_concat) (auto simp: list_all_iff)
    with ls None opened_writer.writer_appends(2) [OF sink] assms(6) show ?thesis by auto
  next
    case (Some err)
    with opened_writer.writer_keeps [OF sink assms(6)] w1 show ?thesis by simp
  qed
qed

definition exampleEntry :: AuditEntry where
  "exampleEntry = \<lparr>aeIncidentID = ''i-1'', aeAttemptNumber = 1, aeTimestamp = 5, aePod = ''shop/checkout'',
     aeState = StateDetected, aeAction = ''restart_pod'', aeResult = ''received'', aeWorkload = ''W1'', aeArmLabel = ''enabled''\<rparr>"

definition exampleMarshalTime :: "time \<Rightarrow> error + string" where
  "exampleMarshalTime t = Inr (json_string (Itoa t))"

lemma exampleMarshalTime_plain: "marshals_plain exampleMarshalTime"
  by (auto simp: marshals_plain_def exampleMarshalTime_def)

lemma openAppend_append_only: "opens_append_only openAppend (\<lambda>_. fileContent) (\<lambda>_. fileSynced)"
  by (auto simp: opens_append_only_def openAppend_def intro: os_file.append_only_file_axioms)

lemma example_append:
  "(case appendAll (JSONL_Append exampleMarshalTime (Some (openedAudit w))) [exampleEntry, exampleEntry]
      \<lparr>fileContent = [], fileSynced = [], diskRoom = 1000\<rparr> of (r, w) \<Rightarrow> r = None)"
  unfolding NewJSONLFileAuditWriter_def openAppend_def by code_simp

theorem audit_file_roundtrip_witness:
  "\<exists>writer w2 ls. NewJSONLFileAuditWriter openAppend ''/audit/audit.jsonl''
        \<lparr>fileContent = [], fileSynced = [], diskRoom = 1000\<rparr>
        = (Inr writer, \<lparr>fileContent = [], fileSynced = [], diskRoom = 1000\<rparr>) \<and>
      appendAll (JSONL_Append exampleMarshalTime (Some writer)) [exampleEntry, exampleEntry]
        \<lparr>fileContent = [], fileSynced = [], diskRoom = 1000\<rparr> = (None, w2) \<and>
      lines_of [] (fileContent w2) = ls \<and> map Inr ls = map (encodeEntry exampleMarshalTime) [exampleEntry, exampleEntry] \<and>
      fileSynced w2 = fileContent w2"
proof -
  let ?w0 = "\<lparr>fileContent = [], fileSynced = [], diskRoom = 1000\<rparr>" and ?es = "[exampleEntry, exampleEntry]"
  obtain w2 where run: "appendAll (JSONL_Append exampleMarshalTime (Some (openedAudit ?w0))) ?es ?w0 = (None, w2)"
    using example_append [of ?w0] by (auto split: prod.splits)
  have fh: "NewJSONLFileAuditWriter openAppend ''/audit/audit.jsonl'' ?w0 = (Inr (openedAudit ?w0), ?w0)"
    by (simp add: NewJSONLFileAuditWriter_def openAppend_def)
  from audit_file_roundtrip [OF exampleMarshalTime_plain openAppend_append_only fh _ _ run, of "[]"] fh run
  show ?thesis by auto
qed

end
