(* ===== verification/Effects.thy ===== *)
theory Effects
  imports Kube
begin

text \<open>
  What the program does to the cluster, as a list: \<open>traceClient c\<close> behaves as the client \<open>c\<close> and
  records every call, so a property of which calls are made, with what arguments and in what order
  is a property of the recorded list, whatever the API server answers. The recording changes no
  result: running an operation on the traced client and forgetting the list is running it on \<open>c\<close>.
\<close>

datatype effect =
    EGetPod NamespacedName
  | EGetDeployment NamespacedName
  | EGetReplicaSet NamespacedName
  | EListReplicaSets string
  | EListPods string
  | EUpdateDeployment Deployment
  | EDeletePod Pod

fun is_write :: "effect \<Rightarrow> bool" where
  "is_write (EUpdateDeployment d) = True"
| "is_write (EDeletePod p) = True"
| "is_write _ = False"

definition writes :: "effect list \<Rightarrow> effect list" where
  "writes tr = filter is_write tr"

lemma writes_simps [simp]:
  "writes [] = []"
  "writes (e # tr) = (if is_write e then e # writes tr else writes tr)"
  "writes (tr @ tr') = writes tr @ writes tr'"
  by (simp_all add: writes_def)

type_synonym 'w traced = "'w \<times> effect list"

definition logged :: "effect \<Rightarrow> ('w \<Rightarrow> 'r \<times> 'w) \<Rightarrow> 'w traced \<Rightarrow> 'r \<times> 'w traced" where
  "logged e f s = (case f (fst s) of (r, w') \<Rightarrow> (r, (w', snd s @ [e])))"

definition traceReader :: "'w Reader \<Rightarrow> 'w traced Reader" where
  "traceReader r =
     \<lparr>GetPod = (\<lambda>nn. logged (EGetPod nn) (GetPod r nn)),
      GetDeployment = (\<lambda>nn. logged (EGetDeployment nn) (GetDeployment r nn)),
      GetReplicaSet = (\<lambda>nn. logged (EGetReplicaSet nn) (GetReplicaSet r nn)),
      ListReplicaSets = (\<lambda>ns sel. logged (EListReplicaSets ns) (ListReplicaSets r ns sel)),
      ListPods = (\<lambda>ns sel. logged (EListPods ns) (ListPods r ns sel))\<rparr>"

definition traceClient :: "'w Client \<Rightarrow> 'w traced Client" where
  "traceClient c =
     \<lparr>clientReader = traceReader (clientReader c),
      UpdateDeployment = (\<lambda>d. logged (EUpdateDeployment d) (UpdateDeployment c d)),
      DeletePod = (\<lambda>p. logged (EDeletePod p) (DeletePod c p))\<rparr>"

lemma logged_eq: "logged e f (w, tr) = (r, (w', tr')) \<longleftrightarrow> f w = (r, w') \<and> tr' = tr @ [e]"
  by (auto simp: logged_def split: prod.splits)

lemma traceReader_sel [simp]:
  "GetPod (traceReader r) nn = logged (EGetPod nn) (GetPod r nn)"
  "GetDeployment (traceReader r) nn = logged (EGetDeployment nn) (GetDeployment r nn)"
  "GetReplicaSet (traceReader r) nn = logged (EGetReplicaSet nn) (GetReplicaSet r nn)"
  "ListReplicaSets (traceReader r) ns sel = logged (EListReplicaSets ns) (ListReplicaSets r ns sel)"
  "ListPods (traceReader r) ns sel = logged (EListPods ns) (ListPods r ns sel)"
  by (simp_all add: traceReader_def)

lemma traceClient_sel [simp]:
  "clientReader (traceClient c) = traceReader (clientReader c)"
  "UpdateDeployment (traceClient c) d = logged (EUpdateDeployment d) (UpdateDeployment c d)"
  "DeletePod (traceClient c) p = logged (EDeletePod p) (DeletePod c p)"
  by (simp_all add: traceClient_def)

section \<open>What the API server is relied on for\<close>

text \<open>
  \<open>live w nn\<close> is the Deployment the API server stores in a world. A client is relied on for two
  things: a successful get returns an object of the name asked for, and an update that was accepted
  stored the given spec under the given name. Nothing is said of how current a read is, since the
  manager's client answers reads from a cache, nor of other writers, who may change anything
  between two calls.
\<close>

definition api_faithful :: "'w Client \<Rightarrow> ('w \<Rightarrow> NamespacedName \<Rightarrow> Deployment option) \<Rightarrow> bool" where
  "api_faithful c live \<longleftrightarrow>
     (\<forall>nn w d w'. GetDeployment (clientReader c) nn w = (Inr d, w') \<longrightarrow> metaRef (depMeta d) = nn) \<and>
     (\<forall>d w w'. UpdateDeployment c d w = (None, w') \<longrightarrow>
        (\<exists>d'. live w' (metaRef (depMeta d)) = Some d' \<and> depSpec d' = depSpec d))"

lemma api_faithful_get:
  "api_faithful c live \<Longrightarrow> GetDeployment (clientReader c) nn w = (Inr d, w') \<Longrightarrow> metaRef (depMeta d) = nn"
  unfolding api_faithful_def by blast

lemma api_faithful_update:
  "api_faithful c live \<Longrightarrow> UpdateDeployment c d w = (None, w') \<Longrightarrow>
     \<exists>d'. live w' (metaRef (depMeta d)) = Some d' \<and> depSpec d' = depSpec d"
  unfolding api_faithful_def by blast

text \<open>The concrete cluster is faithful to the Deployments it stores.\<close>

definition storedDeployment :: "cluster \<Rightarrow> NamespacedName \<Rightarrow> Deployment option" where
  "storedDeployment c nn = (case find_obj depMeta nn (clDeployments c) of Inl _ \<Rightarrow> None | Inr d \<Rightarrow> Some d)"

lemma find_obj_Inr: "find_obj meta nn os = Inr x \<Longrightarrow> metaRef (meta x) = nn \<and> x \<in> set os"
  by (auto simp: find_obj_def split: list.splits dest: filter_eq_Cons_mem)

lemma find_obj_update:
  assumes "find_obj meta (metaRef (meta d)) os = Inr x"
  shows "find_obj meta (metaRef (meta d)) (map (\<lambda>x. if metaRef (meta x) = metaRef (meta d) then d else x) os) = Inr d"
  using assms by (induction os) (auto simp: find_obj_def split: if_splits)

lemma cluster_faithful: "api_faithful clusterClient storedDeployment"
  unfolding api_faithful_def
  by (auto simp: clusterClient_def clusterReader_def storedDeployment_def find_obj_update [simplified] dest: find_obj_Inr split: sum.splits)

end
