(* ===== verification/Snapshot.thy ===== *)
theory Snapshot
  imports Effects
begin

text \<open>
  Capturing and restoring a Deployment, \<^verbatim>\<open>internal/safety/snapshot.go\<close>: the snapshot, the
  \<^verbatim>\<open>SnapshotStore\<close> interface and its Kubernetes implementation. Shown: what a capture records; a
  successful restore left the captured spec with the API server, or read a Deployment whose spec
  already matched and wrote nothing; restore writes at most one Deployment. The reads go through the
  manager's cached client, so a matching read says nothing about the live spec by itself.
\<close>

definition deploymentRevisionAnnotation :: string where
  "deploymentRevisionAnnotation = ''deployment.kubernetes.io/revision''"

record DeploymentSnapshot =
  snName :: string
  snNamespace :: string
  snRevision :: string
  snSpec :: DeploymentSpec

record 'w SnapshotStore =
  Capture :: "NamespacedName \<Rightarrow> 'w \<Rightarrow> (error + DeploymentSnapshot) \<times> 'w"
  Restore :: "DeploymentSnapshot \<Rightarrow> 'w \<Rightarrow> error option \<times> 'w"

record 'w KubernetesSnapshotStore =
  ssClient :: "'w Client option"

text \<open>Indexing a Go map with a missing key gives the empty string.\<close>

definition annotation :: "ObjectMeta \<Rightarrow> string \<Rightarrow> string" where
  "annotation m k = (case Annotations m k of None \<Rightarrow> [] | Some v \<Rightarrow> v)"

definition showRef :: "NamespacedName \<Rightarrow> string" where
  "showRef ref = nnNamespace ref @ ''/'' @ nnName ref"

definition Kube_Capture :: "'w KubernetesSnapshotStore \<Rightarrow> NamespacedName \<Rightarrow> 'w
    \<Rightarrow> (error + DeploymentSnapshot) \<times> 'w" where
  "Kube_Capture s ref w =
     (case ssClient s of
        None \<Rightarrow> (Inl (Errorf ''capture deployment snapshot: client is required''), w)
      | Some c \<Rightarrow>
        (case GetDeployment (clientReader c) ref w of
           (Inl err, w1) \<Rightarrow> (Inl (Wrapf (''read deployment '' @ showRef ref @ '': '') err []), w1)
         | (Inr deployment, w1) \<Rightarrow>
             (Inr \<lparr>snName = Name (depMeta deployment), snNamespace = Namespace (depMeta deployment),
                   snRevision = annotation (depMeta deployment) deploymentRevisionAnnotation,
                   snSpec = depSpec deployment\<rparr>, w1)))"

definition Kube_Restore :: "Apimachinery \<Rightarrow> 'w KubernetesSnapshotStore \<Rightarrow> DeploymentSnapshot \<Rightarrow> 'w
    \<Rightarrow> error option \<times> 'w" where
  "Kube_Restore am s snapshot w =
     (case ssClient s of
        None \<Rightarrow> (Some (Errorf ''restore deployment snapshot: client is required''), w)
      | Some c \<Rightarrow>
        if snName snapshot = [] \<or> snNamespace snapshot = []
        then (Some (Errorf ''restore deployment snapshot: name and namespace are required''), w)
        else let ref = nsName (snNamespace snapshot) (snName snapshot) in
          (case GetDeployment (clientReader c) ref w of
             (Inl err, w1) \<Rightarrow> (Some (Wrapf (''read deployment for restore '' @ showRef ref @ '': '') err []), w1)
           | (Inr deployment, w1) \<Rightarrow>
               if SemanticDeepEqual am (depSpec deployment) (snSpec snapshot) then (None, w1)
               else (case UpdateDeployment c (deployment\<lparr>depSpec := snSpec snapshot\<rparr>) w1 of
                   (Some err, w2) \<Rightarrow> (Some (Wrapf (''restore deployment '' @ showRef ref @ '': '') err []), w2)
                 | (None, w2) \<Rightarrow> (None, w2))))"

definition KubeSnapshots :: "Apimachinery \<Rightarrow> 'w KubernetesSnapshotStore \<Rightarrow> 'w SnapshotStore" where
  "KubeSnapshots am s = \<lparr>Capture = Kube_Capture s, Restore = Kube_Restore am s\<rparr>"

section \<open>Captures and restores\<close>

lemma Kube_Capture_ok:
  "Kube_Capture s ref w = (Inr snap, w') \<longleftrightarrow>
     (\<exists>c d. ssClient s = Some c \<and> GetDeployment (clientReader c) ref w = (Inr d, w') \<and>
        snap = \<lparr>snName = Name (depMeta d), snNamespace = Namespace (depMeta d),
          snRevision = annotation (depMeta d) deploymentRevisionAnnotation, snSpec = depSpec d\<rparr>)"
  by (auto simp: Kube_Capture_def split: option.splits prod.splits sum.splits)

lemma Kube_Restore_ok:
  assumes "Kube_Restore am s snap w = (None, w')"
  obtains c d w1 where "ssClient s = Some c"
    "GetDeployment (clientReader c) (nsName (snNamespace snap) (snName snap)) w = (Inr d, w1)"
    "SemanticDeepEqual am (depSpec d) (snSpec snap) \<and> w' = w1 \<or>
     \<not> SemanticDeepEqual am (depSpec d) (snSpec snap) \<and>
       UpdateDeployment c (d\<lparr>depSpec := snSpec snap\<rparr>) w1 = (None, w')"
  using assms
  by (auto simp: Kube_Restore_def Let_def split: option.splits prod.splits sum.splits if_splits)

text \<open>The skip is decided on the read alone, however old it is.\<close>

lemma restore_trusts_read:
  assumes "snName snap \<noteq> []" and "snNamespace snap \<noteq> []"
    and "GetDeployment (clientReader c) (nsName (snNamespace snap) (snName snap)) w = (Inr d, w1)"
    and "SemanticDeepEqual am (depSpec d) (snSpec snap)"
  shows "Kube_Restore am \<lparr>ssClient = Some (traceClient c)\<rparr> snap (w, tr)
    = (None, (w1, tr @ [EGetDeployment (nsName (snNamespace snap) (snName snap))]))"
  using assms by (simp add: Kube_Restore_def logged_def)

lemma Kube_Restore_writes:
  assumes "Kube_Restore am \<lparr>ssClient = Some (traceClient c)\<rparr> snap (w, tr) = (r, (w', tr'))"
  shows "\<exists>new. tr' = tr @ new \<and>
    (writes new = [] \<or>
     (\<exists>d w1. GetDeployment (clientReader c) (nsName (snNamespace snap) (snName snap)) w = (Inr d, w1) \<and>
        \<not> SemanticDeepEqual am (depSpec d) (snSpec snap) \<and>
        writes new = [EUpdateDeployment (d\<lparr>depSpec := snSpec snap\<rparr>)]))"
  using assms
  by (auto simp: Kube_Restore_def Let_def logged_eq split: option.splits prod.splits sum.splits if_splits)

text \<open>
  C16: restoring brings the captured Deployment back. Let a client return objects of the name asked
  for and let an accepted update store its spec. If a capture of \<open>ref\<close> succeeded at some point
  and a restore of that snapshot succeeded later, whatever happened in between, then the capture read a Deployment
  \<open>d0\<close> and the restore read a Deployment \<open>d\<close>, both under \<open>ref\<close>; if the specs of the two are
  not semantically equal, the live Deployment \<open>ref\<close> has exactly the spec of \<open>d0\<close> after the
  restore; if they are, the restore did nothing but that read, and if the read was current then the
  live spec is \<open>d\<close>'s. The reads are not assumed to be current.
\<close>

theorem restore_brings_back:
  assumes "api_faithful c live"
    and "Kube_Capture \<lparr>ssClient = Some c\<rparr> ref w = (Inr snap, w1)"
    and "Kube_Restore am \<lparr>ssClient = Some c\<rparr> snap w2 = (None, w3)"
  shows "\<exists>d0 d wr. GetDeployment (clientReader c) ref w = (Inr d0, w1) \<and>
    GetDeployment (clientReader c) ref w2 = (Inr d, wr) \<and>
    (if SemanticDeepEqual am (depSpec d) (depSpec d0)
     then w3 = wr \<and> (live wr ref = Some d \<longrightarrow> live w3 ref = Some d)
     else \<exists>d'. live w3 ref = Some d' \<and> depSpec d' = depSpec d0)"
proof -
  obtain d0 where d0: "GetDeployment (clientReader c) ref w = (Inr d0, w1)"
    and snap: "snName snap = Name (depMeta d0)" "snNamespace snap = Namespace (depMeta d0)" "snSpec snap = depSpec d0"
    using assms(2) by (auto simp: Kube_Capture_ok)
  from api_faithful_get [OF assms(1) d0] snap have ref: "nsName (snNamespace snap) (snName snap) = ref" by auto
  obtain d wr where d: "GetDeployment (clientReader c) ref w2 = (Inr d, wr)"
    and upd: "SemanticDeepEqual am (depSpec d) (depSpec d0) \<and> w3 = wr \<or>
      \<not> SemanticDeepEqual am (depSpec d) (depSpec d0) \<and> UpdateDeployment c (d\<lparr>depSpec := depSpec d0\<rparr>) wr = (None, w3)"
    using assms(3) snap(3) ref by (auto elim!: Kube_Restore_ok)
  from api_faithful_get [OF assms(1) d] have "metaRef (depMeta (d\<lparr>depSpec := depSpec d0\<rparr>)) = ref" by simp
  with upd api_faithful_update [OF assms(1), of "d\<lparr>depSpec := depSpec d0\<rparr>" wr w3] d0 d show ?thesis by auto
qed

definition exampleSpec :: "string \<Rightarrow> DeploymentSpec" where
  "exampleSpec template = \<lparr>Selector = Some \<lparr>MatchLabels = Map.empty, MatchExpressions = []\<rparr>, Template = template, specRest = []\<rparr>"

definition exampleDeployment :: "string \<Rightarrow> Deployment" where
  "exampleDeployment template = \<lparr>depMeta = \<lparr>Name = ''checkout'', Namespace = ''shop'', UID = ''dep-1'', Annotations = Map.empty,
     OwnerReferences = [], CreationTimestamp = 50, DeletionTimestamp = None, Generation = 1\<rparr>, depSpec = exampleSpec template\<rparr>"

definition exampleCluster :: "string \<Rightarrow> cluster" where
  "exampleCluster template = \<lparr>clNow = 100, clPods = [], clDeployments = [exampleDeployment template], clReplicaSets = []\<rparr>"

text \<open>A template changed from v1 to v2 between the capture and the restore.\<close>

theorem restore_brings_back_witness:
  "\<exists>snap w1 w3 d. Kube_Capture \<lparr>ssClient = Some clusterClient\<rparr> (nsName ''shop'' ''checkout'') (exampleCluster ''v1'') = (Inr snap, w1) \<and>
     Kube_Restore stdMachinery \<lparr>ssClient = Some clusterClient\<rparr> snap (exampleCluster ''v2'') = (None, w3) \<and>
     storedDeployment w3 (nsName ''shop'' ''checkout'') = Some d \<and> Template (depSpec d) = ''v1''"
proof -
  let ?ref = "nsName ''shop'' ''checkout''" and ?s = "\<lparr>ssClient = Some clusterClient\<rparr>"
  obtain snap w1 where cap: "Kube_Capture ?s ?ref (exampleCluster ''v1'') = (Inr snap, w1)" and w1: "w1 = exampleCluster ''v1''"
    and snap: "snName snap = ''checkout''" "snNamespace snap = ''shop''" "snSpec snap = exampleSpec ''v1''"
    by (simp add: Kube_Capture_def clusterClient_def clusterReader_def find_obj_def exampleCluster_def exampleDeployment_def)
  then obtain w3 where res: "Kube_Restore stdMachinery ?s snap (exampleCluster ''v2'') = (None, w3)"
    by (simp add: Kube_Restore_def clusterClient_def clusterReader_def find_obj_def exampleCluster_def exampleDeployment_def
        exampleSpec_def stdMachinery_def)
  from restore_brings_back [OF cluster_faithful cap res] obtain d where
    d: "storedDeployment w3 ?ref = Some d" "depSpec d = exampleSpec ''v1''"
    by (auto simp: clusterClient_def clusterReader_def find_obj_def exampleCluster_def exampleDeployment_def
        exampleSpec_def stdMachinery_def)
  then have "Template (depSpec d) = ''v1''" by (auto simp: stdMachinery_def exampleSpec_def)
  with cap res d show ?thesis by blast
qed

text \<open>
  C34: a restore writes at most the one Deployment it names. Whatever the API server answers, the writes of a
  restore are none, or a single update of the Deployment just read under the snapshot's name with its spec replaced by the captured one,
  and that only when the two specs differ.
\<close>

theorem restore_write:
  assumes "Kube_Restore am \<lparr>ssClient = Some (traceClient c)\<rparr> snap (w, []) = (r, (w', tr))" and "writes tr \<noteq> []"
  shows "\<exists>d w1. GetDeployment (clientReader c) (nsName (snNamespace snap) (snName snap)) w = (Inr d, w1) \<and>
    \<not> SemanticDeepEqual am (depSpec d) (snSpec snap) \<and> writes tr = [EUpdateDeployment (d\<lparr>depSpec := snSpec snap\<rparr>)]"
  using Kube_Restore_writes [OF assms(1)] assms(2) by auto

theorem restore_write_witness:
  "\<exists>r w' tr d. Kube_Restore stdMachinery \<lparr>ssClient = Some (traceClient clusterClient)\<rparr>
      \<lparr>snName = ''checkout'', snNamespace = ''shop'', snRevision = [], snSpec = exampleSpec ''v1''\<rparr> (exampleCluster ''v2'', []) = (r, (w', tr)) \<and>
    writes tr = [EUpdateDeployment (d\<lparr>depSpec := exampleSpec ''v1''\<rparr>)]"
proof -
  let ?snap = "\<lparr>snName = ''checkout'', snNamespace = ''shop'', snRevision = [], snSpec = exampleSpec ''v1''\<rparr>"
  obtain r w' tr where r: "Kube_Restore stdMachinery \<lparr>ssClient = Some (traceClient clusterClient)\<rparr> ?snap (exampleCluster ''v2'', []) = (r, (w', tr))"
    and "writes tr \<noteq> []"
    by (simp add: Kube_Restore_def logged_def clusterClient_def clusterReader_def find_obj_def exampleCluster_def exampleDeployment_def
        exampleSpec_def stdMachinery_def)
  from restore_write [OF this] r show ?thesis by auto
qed

end
