(* ===== verification/PodResolver.thy ===== *)
theory PodResolver
  imports Effects
begin

text \<open>
  Finding the Pod a Deployment produced, \<^verbatim>\<open>internal/safety/pod_resolver.go\<close>, with the
  verification target and the \<^verbatim>\<open>PodResolver\<close> interface of \<^verbatim>\<open>internal/safety/verifier.go\<close>.
  Shown: a resolved Pod belongs to the Deployment through one of its own ReplicaSets, existed
  neither before the action nor under the original Pod's name, is not being deleted, and is the
  newest such Pod; resolving never writes.
\<close>

text \<open>\<open>None\<close> is the nil set, which the verifier refuses; a lookup in it finds nothing.\<close>

type_synonym PodUIDSet = "string set"

record VerificationTarget =
  vtOriginalPod :: NamespacedName
  vtDeployment :: NamespacedName
  vtContainerName :: string
  vtRestartCount :: int
  vtPreActionPodUIDs :: "PodUIDSet option"

record 'w PodResolver =
  resCapture :: "VerificationTarget \<Rightarrow> 'w \<Rightarrow> (error + PodUIDSet) \<times> 'w"
  resResolve :: "VerificationTarget \<Rightarrow> 'w \<Rightarrow> (error + Pod) \<times> 'w"

record 'w DeploymentPodResolver =
  drReader :: "'w Reader option"

definition preActionUIDs :: "VerificationTarget \<Rightarrow> PodUIDSet" where
  "preActionUIDs target = (case vtPreActionPodUIDs target of None \<Rightarrow> {} | Some uids \<Rightarrow> uids)"

fun podSpecHasContainer_in :: "string list \<Rightarrow> string \<Rightarrow> bool" where
  "podSpecHasContainer_in [] containerName = False"
| "podSpecHasContainer_in (c # cs) containerName = (if c = containerName then True else podSpecHasContainer_in cs containerName)"

definition podSpecHasContainer :: "Pod \<Rightarrow> string \<Rightarrow> bool" where
  "podSpecHasContainer pod containerName = podSpecHasContainer_in (podContainers pod) containerName"

definition eligibleDeploymentPod :: "Apimachinery \<Rightarrow> Pod \<Rightarrow> string set \<Rightarrow> VerificationTarget \<Rightarrow> bool" where
  "eligibleDeploymentPod am pod ownedReplicaSets target =
     (if DeletionTimestamp (podMeta pod) \<noteq> None \<or> Namespace (podMeta pod) \<noteq> nnNamespace (vtDeployment target) then False
      else case GetControllerOfNoCopy am (podMeta pod) of
          None \<Rightarrow> False
        | Some controller \<Rightarrow>
            if orUID controller \<notin> ownedReplicaSets then False
            else if \<not> podSpecHasContainer pod (vtContainerName target) then False
            else if Name (podMeta pod) = nnName (vtOriginalPod target) then False
            else UID (podMeta pod) \<notin> preActionUIDs target)"

definition ownedUIDs :: "Apimachinery \<Rightarrow> Deployment \<Rightarrow> ReplicaSet list \<Rightarrow> string set" where
  "ownedUIDs am deployment rss = set (map (\<lambda>rs. UID (rsMeta rs)) (filter (\<lambda>rs. IsControlledBy am (rsMeta rs) (depMeta deployment)) rss))"

definition deploymentPods :: "Apimachinery \<Rightarrow> 'w DeploymentPodResolver \<Rightarrow> VerificationTarget \<Rightarrow> 'w
    \<Rightarrow> (error + Pod list \<times> string set) \<times> 'w" where
  "deploymentPods am r target w =
     (case drReader r of
        None \<Rightarrow> (Inl (Errorf ''resolve deployment pod: Kubernetes reader is required''), w)
      | Some reader \<Rightarrow>
        (case GetDeployment reader (vtDeployment target) w of
           (Inl err, w1) \<Rightarrow> (Inl (Wrapf (''read deployment '' @ nnNamespace (vtDeployment target) @ ''/'' @ nnName (vtDeployment target) @ '': '') err []), w1)
         | (Inr deployment, w1) \<Rightarrow>
           (case Selector (depSpec deployment) of
              None \<Rightarrow> (Inl (Errorf ''resolve deployment pod: deployment selector is required''), w1)
            | Some labelSelector \<Rightarrow>
              (case LabelSelectorAsSelector am labelSelector of
                 Inl err \<Rightarrow> (Inl (Wrapf ''resolve deployment pod: invalid deployment selector: '' err []), w1)
               | Inr selector \<Rightarrow>
                 (case ListReplicaSets reader (nnNamespace (vtDeployment target)) (MatchingLabelsSelector selector) w1 of
                    (Inl err, w2) \<Rightarrow> (Inl (Wrapf ''list deployment ReplicaSets: '' err []), w2)
                  | (Inr replicaSets, w2) \<Rightarrow>
                    (case ListPods reader (nnNamespace (vtDeployment target)) (MatchingLabelsSelector selector) w2 of
                       (Inl err, w3) \<Rightarrow> (Inl (Wrapf ''list deployment Pods: '' err []), w3)
                     | (Inr pods, w3) \<Rightarrow> (Inr (pods, ownedUIDs am deployment replicaSets), w3)))))))"

definition cmp_Compare :: "'a::linorder \<Rightarrow> 'a \<Rightarrow> int" where
  "cmp_Compare a b = (if a < b then -1 else if b < a then 1 else 0)"

definition newestFirst :: "Pod \<Rightarrow> Pod \<Rightarrow> int" where
  "newestFirst left right =
     (if CreationTimestamp (podMeta left) \<noteq> CreationTimestamp (podMeta right)
      then if CreationTimestamp (podMeta right) < CreationTimestamp (podMeta left) then -1 else 1
      else cmp_Compare (Name (podMeta right)) (Name (podMeta left)))"

definition DPR_Resolve :: "Apimachinery \<Rightarrow> 'w DeploymentPodResolver \<Rightarrow> VerificationTarget \<Rightarrow> 'w
    \<Rightarrow> (error + Pod) \<times> 'w" where
  "DPR_Resolve am r target w =
     (case deploymentPods am r target w of
        (Inl err, w1) \<Rightarrow> (Inl err, w1)
      | (Inr (pods, ownedReplicaSets), w1) \<Rightarrow>
        let candidates = filter (\<lambda>pod. eligibleDeploymentPod am pod ownedReplicaSets target) pods in
        if candidates = []
        then (Inl (Wrapf [] ErrDeploymentPodNotFound
               ('' for deployment '' @ nnNamespace (vtDeployment target) @ ''/'' @ nnName (vtDeployment target))), w1)
        else (Inr (hd (SortFunc newestFirst candidates)), w1))"

definition ownedPod :: "Apimachinery \<Rightarrow> string set \<Rightarrow> Pod \<Rightarrow> bool" where
  "ownedPod am ownedReplicaSets pod =
     (case GetControllerOfNoCopy am (podMeta pod) of
        None \<Rightarrow> False
      | Some controller \<Rightarrow> orUID controller \<in> ownedReplicaSets)"

definition DPR_CapturePreActionPodUIDs :: "Apimachinery \<Rightarrow> 'w DeploymentPodResolver \<Rightarrow> VerificationTarget \<Rightarrow> 'w
    \<Rightarrow> (error + PodUIDSet) \<times> 'w" where
  "DPR_CapturePreActionPodUIDs am r target w =
     (case deploymentPods am r target w of
        (Inl err, w1) \<Rightarrow> (Inl err, w1)
      | (Inr (pods, ownedReplicaSets), w1) \<Rightarrow>
        (Inr (set (filter (\<lambda>uid. uid \<noteq> []) (map (\<lambda>pod. UID (podMeta pod)) (filter (ownedPod am ownedReplicaSets) pods)))), w1))"

definition deploymentResolver :: "Apimachinery \<Rightarrow> 'w DeploymentPodResolver \<Rightarrow> 'w PodResolver" where
  "deploymentResolver am r = \<lparr>resCapture = DPR_CapturePreActionPodUIDs am r, resResolve = DPR_Resolve am r\<rparr>"

section \<open>The order of candidates\<close>

lemma newestFirst_le:
  "newestFirst a b \<le> 0 \<longleftrightarrow>
     CreationTimestamp (podMeta b) < CreationTimestamp (podMeta a) \<or>
     CreationTimestamp (podMeta b) = CreationTimestamp (podMeta a) \<and> Name (podMeta b) \<le> Name (podMeta a)"
  by (auto simp: newestFirst_def cmp_Compare_def)

lemma newestFirst_sign:
  "newestFirst a b < 0 \<longleftrightarrow>
     CreationTimestamp (podMeta b) < CreationTimestamp (podMeta a) \<or>
     CreationTimestamp (podMeta b) = CreationTimestamp (podMeta a) \<and> Name (podMeta b) < Name (podMeta a)"
  "0 < newestFirst a b \<longleftrightarrow>
     CreationTimestamp (podMeta a) < CreationTimestamp (podMeta b) \<or>
     CreationTimestamp (podMeta a) = CreationTimestamp (podMeta b) \<and> Name (podMeta a) < Name (podMeta b)"
  by (auto simp: newestFirst_def cmp_Compare_def)

lemma newestFirst_order: "cmp_order newestFirst A"
  unfolding cmp_order_def newestFirst_le newestFirst_sign by (auto intro: order_trans)

section \<open>What a resolved Pod is\<close>

text \<open>
  What the verifier relies on: a resolved Pod is a replacement, never a Pod from before the action.
\<close>

definition replacementFor :: "VerificationTarget \<Rightarrow> Pod \<Rightarrow> bool" where
  "replacementFor target pod \<longleftrightarrow>
     UID (podMeta pod) \<notin> preActionUIDs target \<and>
     Name (podMeta pod) \<noteq> nnName (vtOriginalPod target) \<and>
     Namespace (podMeta pod) = nnNamespace (vtDeployment target) \<and>
     DeletionTimestamp (podMeta pod) = None \<and>
     vtContainerName target \<in> set (podContainers pod)"

locale pod_resolver =
  fixes resolve :: "VerificationTarget \<Rightarrow> 'w \<Rightarrow> (error + Pod) \<times> 'w"
  assumes resolve_replacement: "resolve target w = (Inr pod, w') \<Longrightarrow> replacementFor target pod"

lemma podSpecHasContainer_iff: "podSpecHasContainer pod c \<longleftrightarrow> c \<in> set (podContainers pod)"
proof -
  have "podSpecHasContainer_in cs c \<longleftrightarrow> c \<in> set cs" for cs by (induction cs) auto
  then show ?thesis by (simp add: podSpecHasContainer_def)
qed

lemma eligible_iff:
  "eligibleDeploymentPod am pod owned target \<longleftrightarrow> replacementFor target pod \<and> ownedPod am owned pod"
  by (auto simp: eligibleDeploymentPod_def replacementFor_def ownedPod_def podSpecHasContainer_iff split: option.splits)

lemma DPR_Resolve_ok:
  assumes "DPR_Resolve am r target w = (Inr pod, w')"
  obtains pods owned where "deploymentPods am r target w = (Inr (pods, owned), w')" "pod \<in> set pods"
    "eligibleDeploymentPod am pod owned target"
    "\<And>p. p \<in> set pods \<Longrightarrow> eligibleDeploymentPod am p owned target \<Longrightarrow> newestFirst pod p \<le> 0"
proof -
  from assms obtain pods owned where
    dp: "deploymentPods am r target w = (Inr (pods, owned), w')"
    and ne: "filter (\<lambda>pod. eligibleDeploymentPod am pod owned target) pods \<noteq> []"
    and pod: "pod = hd (SortFunc newestFirst (filter (\<lambda>pod. eligibleDeploymentPod am pod owned target) pods))"
    by (auto simp: DPR_Resolve_def Let_def split: prod.splits sum.splits if_splits)
  from go_sort.sort_hd_mem [OF ne] have "pod \<in> set pods" "eligibleDeploymentPod am pod owned target"
    by (auto simp: pod)
  moreover have "newestFirst pod p \<le> 0" if "p \<in> set pods" "eligibleDeploymentPod am p owned target" for p
    unfolding pod by (rule go_sort.sort_hd_least) (use that in \<open>auto intro: newestFirst_order\<close>)
  ultimately show thesis using dp that by blast
qed

interpretation deployment_resolver: pod_resolver "DPR_Resolve am r" for am r
proof
  show "replacementFor target pod" if "DPR_Resolve am r target w = (Inr pod, w')" for target w pod w'
    using that by (rule DPR_Resolve_ok) (simp add: eligible_iff)
qed

text \<open>The three answers of \<^verbatim>\<open>deploymentPods\<close> a successful call rests on.\<close>

lemma deploymentPods_ok:
  assumes "deploymentPods am r target w = (Inr (pods, owned), w')"
  obtains reader d ls sel rss w1 w2 where "drReader r = Some reader"
    "GetDeployment reader (vtDeployment target) w = (Inr d, w1)"
    "Selector (depSpec d) = Some ls" "LabelSelectorAsSelector am ls = Inr sel"
    "ListReplicaSets reader (nnNamespace (vtDeployment target)) (MatchingLabelsSelector sel) w1 = (Inr rss, w2)"
    "ListPods reader (nnNamespace (vtDeployment target)) (MatchingLabelsSelector sel) w2 = (Inr pods, w')"
    "owned = ownedUIDs am d rss"
  using assms unfolding deploymentPods_def
  by (auto split: option.splits prod.splits sum.splits)

lemma resolve_reads_only:
  assumes "DPR_Resolve am \<lparr>drReader = Some (traceReader reader)\<rparr> target (w, tr) = (r, (w', tr'))"
  shows "\<exists>new. tr' = tr @ new \<and> writes new = []"
  using assms
  by (auto simp: DPR_Resolve_def deploymentPods_def Let_def logged_eq split: option.splits prod.splits sum.splits if_splits)

text \<open>
  C18: which Pod the resolver returns. With owner references as Kubernetes documents them, a resolved Pod was
  listed in the target's namespace, is a replacement (not the original, not one recorded before the action, not being deleted, with the
  container), and its controller reference carries the UID of a listed ReplicaSet whose own controller reference carries the UID of the
  Deployment just read. Among the listed Pods of that kind none was created later, and of those created at the same instant none has a greater name.
\<close>

theorem resolves_newest_owned_replacement:
  assumes "DPR_Resolve am \<lparr>drReader = Some reader\<rparr> target w = (Inr pod, w')" and "controller_refs_ok am"
  shows "\<exists>d w1 sel rss w2 pods.
    GetDeployment reader (vtDeployment target) w = (Inr d, w1) \<and>
    ListReplicaSets reader (nnNamespace (vtDeployment target)) sel w1 = (Inr rss, w2) \<and>
    ListPods reader (nnNamespace (vtDeployment target)) sel w2 = (Inr pods, w') \<and>
    pod \<in> set pods \<and> replacementFor target pod \<and>
    (\<exists>rs \<in> set rss. (\<exists>ref \<in> set (OwnerReferences (podMeta pod)). orController ref = Some True \<and> orUID ref = UID (rsMeta rs)) \<and>
       (\<exists>ref \<in> set (OwnerReferences (rsMeta rs)). orController ref = Some True \<and> orUID ref = UID (depMeta d))) \<and>
    (\<forall>p \<in> set pods. replacementFor target p \<and> ownedPod am (ownedUIDs am d rss) p \<longrightarrow>
       CreationTimestamp (podMeta p) < CreationTimestamp (podMeta pod) \<or>
       CreationTimestamp (podMeta p) = CreationTimestamp (podMeta pod) \<and> Name (podMeta p) \<le> Name (podMeta pod))"
proof (rule DPR_Resolve_ok [OF assms(1)])
  fix pods owned
  assume dp: "deploymentPods am \<lparr>drReader = Some reader\<rparr> target w = (Inr (pods, owned), w')" and pod: "pod \<in> set pods"
    and el: "eligibleDeploymentPod am pod owned target"
    and newest: "\<And>p. p \<in> set pods \<Longrightarrow> eligibleDeploymentPod am p owned target \<Longrightarrow> newestFirst pod p \<le> 0"
  from dp obtain d ls sel rss w1 w2 where r:
    "GetDeployment reader (vtDeployment target) w = (Inr d, w1)"
    "ListReplicaSets reader (nnNamespace (vtDeployment target)) (MatchingLabelsSelector sel) w1 = (Inr rss, w2)"
    "ListPods reader (nnNamespace (vtDeployment target)) (MatchingLabelsSelector sel) w2 = (Inr pods, w')"
    "owned = ownedUIDs am d rss"
    by (rule deploymentPods_ok) auto
  have refs: "\<exists>ref \<in> set (OwnerReferences m). orController ref = Some True \<and> orUID ref = u"
    if "GetControllerOfNoCopy am m = Some c" "orUID c = u" for m c u
    using assms(2) that unfolding controller_refs_ok_def by blast
  from el have rep: "replacementFor target pod" and own: "ownedPod am owned pod" by (auto simp: eligible_iff)
  from own r(4) obtain c rs where "GetControllerOfNoCopy am (podMeta pod) = Some c" "rs \<in> set rss"
    "orUID c = UID (rsMeta rs)" "IsControlledBy am (rsMeta rs) (depMeta d)"
    by (auto simp: ownedPod_def ownedUIDs_def split: option.splits)
  moreover from this obtain c' where "GetControllerOfNoCopy am (rsMeta rs) = Some c'" "orUID c' = UID (depMeta d)"
    using assms(2) unfolding controller_refs_ok_def by blast
  ultimately have "\<exists>rs \<in> set rss. (\<exists>ref \<in> set (OwnerReferences (podMeta pod)). orController ref = Some True \<and> orUID ref = UID (rsMeta rs)) \<and>
       (\<exists>ref \<in> set (OwnerReferences (rsMeta rs)). orController ref = Some True \<and> orUID ref = UID (depMeta d))"
    using refs by blast
  moreover have "\<forall>p \<in> set pods. replacementFor target p \<and> ownedPod am (ownedUIDs am d rss) p \<longrightarrow>
       CreationTimestamp (podMeta p) < CreationTimestamp (podMeta pod) \<or>
       CreationTimestamp (podMeta p) = CreationTimestamp (podMeta pod) \<and> Name (podMeta p) \<le> Name (podMeta pod)"
    using newest r(4) unfolding eligible_iff newestFirst_le by blast
  ultimately show ?thesis using r pod rep by blast
qed

definition exampleTarget :: VerificationTarget where
  "exampleTarget = \<lparr>vtOriginalPod = nsName ''shop'' ''checkout-1'', vtDeployment = nsName ''shop'' ''checkout'',
     vtContainerName = ''app'', vtRestartCount = 3, vtPreActionPodUIDs = Some {''uid-1''}\<rparr>"

lemma healed_resolves:
  "(case DPR_Resolve stdMachinery \<lparr>drReader = Some clusterReader\<rparr> exampleTarget healedCluster of
      (Inr pod, w') \<Rightarrow> Name (podMeta pod) = ''checkout-2'' | _ \<Rightarrow> False)"
  by code_simp

theorem resolves_newest_owned_replacement_witness:
  "\<exists>pod w'. DPR_Resolve stdMachinery \<lparr>drReader = Some clusterReader\<rparr> exampleTarget healedCluster = (Inr pod, w') \<and>
     Name (podMeta pod) = ''checkout-2'' \<and> replacementFor exampleTarget pod"
proof -
  obtain pod w' where r: "DPR_Resolve stdMachinery \<lparr>drReader = Some clusterReader\<rparr> exampleTarget healedCluster = (Inr pod, w')"
    and "Name (podMeta pod) = ''checkout-2''"
    using healed_resolves by (auto split: prod.splits sum.splits)
  with resolves_newest_owned_replacement [OF r controller_refs_ok_std] show ?thesis by blast
qed

end
