(* ===== verification/Verifier.thy ===== *)
theory Verifier
  imports PodResolver
begin

text \<open>
  Verification of a remediation, \<^verbatim>\<open>internal/safety/verifier.go\<close> and \<^verbatim>\<open>internal/safety/clock.go\<close>:
  a bounded readiness phase, then a stability window in which one exact Pod must stay Ready with
  no further restart. The clock and the \<^verbatim>\<open>select\<close> on the context's end are parameters over the world.

  The two polling loops are \<open>iterate\<close> of one pass each, so \<open>None\<close> is a loop that never
  returns. Shown: with a clock that moves both loops return, within 90 seconds and a bounded
  lateness; a recovered verdict means a replacement Pod was read again after every wait of the window
  and found Ready, under one identity and without a further restart, over at least 60 seconds.
\<close>

section \<open>Clock and configuration\<close>

text \<open>
  \<open>clkAfter d\<close> is the \<^verbatim>\<open>select\<close> on \<^verbatim>\<open>ctx.Done()\<close> and \<^verbatim>\<open>Clock.After(d)\<close>: \<open>Some\<close> of the context's
  error when the context ended first, \<open>None\<close> when the timer fired.
\<close>

record 'w Clock =
  clkNow :: "'w \<Rightarrow> time \<times> 'w"
  clkAfter :: "duration \<Rightarrow> 'w \<Rightarrow> error option \<times> 'w"

definition InitialReadinessTimeout :: duration where "InitialReadinessTimeout = 30 * Second"
definition StabilityWindow :: duration where "StabilityWindow = 60 * Second"
definition DefaultPollInterval :: duration where "DefaultPollInterval = 5 * Second"

record VerificationResult =
  vrRecovered :: bool
  vrReason :: string
  vrRestartCount :: int
  vrPodRef :: NamespacedName

record 'w Verifier =
  vReader :: "'w Reader option"
  vResolver :: "'w PodResolver option"
  vClock :: "'w Clock option"
  vReadinessTimeout :: duration
  vWindow :: duration
  vPollInterval :: duration

definition NewVerifier :: "Apimachinery \<Rightarrow> 'w Clock \<Rightarrow> 'w Reader \<Rightarrow> 'w Verifier" where
  "NewVerifier am realClock reader =
     \<lparr>vReader = Some reader, vResolver = Some (deploymentResolver am \<lparr>drReader = Some reader\<rparr>),
      vClock = Some realClock, vReadinessTimeout = InitialReadinessTimeout, vWindow = StabilityWindow,
      vPollInterval = DefaultPollInterval\<rparr>"

abbreviation noPodRef :: NamespacedName where
  "noPodRef \<equiv> \<lparr>nnNamespace = [], nnName = []\<rparr>"

section \<open>Helpers\<close>

definition minDuration :: "duration \<Rightarrow> duration \<Rightarrow> duration" where
  "minDuration left right = (if left < right then left else right)"

fun podReady_in :: "PodCondition list \<Rightarrow> bool" where
  "podReady_in [] = False"
| "podReady_in (c # cs) = (if pcType c = ''Ready'' then pcStatus c = ''True'' else podReady_in cs)"

definition podReady :: "Pod \<Rightarrow> bool" where
  "podReady pod = podReady_in (podConditions pod)"

fun containerRestartCount_in :: "ContainerStatus list \<Rightarrow> string \<Rightarrow> int \<times> bool" where
  "containerRestartCount_in [] containerName = (0, False)"
| "containerRestartCount_in (s # ss) containerName =
     (if csName s = containerName then (csRestartCount s, True) else containerRestartCount_in ss containerName)"

definition containerRestartCount :: "Pod \<Rightarrow> string \<Rightarrow> int \<times> bool" where
  "containerRestartCount pod containerName = containerRestartCount_in (podContainerStatuses pod) containerName"

definition failedVerification :: "Pod \<Rightarrow> int \<Rightarrow> string \<Rightarrow> VerificationResult" where
  "failedVerification pod restartCount reason =
     \<lparr>vrRecovered = False, vrReason = reason, vrRestartCount = restartCount, vrPodRef = metaRef (podMeta pod)\<rparr>"

definition validateVerificationIdentity :: "VerificationTarget \<Rightarrow> error option" where
  "validateVerificationIdentity target =
     (if nnName (vtOriginalPod target) = [] \<or> nnNamespace (vtOriginalPod target) = []
      then Some (Errorf ''verify pod: original pod name and namespace are required'')
      else if nnName (vtDeployment target) = [] \<or> nnNamespace (vtDeployment target) = []
      then Some (Errorf ''verify pod: deployment name and namespace are required'')
      else if vtContainerName target = [] then Some (Errorf ''verify pod: container name is required'')
      else if vtRestartCount target < 0 then Some (Errorf ''verify pod: restart count cannot be negative'')
      else None)"

definition Verifier_validate :: "'w Verifier \<Rightarrow> VerificationTarget \<Rightarrow> error option" where
  "Verifier_validate v target =
     (if vReader v = None then Some (Errorf ''verify pod: Kubernetes reader is required'')
      else if vResolver v = None then Some (Errorf ''verify pod: resolver is required'')
      else if vClock v = None then Some (Errorf ''verify pod: clock is required'')
      else case validateVerificationIdentity target of
          Some err \<Rightarrow> Some err
        | None \<Rightarrow>
            if vtPreActionPodUIDs target = None then Some (Errorf ''verify pod: pre-action pod UID set is required'')
            else if vReadinessTimeout v \<le> 0 then Some (Errorf ''verify pod: readiness timeout must be positive'')
            else if vWindow v \<le> 0 then Some (Errorf ''verify pod: stability window must be positive'')
            else if vPollInterval v \<le> 0 then Some (Errorf ''verify pod: poll interval must be positive'')
            else None)"

text \<open>The receiver of \<^verbatim>\<open>CapturePreActionPodUIDs\<close> may be nil.\<close>

definition Verifier_CapturePreActionPodUIDs :: "'w Verifier option \<Rightarrow> VerificationTarget \<Rightarrow> 'w
    \<Rightarrow> (error + PodUIDSet) \<times> 'w" where
  "Verifier_CapturePreActionPodUIDs v target w =
     (case Option.bind v vResolver of
        None \<Rightarrow> (Inl (Errorf ''capture pre-action pod UIDs: resolver is required''), w)
      | Some resolver \<Rightarrow>
        (case validateVerificationIdentity target of
           Some err \<Rightarrow> (Inl err, w)
         | None \<Rightarrow>
           (case resCapture resolver target w of
              (Inl err, w1) \<Rightarrow> (Inl (Wrapf ''capture pre-action pod UIDs: '' err []), w1)
            | (Inr uids, w1) \<Rightarrow> (Inr uids, w1))))"

definition Verifier_wait :: "'w Clock \<Rightarrow> duration \<Rightarrow> 'w \<Rightarrow> error option \<times> 'w" where
  "Verifier_wait clock delay w =
     (case clkAfter clock delay w of
        (Some err, w1) \<Rightarrow> (Some (Wrapf ''verify pod: '' err []), w1)
      | (None, w1) \<Rightarrow> (None, w1))"

section \<open>The readiness phase\<close>

text \<open>
  One resolution: an error that ends the phase, a ready Pod with its restart count, or \<open>None\<close> for
  \<open>not ready yet\<close>.
\<close>

definition readinessProbe :: "'w PodResolver \<Rightarrow> VerificationTarget \<Rightarrow> 'w \<Rightarrow> (error + (Pod \<times> int) option) \<times> 'w" where
  "readinessProbe resolver target w =
     (case resResolve resolver target w of
        (Inl err, w1) \<Rightarrow>
          if \<not> errors_Is err ErrDeploymentPodNotFound then (Inl (Wrapf ''resolve deployment pod: '' err []), w1)
          else (Inr None, w1)
      | (Inr pod, w1) \<Rightarrow>
          (case containerRestartCount pod (vtContainerName target) of
             (restartCount, found) \<Rightarrow>
               if podReady pod \<and> found then (Inr (Some (pod, restartCount)), w1) else (Inr None, w1)))"

definition readinessPass :: "'w PodResolver \<Rightarrow> 'w Clock \<Rightarrow> duration \<Rightarrow> VerificationTarget \<Rightarrow> time \<Rightarrow> 'w
    \<Rightarrow> 'w + (error + (Pod \<times> int) option) \<times> 'w" where
  "readinessPass resolver clock poll target readinessDeadline w =
     (case readinessProbe resolver target w of
        (Inl err, w1) \<Rightarrow> Inr (Inl err, w1)
      | (Inr (Some ready), w1) \<Rightarrow> Inr (Inr (Some ready), w1)
      | (Inr None, w1) \<Rightarrow>
        (case clkNow clock w1 of
           (now, w2) \<Rightarrow>
             if \<not> time_Before now readinessDeadline then Inr (Inr None, w2)
             else (case Verifier_wait clock (minDuration poll (time_Sub readinessDeadline now)) w2 of
                 (Some err, w3) \<Rightarrow> Inr (Inl err, w3)
               | (None, w3) \<Rightarrow> Inl w3)))"

definition readinessLoop :: "'w PodResolver \<Rightarrow> 'w Clock \<Rightarrow> duration \<Rightarrow> VerificationTarget \<Rightarrow> time \<Rightarrow> 'w
    \<Rightarrow> ((error + (Pod \<times> int) option) \<times> 'w) option" where
  "readinessLoop resolver clock poll target readinessDeadline w =
     iterate (readinessPass resolver clock poll target readinessDeadline) w"

section \<open>The stability window\<close>

text \<open>The four checks of one observation, in the source's order; \<open>None\<close> when all pass.\<close>

definition stabilityCheck :: "VerificationTarget \<Rightarrow> Pod \<Rightarrow> int \<Rightarrow> Pod \<Rightarrow> VerificationResult option" where
  "stabilityCheck target stablePod baseline cur =
     (case containerRestartCount cur (vtContainerName target) of
        (restartCount, found) \<Rightarrow>
          if \<not> found then Some (failedVerification cur restartCount ''container status disappeared during stability window'')
          else if UID (podMeta cur) \<noteq> UID (podMeta stablePod) \<or> Name (podMeta cur) \<noteq> Name (podMeta stablePod) \<or>
               Namespace (podMeta cur) \<noteq> Namespace (podMeta stablePod)
            then Some (failedVerification cur restartCount ''verified pod identity changed during stability window'')
          else if \<not> podReady cur then Some (failedVerification cur restartCount ''pod lost Ready during stability window'')
          else if baseline < restartCount
            then Some (failedVerification cur restartCount ''restart count increased during stability window'')
          else None)"

definition stabilityPass :: "'w Reader \<Rightarrow> 'w Clock \<Rightarrow> duration \<Rightarrow> VerificationTarget \<Rightarrow> Pod \<Rightarrow> int \<Rightarrow> time
    \<Rightarrow> Pod \<times> 'w \<Rightarrow> (Pod \<times> 'w) + (error + VerificationResult) \<times> 'w" where
  "stabilityPass reader clock poll target stablePod baseline deadline s =
     (case s of (cur, w) \<Rightarrow>
        (case stabilityCheck target stablePod baseline cur of
           Some failed \<Rightarrow> Inr (Inr failed, w)
         | None \<Rightarrow>
           (case clkNow clock w of
              (now, w1) \<Rightarrow>
                if \<not> time_Before now deadline
                then Inr (Inr \<lparr>vrRecovered = True, vrReason = ''pod remained Ready with stable per-container restart count'',
                       vrRestartCount = fst (containerRestartCount cur (vtContainerName target)),
                       vrPodRef = metaRef (podMeta stablePod)\<rparr>, w1)
                else (case Verifier_wait clock (minDuration poll (time_Sub deadline now)) w1 of
                    (Some err, w2) \<Rightarrow> Inr (Inl err, w2)
                  | (None, w2) \<Rightarrow>
                    (case GetPod reader (metaRef (podMeta stablePod)) w2 of
                       (Inl err, w3) \<Rightarrow>
                         Inr (Inr \<lparr>vrRecovered = False, vrReason = ''verified pod disappeared during stability window'',
                           vrRestartCount = 0, vrPodRef = metaRef (podMeta stablePod)\<rparr>, w3)
                     | (Inr cur', w3) \<Rightarrow> Inl (cur', w3))))))"

definition stabilityLoop :: "'w Reader \<Rightarrow> 'w Clock \<Rightarrow> duration \<Rightarrow> VerificationTarget \<Rightarrow> Pod \<Rightarrow> int \<Rightarrow> time \<Rightarrow> Pod \<Rightarrow> 'w
    \<Rightarrow> ((error + VerificationResult) \<times> 'w) option" where
  "stabilityLoop reader clock poll target stablePod baseline deadline cur w =
     iterate (stabilityPass reader clock poll target stablePod baseline deadline) (cur, w)"

definition Verify :: "'w Verifier \<Rightarrow> VerificationTarget \<Rightarrow> 'w \<Rightarrow> ((error + VerificationResult) \<times> 'w) option" where
  "Verify v target w =
     (case Verifier_validate v target of
        Some err \<Rightarrow> Some (Inl err, w)
      | None \<Rightarrow>
        (case (vReader v, vResolver v, vClock v) of
           (Some reader, Some resolver, Some clock) \<Rightarrow>
             (case clkNow clock w of (start, w1) \<Rightarrow>
                (case readinessLoop resolver clock (vPollInterval v) target (time_Add start (vReadinessTimeout v)) w1 of
                   None \<Rightarrow> None
                 | Some (Inl err, w2) \<Rightarrow> Some (Inl err, w2)
                 | Some (Inr None, w2) \<Rightarrow>
                     Some (Inr \<lparr>vrRecovered = False, vrReason = ''pod did not become Ready before initial readiness timeout'',
                       vrRestartCount = 0, vrPodRef = noPodRef\<rparr>, w2)
                 | Some (Inr (Some (stablePod, baseline)), w2) \<Rightarrow>
                     (case clkNow clock w2 of (now, w3) \<Rightarrow>
                        stabilityLoop reader clock (vPollInterval v) target stablePod baseline (time_Add now (vWindow v)) stablePod w3)))
         | _ \<Rightarrow> None))"

text \<open>One observation that keeps the verdict open.\<close>

definition steady :: "VerificationTarget \<Rightarrow> Pod \<Rightarrow> int \<Rightarrow> Pod \<Rightarrow> bool" where
  "steady target stablePod baseline p \<longleftrightarrow>
     podReady p \<and> UID (podMeta p) = UID (podMeta stablePod) \<and> metaRef (podMeta p) = metaRef (podMeta stablePod) \<and>
     (\<exists>n. containerRestartCount p (vtContainerName target) = (n, True) \<and> n \<le> baseline)"

lemma stabilityCheck_None: "stabilityCheck target stablePod baseline p = None \<longleftrightarrow> steady target stablePod baseline p"
  by (auto simp: stabilityCheck_def steady_def split: prod.splits)

section \<open>The loops return\<close>

text \<open>
  What termination rests on: a reading of the clock lies between the world's times before and
  after it, a timer that fired took at least its delay, and no API call turns the time back.
\<close>

definition clock_moves :: "'w Clock \<Rightarrow> ('w \<Rightarrow> time) \<Rightarrow> bool" where
  "clock_moves clock time \<longleftrightarrow>
     (\<forall>w n w'. clkNow clock w = (n, w') \<longrightarrow> time w \<le> n \<and> n \<le> time w') \<and>
     (\<forall>d w w'. 0 \<le> d \<longrightarrow> clkAfter clock d w = (None, w') \<longrightarrow> time w + d \<le> time w')"

definition keeps_time :: "('w \<Rightarrow> time) \<Rightarrow> ('w \<Rightarrow> 'r \<times> 'w) \<Rightarrow> bool" where
  "keeps_time time f \<longleftrightarrow> (\<forall>w r w'. f w = (r, w') \<longrightarrow> time w \<le> time w')"

lemma clock_moves_now: "clock_moves clock time \<Longrightarrow> clkNow clock w = (n, w') \<Longrightarrow> time w \<le> n \<and> n \<le> time w'"
  unfolding clock_moves_def by blast

lemma clock_moves_wait:
  "clock_moves clock time \<Longrightarrow> Verifier_wait clock d w = (None, w') \<Longrightarrow> 0 \<le> d \<Longrightarrow> time w + d \<le> time w'"
  unfolding clock_moves_def Verifier_wait_def by (auto split: prod.splits option.splits)

lemma keeps_timeD: "keeps_time time f \<Longrightarrow> f w = (r, w') \<Longrightarrow> time w \<le> time w'"
  unfolding keeps_time_def by blast

lemma wait_step_pos:
  assumes "0 < poll" and "time_Before now deadline"
  shows "0 < minDuration poll (time_Sub deadline now)"
  using assms by (auto simp: minDuration_def time_Sub_def duration_defs time_Before_def)

lemma keeps_time_probe:
  assumes "keeps_time time (resResolve resolver target)"
  shows "keeps_time time (readinessProbe resolver target)"
  unfolding keeps_time_def readinessProbe_def
  by (auto split: prod.splits sum.splits if_splits dest: keeps_timeD [OF assms])

lemma readinessPass_again:
  assumes "readinessPass resolver clock poll target deadline w = Inl w3"
  obtains w1 now w2 where "readinessProbe resolver target w = (Inr None, w1)" "clkNow clock w1 = (now, w2)"
    "time_Before now deadline" "Verifier_wait clock (minDuration poll (time_Sub deadline now)) w2 = (None, w3)"
  using assms by (auto simp: readinessPass_def split: prod.splits sum.splits option.splits if_splits)

lemma readinessLoop_returns:
  assumes "clock_moves clock time" and "keeps_time time (resResolve resolver target)" and "0 < poll"
  shows "\<exists>r. readinessLoop resolver clock poll target deadline w = Some r"
  unfolding readinessLoop_def
proof (rule iterate_returns [where m = "\<lambda>w. nat (deadline - time w)"])
  fix w w3
  assume "readinessPass resolver clock poll target deadline w = Inl w3"
  then show "nat (deadline - time w3) < nat (deadline - time w)"
  proof (rule readinessPass_again)
    fix w1 now w2
    assume "readinessProbe resolver target w = (Inr None, w1)" "clkNow clock w1 = (now, w2)"
      "time_Before now deadline" "Verifier_wait clock (minDuration poll (time_Sub deadline now)) w2 = (None, w3)"
    then have "time w < time w3 \<and> time w < deadline"
      using keeps_timeD [OF keeps_time_probe [OF assms(2)], of w] clock_moves_now [OF assms(1), of w1]
        clock_moves_wait [OF assms(1), of _ w2 w3] wait_step_pos [OF assms(3), of now deadline]
      by (fastforce simp: time_Before_def)
    then show ?thesis by linarith
  qed
qed

lemma stabilityPass_again:
  assumes "stabilityPass reader clock poll target stablePod baseline deadline (cur, w) = Inl (cur', w3)"
  obtains now w1 w2 where "steady target stablePod baseline cur" "clkNow clock w = (now, w1)" "time_Before now deadline"
    "Verifier_wait clock (minDuration poll (time_Sub deadline now)) w1 = (None, w2)"
    "GetPod reader (metaRef (podMeta stablePod)) w2 = (Inr cur', w3)"
  using assms
  by (auto simp: stabilityPass_def stabilityCheck_None [symmetric] split: prod.splits sum.splits option.splits if_splits)

lemma stabilityLoop_returns:
  assumes "clock_moves clock time" and "keeps_time time (GetPod reader (metaRef (podMeta stablePod)))" and "0 < poll"
  shows "\<exists>r. stabilityLoop reader clock poll target stablePod baseline deadline cur w = Some r"
  unfolding stabilityLoop_def
proof (rule iterate_returns [where m = "\<lambda>(cur, w). nat (deadline - time w)"], clarify)
  fix cur w cur' w3
  assume "stabilityPass reader clock poll target stablePod baseline deadline (cur, w) = Inl (cur', w3)"
  then show "nat (deadline - time w3) < nat (deadline - time w)"
  proof (rule stabilityPass_again)
    fix now w1 w2
    assume "clkNow clock w = (now, w1)" "time_Before now deadline"
      "Verifier_wait clock (minDuration poll (time_Sub deadline now)) w1 = (None, w2)"
      "GetPod reader (metaRef (podMeta stablePod)) w2 = (Inr cur', w3)"
    then have "time w < time w3 \<and> time w < deadline"
      using keeps_timeD [OF assms(2), of w2] clock_moves_now [OF assms(1), of w]
        clock_moves_wait [OF assms(1), of _ w1 w2] wait_step_pos [OF assms(3), of now deadline]
      by (fastforce simp: time_Before_def)
    then show ?thesis by linarith
  qed
qed

lemma Verifier_validate_None:
  assumes "Verifier_validate v target = None"
  obtains reader resolver clock where "vReader v = Some reader" "vResolver v = Some resolver" "vClock v = Some clock"
    "0 < vReadinessTimeout v" "0 < vWindow v" "0 < vPollInterval v"
    "validateVerificationIdentity target = None" "vtPreActionPodUIDs target \<noteq> None"
  using assms by (auto simp: Verifier_validate_def split: if_splits option.splits)

section \<open>What a recovered verdict rests on\<close>

text \<open>
  The observations of one verification, recorded as in \<^theory_text>\<open>Effects\<close>: every resolution and
  read with its answer, every reading of the clock, every delay waited for.
\<close>

datatype obs = OResolved "error + Pod" | OGot "error + Pod" | ONow time | OAfter duration

definition observe :: "('r \<Rightarrow> obs) \<Rightarrow> ('w \<Rightarrow> 'r \<times> 'w) \<Rightarrow> 'w \<times> obs list \<Rightarrow> 'r \<times> 'w \<times> obs list" where
  "observe mk f s = (case f (fst s) of (r, w') \<Rightarrow> (r, (w', snd s @ [mk r])))"

definition observeReader :: "'w Reader \<Rightarrow> ('w \<times> obs list) Reader" where
  "observeReader r =
     \<lparr>GetPod = (\<lambda>nn. observe OGot (GetPod r nn)),
      GetDeployment = (\<lambda>nn s. case GetDeployment r nn (fst s) of (a, w') \<Rightarrow> (a, (w', snd s))),
      GetReplicaSet = (\<lambda>nn s. case GetReplicaSet r nn (fst s) of (a, w') \<Rightarrow> (a, (w', snd s))),
      ListReplicaSets = (\<lambda>ns sel s. case ListReplicaSets r ns sel (fst s) of (a, w') \<Rightarrow> (a, (w', snd s))),
      ListPods = (\<lambda>ns sel s. case ListPods r ns sel (fst s) of (a, w') \<Rightarrow> (a, (w', snd s)))\<rparr>"

definition observeResolver :: "'w PodResolver \<Rightarrow> ('w \<times> obs list) PodResolver" where
  "observeResolver r =
     \<lparr>resCapture = (\<lambda>t s. case resCapture r t (fst s) of (a, w') \<Rightarrow> (a, (w', snd s))),
      resResolve = (\<lambda>t. observe OResolved (resResolve r t))\<rparr>"

definition observeClock :: "'w Clock \<Rightarrow> ('w \<times> obs list) Clock" where
  "observeClock c = \<lparr>clkNow = observe ONow (clkNow c), clkAfter = (\<lambda>d. observe (\<lambda>_. OAfter d) (clkAfter c d))\<rparr>"

definition observeVerifier :: "'w Verifier \<Rightarrow> ('w \<times> obs list) Verifier" where
  "observeVerifier v =
     \<lparr>vReader = map_option observeReader (vReader v), vResolver = map_option observeResolver (vResolver v),
      vClock = map_option observeClock (vClock v), vReadinessTimeout = vReadinessTimeout v,
      vWindow = vWindow v, vPollInterval = vPollInterval v\<rparr>"

text \<open>
  One round of the window: the clock was read before the deadline, a delay of at most one poll
  interval was waited for, and then the Pod was read again and found steady.
\<close>

type_synonym poll_round = "time \<times> duration \<times> Pod"

definition round_obs :: "poll_round \<Rightarrow> obs list" where
  "round_obs r = (case r of (t, d, p) \<Rightarrow> [ONow t, OAfter d, OGot (Inr p)])"

definition round_ok :: "VerificationTarget \<Rightarrow> Pod \<Rightarrow> int \<Rightarrow> duration \<Rightarrow> time \<Rightarrow> poll_round \<Rightarrow> bool" where
  "round_ok target stablePod baseline poll deadline r =
     (case r of (t, d, p) \<Rightarrow> t < deadline \<and> d \<le> poll \<and> steady target stablePod baseline p)"

lemma observe_eq: "observe mk f (w, tr) = (r, (w', tr')) \<longleftrightarrow> f w = (r, w') \<and> tr' = tr @ [mk r]"
  by (auto simp: observe_def split: prod.splits)

lemma minDuration_le: "minDuration poll d \<le> poll"
  by (simp add: minDuration_def)

lemma observeClock_sel [simp]:
  "clkNow (observeClock c) = observe ONow (clkNow c)"
  "clkAfter (observeClock c) d = observe (\<lambda>_. OAfter d) (clkAfter c d)"
  by (simp_all add: observeClock_def)

lemma observeReader_GetPod [simp]: "GetPod (observeReader r) nn = observe OGot (GetPod r nn)"
  by (simp add: observeReader_def)

lemma observeResolver_resolve [simp]: "resResolve (observeResolver r) t = observe OResolved (resResolve r t)"
  by (simp add: observeResolver_def)

lemma wait_observed:
  "Verifier_wait (observeClock c) d (w, tr) = (r, (w', tr')) \<Longrightarrow> tr' = tr @ [OAfter d]"
  by (auto simp: Verifier_wait_def observe_eq split: prod.splits option.splits)

text \<open>The recovered exit of the stability loop, with everything it observed.\<close>

definition window_held :: "VerificationTarget \<Rightarrow> Pod \<Rightarrow> int \<Rightarrow> duration \<Rightarrow> time \<Rightarrow> Pod \<Rightarrow> obs list \<Rightarrow> bool" where
  "window_held target stablePod baseline poll deadline cur new \<longleftrightarrow>
     steady target stablePod baseline cur \<and>
     (\<exists>rounds t. new = concat (map round_obs rounds) @ [ONow t] \<and> deadline \<le> t \<and>
        list_all (round_ok target stablePod baseline poll deadline) rounds)"

lemma window_held_stop:
  "steady target stablePod baseline cur \<Longrightarrow> deadline \<le> t \<Longrightarrow>
     window_held target stablePod baseline poll deadline cur [ONow t]"
  unfolding window_held_def by (intro conjI exI [of _ "[]"] exI [of _ t]) auto

lemma window_held_step:
  assumes "steady target stablePod baseline cur" and "t < deadline" and "d \<le> poll"
    and "window_held target stablePod baseline poll deadline cur' new"
  shows "window_held target stablePod baseline poll deadline cur (ONow t # OAfter d # OGot (Inr cur') # new)"
proof -
  from assms(4) obtain rounds u where "new = concat (map round_obs rounds) @ [ONow u]" "deadline \<le> u"
    "list_all (round_ok target stablePod baseline poll deadline) rounds"
    "steady target stablePod baseline cur'" by (auto simp: window_held_def)
  with assms(1-3) show ?thesis
    unfolding window_held_def
    by (intro conjI exI [of _ "(t, d, cur') # rounds"] exI [of _ u]) (auto simp: round_obs_def round_ok_def)
qed

lemma stabilityPass_observed:
  assumes "stabilityPass (observeReader reader) (observeClock clock) poll target stablePod baseline deadline (cur, w, tr)
      = Inl (cur', w3, tr3)"
  shows "\<exists>now d. steady target stablePod baseline cur \<and> now < deadline \<and> d \<le> poll \<and>
      tr3 = tr @ [ONow now, OAfter d, OGot (Inr cur')]"
proof (rule stabilityPass_again [OF assms])
  fix now s1 s2
  assume "steady target stablePod baseline cur" "clkNow (observeClock clock) (w, tr) = (now, s1)" "time_Before now deadline"
    "Verifier_wait (observeClock clock) (minDuration poll (time_Sub deadline now)) s1 = (None, s2)"
    "GetPod (observeReader reader) (metaRef (podMeta stablePod)) s2 = (Inr cur', w3, tr3)"
  then show ?thesis
    by (cases s1; cases s2) (auto simp: observe_eq time_Before_def minDuration_le dest!: wait_observed)
qed

lemma stabilityPass_recovered:
  assumes "stabilityPass (observeReader reader) (observeClock clock) poll target stablePod baseline deadline (cur, w, tr)
      = Inr (Inr res, w', tr')" and "vrRecovered res"
  shows "\<exists>t. steady target stablePod baseline cur \<and> deadline \<le> t \<and> tr' = tr @ [ONow t] \<and>
      vrPodRef res = metaRef (podMeta stablePod)"
  using assms
  by (auto simp: stabilityPass_def stabilityCheck_None [symmetric] observe_def failedVerification_def stabilityCheck_def
      time_Before_def Verifier_wait_def split: prod.splits sum.splits option.splits if_splits)

lemma stabilityLoop_recovered:
  assumes "stabilityLoop (observeReader reader) (observeClock clock) poll target stablePod baseline deadline cur (w, tr)
      = Some (Inr res, (w', tr'))" and "vrRecovered res"
  shows "vrPodRef res = metaRef (podMeta stablePod) \<and>
    (\<exists>new. tr' = tr @ new \<and> window_held target stablePod baseline poll deadline cur new)"
proof -
  let ?P = "\<lambda>(cur, w, tr) (r, w', tr'). \<forall>res. r = Inr res \<longrightarrow> vrRecovered res \<longrightarrow>
       vrPodRef res = metaRef (podMeta stablePod) \<and>
       (\<exists>new. tr' = tr @ new \<and> window_held target stablePod baseline poll deadline cur new)"
  have "?P (cur, w, tr) (Inr res, w', tr')"
    using assms(1) unfolding stabilityLoop_def
  proof (induction "(cur, w, tr)" "(Inr res :: error + VerificationResult, w', tr')" arbitrary: cur w tr rule: iterate_induct)
    case leave
    from stabilityPass_recovered [OF this assms(2)] show ?case
      by (auto intro: window_held_stop)
  next
    case (again s')
    obtain cur' w3 tr3 where s': "s' = (cur', w3, tr3)" by (cases s') auto
    obtain now d where "steady target stablePod baseline cur" "now < deadline" "d \<le> poll"
      "tr3 = tr @ [ONow now, OAfter d, OGot (Inr cur')]"
      using stabilityPass_observed [OF again(1) [unfolded s']] by blast
    with again(2) [OF s'] assms(2) show ?case
      by (auto intro: window_held_step)
  qed
  with assms(2) show ?thesis by simp
qed

lemma probe_observed:
  assumes "readinessProbe (observeResolver rs) target (w, tr) = (res, (w', tr'))"
  shows "\<exists>ans. resResolve rs target w = (ans, w') \<and> tr' = tr @ [OResolved ans] \<and>
    (\<forall>pod n. res = Inr (Some (pod, n)) \<longrightarrow>
       ans = Inr pod \<and> podReady pod \<and> containerRestartCount pod (vtContainerName target) = (n, True))"
  using assms
  by (auto simp: readinessProbe_def observe_eq split: prod.splits sum.splits if_splits)

lemma readinessLoop_ready:
  assumes "readinessLoop (observeResolver rs) (observeClock clock) poll target deadline (w, tr)
      = Some (Inr (Some (pod, n)), (w', tr'))"
  shows "podReady pod \<and> containerRestartCount pod (vtContainerName target) = (n, True) \<and>
    (\<exists>w0. resResolve rs target w0 = (Inr pod, w')) \<and> (\<exists>pre. tr' = tr @ pre @ [OResolved (Inr pod)])"
  using assms unfolding readinessLoop_def
proof (induction "(w, tr)" "(Inr (Some (pod, n)) :: error + (Pod \<times> int) option, w', tr')" arbitrary: w tr rule: iterate_induct)
  case leave
  then have "readinessProbe (observeResolver rs) target (w, tr) = (Inr (Some (pod, n)), (w', tr'))"
    by (auto simp: readinessPass_def split: prod.splits sum.splits option.splits if_splits)
  from probe_observed [OF this] show ?case by auto
next
  case (again s')
  obtain w3 tr3 where s': "s' = (w3, tr3)" by (cases s') auto
  have "\<exists>mid. tr3 = tr @ mid"
    using again(1) unfolding s'
    by (auto simp: observe_eq elim!: readinessPass_again dest!: probe_observed wait_observed)
  with again(2) [OF s'] show ?case by auto
qed

section \<open>Observing changes nothing\<close>

text \<open>Every run of the verifier has an observed run with the same verdict and the same world.\<close>

abbreviation same_world :: "'w \<Rightarrow> 'w \<times> obs list \<Rightarrow> bool" where
  "same_world w s \<equiv> fst s = w"

abbreviation same_result :: "'r \<times> 'w \<Rightarrow> 'r \<times> 'w \<times> obs list \<Rightarrow> bool" where
  "same_result x y \<equiv> fst y = fst x \<and> same_world (snd x) (snd y)"

lemma readinessPass_same:
  "same_world w s \<Longrightarrow> rel_sum same_world same_result (readinessPass rs clock poll target deadline w)
     (readinessPass (observeResolver rs) (observeClock clock) poll target deadline s)"
  by (cases s) (auto simp: readinessPass_def readinessProbe_def observe_def Verifier_wait_def
      split: prod.splits sum.splits option.splits if_splits)

lemma stabilityPass_same:
  "fst t = fst s \<and> same_world (snd s) (snd t) \<Longrightarrow>
     rel_sum (\<lambda>s t. fst t = fst s \<and> same_world (snd s) (snd t)) same_result
     (stabilityPass reader clock poll target stablePod baseline deadline s)
     (stabilityPass (observeReader reader) (observeClock clock) poll target stablePod baseline deadline t)"
  by (cases s; cases t) (auto simp: stabilityPass_def observe_def Verifier_wait_def
      split: prod.splits sum.splits option.splits if_splits)

lemma readinessLoop_same:
  assumes "readinessLoop rs clock poll target deadline w = Some (r, w')"
  shows "\<exists>tr'. readinessLoop (observeResolver rs) (observeClock clock) poll target deadline (w, tr) = Some (r, (w', tr'))"
  using iterate_simulation [where R = same_world and Q = same_result, OF assms [unfolded readinessLoop_def] _ readinessPass_same,
      of "(w, tr)"]
  by (auto simp: readinessLoop_def)

lemma stabilityLoop_same:
  assumes "stabilityLoop reader clock poll target stablePod baseline deadline cur w = Some (r, w')"
  shows "\<exists>tr'. stabilityLoop (observeReader reader) (observeClock clock) poll target stablePod baseline deadline cur (w, tr)
    = Some (r, (w', tr'))"
  using iterate_simulation [where R = "\<lambda>s t. fst t = fst s \<and> same_world (snd s) (snd t)" and Q = same_result,
      OF assms [unfolded stabilityLoop_def] _ stabilityPass_same, of "(cur, w, tr)"]
  by (auto simp: stabilityLoop_def)

lemma observeVerifier_sel [simp]:
  "vReader (observeVerifier v) = map_option observeReader (vReader v)"
  "vResolver (observeVerifier v) = map_option observeResolver (vResolver v)"
  "vClock (observeVerifier v) = map_option observeClock (vClock v)"
  "vReadinessTimeout (observeVerifier v) = vReadinessTimeout v"
  "vWindow (observeVerifier v) = vWindow v"
  "vPollInterval (observeVerifier v) = vPollInterval v"
  by (simp_all add: observeVerifier_def)

lemma Verifier_validate_observed [simp]: "Verifier_validate (observeVerifier v) target = Verifier_validate v target"
  unfolding Verifier_validate_def by (simp only: observeVerifier_sel map_option_is_None)

lemma Verify_observed:
  assumes "Verify v target w = Some (r, w')"
  shows "\<exists>tr'. Verify (observeVerifier v) target (w, tr) = Some (r, (w', tr'))"
proof (cases "Verifier_validate v target")
  case (Some err)
  with assms show ?thesis by (simp add: Verify_def)
next
  case None
  from Verifier_validate_None [OF None] obtain reader rs clock where
    v: "vReader v = Some reader" "vResolver v = Some rs" "vClock v = Some clock" by metis
  obtain start w1 where start: "clkNow clock w = (start, w1)" by fastforce
  from assms None v start obtain ready w2 where
    ready: "readinessLoop rs clock (vPollInterval v) target (time_Add start (vReadinessTimeout v)) w1 = Some (ready, w2)"
    by (auto simp: Verify_def split: option.splits)
  obtain tr2 where ready2: "readinessLoop (observeResolver rs) (observeClock clock) (vPollInterval v) target
      (time_Add start (vReadinessTimeout v)) (w1, tr @ [ONow start]) = Some (ready, (w2, tr2))"
    using readinessLoop_same [OF ready] by blast
  obtain now w3 where now: "clkNow clock w2 = (now, w3)" by fastforce
  show ?thesis
    using assms None v start ready ready2 now
    by (auto simp: Verify_def observe_def intro: stabilityLoop_same split: sum.splits option.splits prod.splits)
qed

lemma Verify_recovered:
  assumes "Verify (observeVerifier v) target (w, []) = Some (Inr res, (w', tr))" and "vrRecovered res"
    and "vResolver v = Some rs"
  shows "\<exists>pre pod t0 baseline new. tr = pre @ [OResolved (Inr pod), ONow t0] @ new \<and>
    (\<exists>w0 w1. resResolve rs target w0 = (Inr pod, w1)) \<and>
    containerRestartCount pod (vtContainerName target) = (baseline, True) \<and>
    vrPodRef res = metaRef (podMeta pod) \<and>
    window_held target pod baseline (vPollInterval v) (t0 + vWindow v) pod new"
proof -
  have "Verifier_validate v target = None"
    using assms(1) by (auto simp: Verify_def split: option.splits)
  from Verifier_validate_None [OF this] obtain reader clock where
    v: "vReader v = Some reader" "vClock v = Some clock" by metis
  obtain start w1 where start: "clkNow clock w = (start, w1)" by fastforce
  from assms v start \<open>Verifier_validate v target = None\<close>
  obtain pod baseline w2 tr2 now w3 where
    ready: "readinessLoop (observeResolver rs) (observeClock clock) (vPollInterval v) target
        (time_Add start (vReadinessTimeout v)) (w1, [ONow start]) = Some (Inr (Some (pod, baseline)), (w2, tr2))"
    and now: "clkNow clock w2 = (now, w3)"
    and stable: "stabilityLoop (observeReader reader) (observeClock clock) (vPollInterval v) target pod baseline
        (time_Add now (vWindow v)) pod (w3, tr2 @ [ONow now]) = Some (Inr res, (w', tr))"
    by (auto simp: Verify_def observe_def split: option.splits sum.splits prod.splits)
  from readinessLoop_ready [OF ready] obtain pre where
    "containerRestartCount pod (vtContainerName target) = (baseline, True)"
    "\<exists>w0. resResolve rs target w0 = (Inr pod, w2)" "tr2 = ONow start # pre @ [OResolved (Inr pod)]" by auto
  moreover from stabilityLoop_recovered [OF stable assms(2)] obtain new where
    "vrPodRef res = metaRef (podMeta pod)" "tr = (tr2 @ [ONow now]) @ new"
    "window_held target pod baseline (vPollInterval v) (now + vWindow v) pod new" by (auto simp: time_Add_def)
  ultimately show ?thesis
    by (intro exI [of _ "ONow start # pre"] exI [of _ pod] exI [of _ now] exI [of _ baseline] exI [of _ new]) auto
qed

section \<open>The production verifier\<close>

definition reads_keep_time :: "('w \<Rightarrow> time) \<Rightarrow> 'w Reader \<Rightarrow> bool" where
  "reads_keep_time time reader \<longleftrightarrow>
     (\<forall>nn. keeps_time time (GetPod reader nn)) \<and> (\<forall>nn. keeps_time time (GetDeployment reader nn)) \<and>
     (\<forall>ns sel. keeps_time time (ListReplicaSets reader ns sel)) \<and> (\<forall>ns sel. keeps_time time (ListPods reader ns sel))"

lemma DPR_Resolve_keeps_time:
  assumes "reads_keep_time time reader"
  shows "keeps_time time (DPR_Resolve am \<lparr>drReader = Some reader\<rparr> target)"
proof -
  have "time w \<le> time w'" if "DPR_Resolve am \<lparr>drReader = Some reader\<rparr> target w = (r, w')" for w r w'
  proof -
    have get: "GetDeployment reader nn w = (x, w') \<Longrightarrow> time w \<le> time w'" for nn w x w'
      using assms unfolding reads_keep_time_def by (blast dest: keeps_timeD)
    have list: "ListReplicaSets reader ns sel w = (y, w') \<Longrightarrow> time w \<le> time w'" for ns sel w y w'
      using assms unfolding reads_keep_time_def by (blast dest: keeps_timeD)
    have pods: "ListPods reader ns sel w = (z, w') \<Longrightarrow> time w \<le> time w'" for ns sel w z w'
      using assms unfolding reads_keep_time_def by (blast dest: keeps_timeD)
    show ?thesis
      using that unfolding DPR_Resolve_def deploymentPods_def
      by (auto simp: Let_def split: prod.splits sum.splits option.splits if_splits dest!: get list pods)
  qed
  then show ?thesis by (auto simp: keeps_time_def)
qed

text \<open>
  How late a verification may end: every reading of the clock and every API read takes at most
  \<open>e\<close>, and a \<^verbatim>\<open>select\<close> on a timer is over at most \<open>e\<close> after the timer was due.
\<close>

definition takes_at_most :: "('w \<Rightarrow> time) \<Rightarrow> duration \<Rightarrow> ('w \<Rightarrow> 'r \<times> 'w) \<Rightarrow> bool" where
  "takes_at_most time e f \<longleftrightarrow> (\<forall>w r w'. f w = (r, w') \<longrightarrow> time w' \<le> time w + e)"

definition punctual :: "('w \<Rightarrow> time) \<Rightarrow> duration \<Rightarrow> 'w Clock \<Rightarrow> 'w Reader \<Rightarrow> bool" where
  "punctual time e clock reader \<longleftrightarrow> 0 \<le> e \<and>
     takes_at_most time e (clkNow clock) \<and> (\<forall>d \<ge> 0. takes_at_most time (d + e) (clkAfter clock d)) \<and>
     (\<forall>nn. takes_at_most time e (GetPod reader nn)) \<and> (\<forall>nn. takes_at_most time e (GetDeployment reader nn)) \<and>
     (\<forall>ns sel. takes_at_most time e (ListReplicaSets reader ns sel)) \<and>
     (\<forall>ns sel. takes_at_most time e (ListPods reader ns sel))"

lemma takes_at_mostD: "takes_at_most time e f \<Longrightarrow> f w = (r, w') \<Longrightarrow> time w' \<le> time w + e"
  unfolding takes_at_most_def by blast

lemma DPR_Resolve_punctual:
  assumes "punctual time e clock reader"
  shows "takes_at_most time (3 * e) (DPR_Resolve am \<lparr>drReader = Some reader\<rparr> target)"
proof -
  have e: "0 \<le> e" using assms by (simp add: punctual_def)
  have "time w' \<le> time w + 3 * e" if "DPR_Resolve am \<lparr>drReader = Some reader\<rparr> target w = (r, w')" for w r w'
  proof -
    have get: "GetDeployment reader nn w = (x, w') \<Longrightarrow> time w' \<le> time w + e" for nn w x w'
      using assms unfolding punctual_def by (blast dest: takes_at_mostD)
    have list: "ListReplicaSets reader ns sel w = (y, w') \<Longrightarrow> time w' \<le> time w + e" for ns sel w y w'
      using assms unfolding punctual_def by (blast dest: takes_at_mostD)
    have pods: "ListPods reader ns sel w = (z, w') \<Longrightarrow> time w' \<le> time w + e" for ns sel w z w'
      using assms unfolding punctual_def by (blast dest: takes_at_mostD)
    show ?thesis
      using that e unfolding DPR_Resolve_def deploymentPods_def
      by (auto simp: Let_def split: prod.splits sum.splits option.splits if_splits dest!: get list pods)
  qed
  then show ?thesis by (auto simp: takes_at_most_def)
qed

lemma wait_punctual:
  assumes "punctual time e clock reader" and "clock_moves clock time" and "0 < poll"
    and "clkNow clock w1 = (now, w2)" and "time_Before now deadline"
    and "Verifier_wait clock (minDuration poll (time_Sub deadline now)) w2 = (r, w3)"
  shows "time w3 \<le> deadline + 2 * e"
proof -
  let ?d = "minDuration poll (time_Sub deadline now)"
  have d: "0 \<le> ?d" using wait_step_pos [OF assms(3,5)] by simp
  have "?d \<le> deadline - now"
    using assms(5) by (auto simp: minDuration_def time_Sub_def duration_defs time_Before_def)
  moreover have "time w3 \<le> time w2 + (?d + e)"
    using assms(1,6) d unfolding punctual_def Verifier_wait_def
    by (auto split: prod.splits option.splits dest: takes_at_mostD)
  moreover have "time w2 \<le> now + e"
    using assms(1,4) clock_moves_now [OF assms(2,4)] unfolding punctual_def by (fastforce dest: takes_at_mostD)
  ultimately show ?thesis by linarith
qed

lemma readinessLoop_time:
  assumes "punctual time e clock reader" and "clock_moves clock time" and "0 < poll"
    and "takes_at_most time (3 * e) (resResolve rs target)"
    and "readinessLoop rs clock poll target deadline w = Some (r, w')" and "time w \<le> deadline + 2 * e"
  shows "time w' \<le> deadline + 6 * e"
  using assms(5,6) unfolding readinessLoop_def
proof (induction w "(r, w')" rule: iterate_induct)
  case (leave w)
  have e: "0 \<le> e" and now: "\<And>w n w'. clkNow clock w = (n, w') \<Longrightarrow> time w' \<le> time w + e"
    using assms(1) unfolding punctual_def by (auto dest: takes_at_mostD)
  have probe: "\<And>w x w'. readinessProbe rs target w = (x, w') \<Longrightarrow> time w' \<le> time w + 3 * e"
    using takes_at_mostD [OF assms(4)] by (auto simp: readinessProbe_def split: prod.splits sum.splits if_splits)
  note wait = wait_punctual [OF assms(1-3)]
  from leave show ?case
    unfolding readinessPass_def using e
    by (auto split: prod.splits sum.splits option.splits if_splits dest!: probe dest: now wait)
next
  case (again w w3)
  then show ?case
    by (elim readinessPass_again) (auto dest: wait_punctual [OF assms(1-3)])
qed

lemma stabilityLoop_time:
  assumes "punctual time e clock reader" and "clock_moves clock time" and "0 < poll"
    and "stabilityLoop reader clock poll target stablePod baseline deadline cur w = Some (r, w')" and "time w \<le> deadline + 3 * e"
  shows "time w' \<le> deadline + 4 * e"
  using assms(4,5) unfolding stabilityLoop_def
proof (induction "(cur, w)" "(r, w')" arbitrary: cur w rule: iterate_induct)
  case leave
  have e: "0 \<le> e" and now: "\<And>w n w'. clkNow clock w = (n, w') \<Longrightarrow> time w' \<le> time w + e"
    and get: "\<And>nn w x w'. GetPod reader nn w = (x, w') \<Longrightarrow> time w' \<le> time w + e"
    using assms(1) unfolding punctual_def by (auto dest: takes_at_mostD)
  note wait = wait_punctual [OF assms(1-3)]
  from leave show ?case
    unfolding stabilityPass_def using e
    by (auto split: prod.splits sum.splits option.splits if_splits dest: now wait dest!: get)
next
  case (again s')
  obtain cur' w3 where s': "s' = (cur', w3)" by fastforce
  have "time w3 \<le> deadline + 3 * e"
  proof (rule stabilityPass_again [OF again(1) [unfolded s']])
    fix now w1 w2
    assume "clkNow clock w = (now, w1)" "time_Before now deadline"
      "Verifier_wait clock (minDuration poll (time_Sub deadline now)) w1 = (None, w2)"
      and get: "GetPod reader (metaRef (podMeta stablePod)) w2 = (Inr cur', w3)"
    from wait_punctual [OF assms(1-3) this(1-3)] have "time w2 \<le> deadline + 2 * e" .
    moreover have "time w3 \<le> time w2 + e"
      using assms(1) get unfolding punctual_def by (blast dest: takes_at_mostD)
    ultimately show ?thesis by linarith
  qed
  with again(2) [OF s'] show ?case .
qed

lemma NewVerifier_sel [simp]:
  "vReader (NewVerifier am clock reader) = Some reader"
  "vResolver (NewVerifier am clock reader) = Some (deploymentResolver am \<lparr>drReader = Some reader\<rparr>)"
  "vClock (NewVerifier am clock reader) = Some clock"
  "vReadinessTimeout (NewVerifier am clock reader) = 30 * Second"
  "vWindow (NewVerifier am clock reader) = 60 * Second"
  "vPollInterval (NewVerifier am clock reader) = 5 * Second"
  by (simp_all add: NewVerifier_def InitialReadinessTimeout_def StabilityWindow_def DefaultPollInterval_def)

lemma deploymentResolver_resolve [simp]: "resResolve (deploymentResolver am r) = DPR_Resolve am r"
  by (simp add: deploymentResolver_def)

lemma Verify_time:
  assumes "punctual time e clock reader" and "clock_moves clock time"
    and "Verify (NewVerifier am clock reader) target w = Some (r, w')"
  shows "time w' \<le> time w + 90 * Second + 12 * e"
proof (cases "Verifier_validate (NewVerifier am clock reader) target")
  case (Some err)
  with assms show ?thesis by (auto simp: Verify_def punctual_def duration_defs)
next
  case None
  have e: "0 \<le> e" and now: "\<And>w n w'. clkNow clock w = (n, w') \<Longrightarrow> n \<le> time w' \<and> time w \<le> n \<and> time w' \<le> time w + e"
    using assms(1) clock_moves_now [OF assms(2)] unfolding punctual_def by (auto dest: takes_at_mostD)
  have poll: "0 < 5 * Second" by (simp add: duration_defs)
  obtain start w1 where start: "clkNow clock w = (start, w1)" by fastforce
  from None assms(3) start obtain a w2 where
    ready: "readinessLoop (deploymentResolver am \<lparr>drReader = Some reader\<rparr>) clock (5 * Second) target
      (time_Add start (30 * Second)) w1 = Some (a, w2)"
    by (auto simp: Verify_def split: option.splits)
  have "time w1 \<le> time_Add start (30 * Second) + 2 * e"
    using now [OF start] e by (simp add: time_Add_def duration_defs)
  from readinessLoop_time [OF assms(1,2) poll _ ready this] DPR_Resolve_punctual [OF assms(1)]
  have w2: "time w2 \<le> time w + 30 * Second + 7 * e"
    using now [OF start] by (simp add: time_Add_def)
  obtain n w3 where n: "clkNow clock w2 = (n, w3)" by fastforce
  have "time w3 \<le> time_Add n (60 * Second) + 3 * e"
    using now [OF n] e by (simp add: time_Add_def duration_defs)
  note window = stabilityLoop_time [OF assms(1,2) poll _ this, unfolded time_Add_def]
  have "0 < Second" by (simp add: duration_defs)
  with None assms(3) start ready e w2 n now [OF n] show ?thesis
    by (auto simp: Verify_def time_Add_def split: option.splits sum.splits prod.splits dest!: window)
qed

text \<open>
  C8: verification always ends, and in time. With a clock that moves (a fired timer took at least its
  delay) and API reads that do not turn the time back, the verifier the manager builds returns,
  whatever the API server answers and whatever the target is. If moreover no reading of the clock and
  no API read takes longer than \<open>e\<close> and no wait is over later than \<open>e\<close> after it was due, then it
  returns within 90 seconds (30 for readiness, 60 for the window) plus \<open>12 * e\<close>, however many polls it made.
\<close>

theorem verify_returns:
  assumes "clock_moves clock time" and "reads_keep_time time reader"
  shows "\<exists>r w'. Verify (NewVerifier am clock reader) target w = Some (r, w') \<and>
    (\<forall>e. punctual time e clock reader \<longrightarrow> time w' \<le> time w + 90 * Second + 12 * e)"
proof -
  have "keeps_time time (GetPod reader nn)" for nn
    using assms(2) by (simp add: reads_keep_time_def)
  then have stable: "\<exists>r w'. stabilityLoop reader clock (5 * Second) target p b dl cur w = Some (r, w')" for p b dl cur w
    using stabilityLoop_returns [OF assms(1), of reader p "5 * Second"] by (simp add: duration_defs)
  have ready: "\<exists>r w'. readinessLoop (deploymentResolver am \<lparr>drReader = Some reader\<rparr>) clock (5 * Second) target dl w = Some (r, w')"
    for dl w
    using readinessLoop_returns [OF assms(1), of "deploymentResolver am \<lparr>drReader = Some reader\<rparr>" target "5 * Second"]
      DPR_Resolve_keeps_time [OF assms(2)] by (simp add: duration_defs)
  obtain start w1 where start: "clkNow clock w = (start, w1)" by fastforce
  obtain r w2 where r: "readinessLoop (deploymentResolver am \<lparr>drReader = Some reader\<rparr>) clock (5 * Second) target
      (time_Add start (30 * Second)) w1 = Some (r, w2)"
    using ready by blast
  have "\<exists>r w'. Verify (NewVerifier am clock reader) target w = Some (r, w')"
    using stable by (simp add: Verify_def start r split: option.split sum.split prod.split)
  then show ?thesis using Verify_time [OF _ assms(1)] by blast
qed

definition clusterClock :: "cluster Clock" where
  "clusterClock = \<lparr>clkNow = (\<lambda>c. (clNow c, c)), clkAfter = (\<lambda>d c. (None, c\<lparr>clNow := clNow c + max 0 d\<rparr>))\<rparr>"

lemma clusterClock_moves: "clock_moves clusterClock clNow"
  by (auto simp: clock_moves_def clusterClock_def)

lemma clusterReader_keeps_time: "reads_keep_time clNow clusterReader"
  by (auto simp: reads_keep_time_def keeps_time_def clusterReader_def)

definition emptyCluster :: cluster where
  "emptyCluster = \<lparr>clNow = 100, clPods = [], clDeployments = [], clReplicaSets = []\<rparr>"

lemma cluster_punctual: "punctual clNow 0 clusterClock clusterReader"
  by (auto simp: punctual_def takes_at_most_def clusterClock_def clusterReader_def)

theorem verify_returns_witness:
  "clock_moves clusterClock clNow \<and> reads_keep_time clNow clusterReader \<and> punctual clNow 0 clusterClock clusterReader \<and>
   (\<exists>r w'. Verify (NewVerifier stdMachinery clusterClock clusterReader) exampleTarget emptyCluster = Some (r, w') \<and>
      clNow w' \<le> clNow emptyCluster + 90 * Second)"
  using clusterClock_moves clusterReader_keeps_time cluster_punctual
    verify_returns [OF clusterClock_moves clusterReader_keeps_time, of stdMachinery exampleTarget emptyCluster] by fastforce

text \<open>
  C7: what a recovered verdict means. If the manager's verifier reports recovered, then some Pod was
  resolved that is a replacement (it belongs to the Deployment's namespace, is not being deleted, has
  the container, and is neither the original Pod nor one of the Pods recorded before the action) and
  was Ready; after the clock reading \<open>t0\<close> that followed, everything the verifier did is a sequence of
  rounds, each of them a clock reading before \<open>t0\<close> plus 60 seconds, a wait of at most 5 seconds and
  a fresh read of the Pod that returned that very Pod, same UID, name and namespace, Ready, and with
  a restart count of the container no higher than at its resolution; and the verdict was given at a
  clock reading at least 60 seconds after \<open>t0\<close>.
\<close>

theorem recovered_verdict:
  assumes "Verify (NewVerifier am clock reader) target w = Some (Inr res, w')" and "vrRecovered res"
  shows "\<exists>tr pre pod t0 baseline rounds t.
    Verify (observeVerifier (NewVerifier am clock reader)) target (w, []) = Some (Inr res, (w', tr)) \<and>
    tr = pre @ [OResolved (Inr pod), ONow t0] @ concat (map round_obs rounds) @ [ONow t] \<and>
    replacementFor target pod \<and> vrPodRef res = metaRef (podMeta pod) \<and>
    podReady pod \<and> containerRestartCount pod (vtContainerName target) = (baseline, True) \<and>
    list_all (round_ok target pod baseline (5 * Second) (t0 + 60 * Second)) rounds \<and>
    t0 + 60 * Second \<le> t"
proof -
  let ?v = "NewVerifier am clock reader"
  obtain tr where tr: "Verify (observeVerifier ?v) target (w, []) = Some (Inr res, (w', tr))"
    using Verify_observed [OF assms(1)] by blast
  obtain pre pod t0 baseline new w0 w1 where p: "tr = pre @ [OResolved (Inr pod), ONow t0] @ new"
    "DPR_Resolve am \<lparr>drReader = Some reader\<rparr> target w0 = (Inr pod, w1)"
    "containerRestartCount pod (vtContainerName target) = (baseline, True)" "vrPodRef res = metaRef (podMeta pod)"
    "window_held target pod baseline (5 * Second) (t0 + 60 * Second) pod new"
    using Verify_recovered [OF tr assms(2), of "deploymentResolver am \<lparr>drReader = Some reader\<rparr>"] by auto
  from p(2) have "replacementFor target pod" by (rule deployment_resolver.resolve_replacement)
  with p tr show ?thesis unfolding window_held_def steady_def by blast
qed

lemma healed_verdict:
  "(case Verify (NewVerifier stdMachinery clusterClock clusterReader) exampleTarget healedCluster of
      Some (Inr res, w') \<Rightarrow> vrRecovered res | _ \<Rightarrow> False)"
  by code_simp

theorem recovered_verdict_witness:
  "\<exists>res w' tr. vrRecovered res \<and>
     Verify (observeVerifier (NewVerifier stdMachinery clusterClock clusterReader)) exampleTarget (healedCluster, [])
       = Some (Inr res, (w', tr))"
proof -
  obtain res w' where "Verify (NewVerifier stdMachinery clusterClock clusterReader) exampleTarget healedCluster = Some (Inr res, w')"
    and "vrRecovered res"
    using healed_verdict by (auto split: option.splits prod.splits sum.splits)
  from recovered_verdict [OF this] this(2) show ?thesis by blast
qed

end
