(* ===== verification/Service.thy ===== *)
theory Service
  imports AuditLog Snapshot Verifier
begin

text \<open>
  One remediation attempt, \<^verbatim>\<open>internal/safety/service.go\<close> with \<^verbatim>\<open>internal/safety/contracts.go\<close>:
  snapshot, act, verify, and restore the snapshot when verification failed, with every lifecycle
  transition audited. The five dependencies are Go interfaces, modelled as records of functions over the
  world; \<open>None\<close> is a nil interface.

  An attempt may fail to return (the verifier's loops), may panic (the injected action), or returns an
  error or an outcome: \<open>None\<close>, \<open>Panics\<close>, \<open>Returns (Inl e)\<close>, \<open>Returns (Inr o)\<close>.

  Shown, for every behaviour of the dependencies: the order of the calls of an attempt, that the
  action runs at most once and only behind a captured snapshot and recorded Pod UIDs, that the snapshot
  is restored exactly when verification reported failure, what the outcome and its audit entries
  contain, and which failures leave the action's effect in place.
\<close>

section \<open>Interfaces\<close>

datatype 'a result = Returns 'a | Panics

type_synonym ('a, 'w) run = "((error + 'a) result \<times> 'w) option"

record 'w PodVerifier =
  pvCapturePreActionPodUIDs :: "VerificationTarget \<Rightarrow> 'w \<Rightarrow> (error + PodUIDSet) \<times> 'w"
  pvVerify :: "VerificationTarget \<Rightarrow> 'w \<Rightarrow> ((error + VerificationResult) \<times> 'w) option"

record 'w RemediationAction =
  raName :: string
  raExecute :: "DetectionEvent \<Rightarrow> 'w \<Rightarrow> error option result \<times> 'w"

record 'w Service =
  svSnapshots :: "'w SnapshotStore option"
  svVerifier :: "'w PodVerifier option"
  svAction :: "'w RemediationAction option"
  svAudit :: "'w AuditWriter option"
  svClock :: "'w Clock option"
  svMetadata :: AuditMetadata

datatype OutcomeResult = OutcomeRecovered | OutcomeRolledBack

fun OutcomeResult_string :: "OutcomeResult \<Rightarrow> string" where
  "OutcomeResult_string OutcomeRecovered = ''recovered''"
| "OutcomeResult_string OutcomeRolledBack = ''rolled_back''"

record Outcome =
  oResult :: OutcomeResult
  oMTTR :: duration
  oAuditEntries :: "AuditEntry list"

text \<open>The manager's verifier behind the interface.\<close>

definition verifierSeam :: "'w Verifier \<Rightarrow> 'w PodVerifier" where
  "verifierSeam v = \<lparr>pvCapturePreActionPodUIDs = Verifier_CapturePreActionPodUIDs (Some v), pvVerify = Verify v\<rparr>"

section \<open>Validation\<close>

definition Service_validate :: "'w Service \<Rightarrow> error option" where
  "Service_validate s =
     (if svSnapshots s = None then Some (Errorf ''remediate: snapshot store is required'')
      else if svVerifier s = None then Some (Errorf ''remediate: verifier is required'')
      else if svAction s = None then Some (Errorf ''remediate: injected action is required'')
      else if svAudit s = None then Some (Errorf ''remediate: audit writer is required'')
      else if svClock s = None then Some (Errorf ''remediate: clock is required'')
      else None)"

definition validateDetectionEvent :: "DetectionEvent \<Rightarrow> error option" where
  "validateDetectionEvent event =
     (if evPodName event = [] \<or> evNamespace event = [] then Some (Errorf ''remediate: pod name and namespace are required'')
      else if evContainerName event = [] then Some (Errorf ''remediate: container name is required'')
      else if evRestartCount event < 0 then Some (Errorf ''remediate: restart count cannot be negative'')
      else if evOwnerDeployment event = [] then Some (Errorf ''remediate: owner deployment is required'')
      else if time_IsZero (evTimestamp event) then Some (Errorf ''remediate: event timestamp is required'')
      else if evIncidentID event = [] then Some (Errorf ''remediate: incident ID is required'')
      else if evAttemptNumber event < 1 then Some (Errorf ''remediate: attempt number must be at least 1'')
      else None)"

section \<open>Remediate\<close>

text \<open>
  \<open>andThen\<close> is Go's \<^verbatim>\<open>if err != nil { return Outcome{}, err }\<close>, \<open>lift\<close> a call that returns a value
  and an error, \<open>liftErr\<close> one that returns an error alone, \<open>wrapErr\<close> the wrapping of the error.
\<close>

definition andThen :: "('a, 'w) run \<Rightarrow> ('a \<Rightarrow> 'w \<Rightarrow> ('b, 'w) run) \<Rightarrow> ('b, 'w) run" where
  "andThen m k =
     (case m of
        None \<Rightarrow> None
      | Some (Panics, w) \<Rightarrow> Some (Panics, w)
      | Some (Returns (Inl err), w) \<Rightarrow> Some (Returns (Inl err), w)
      | Some (Returns (Inr x), w) \<Rightarrow> k x w)"

definition lift :: "(error + 'a) \<times> 'w \<Rightarrow> ('a, 'w) run" where
  "lift r = Some (Returns (fst r), snd r)"

definition liftErr :: "error option \<times> 'w \<Rightarrow> (unit, 'w) run" where
  "liftErr r = Some (Returns (case fst r of Some err \<Rightarrow> Inl err | None \<Rightarrow> Inr ()), snd r)"

definition liftExec :: "error option result \<times> 'w \<Rightarrow> (unit, 'w) run" where
  "liftExec r = (case r of
     (Panics, w) \<Rightarrow> Some (Panics, w)
   | (Returns e, w) \<Rightarrow> liftErr (e, w))"

definition wrapErr :: "string \<Rightarrow> ('a, 'w) run \<Rightarrow> ('a, 'w) run" where
  "wrapErr pre m = (case m of
     Some (Returns (Inl err), w) \<Rightarrow> Some (Returns (Inl (Wrapf pre err [])), w)
   | _ \<Rightarrow> m)"

text \<open>The local variables of \<^verbatim>\<open>Remediate\<close> its two closures share.\<close>

record attemptLog =
  alMachine :: StateMachine
  alEntries :: "AuditEntry list"

definition auditEntry :: "AuditMetadata \<Rightarrow> string \<Rightarrow> DetectionEvent \<Rightarrow> time \<Rightarrow> State \<Rightarrow> string \<Rightarrow> AuditEntry" where
  "auditEntry md action event t state res =
     \<lparr>aeIncidentID = evIncidentID event, aeAttemptNumber = evAttemptNumber event, aeTimestamp = t,
      aePod = path_Join (evNamespace event) (evPodName event), aeState = state, aeAction = action,
      aeResult = res, aeWorkload = Workload md, aeArmLabel = ArmLabel md\<rparr>"

definition recordEntry :: "AuditMetadata \<Rightarrow> 'w Clock \<Rightarrow> 'w AuditWriter \<Rightarrow> string \<Rightarrow> DetectionEvent
    \<Rightarrow> attemptLog \<Rightarrow> State \<Rightarrow> string \<Rightarrow> 'w \<Rightarrow> (AuditEntry \<times> attemptLog, 'w) run" where
  "recordEntry md clock audit action event st state res w =
     (case clkNow clock w of (t, w1) \<Rightarrow>
        let entry = auditEntry md action event t state res in
        andThen (liftErr (Append audit entry w1)) (\<lambda>_ w2.
          Some (Returns (Inr (entry, st\<lparr>alEntries := alEntries st @ [entry]\<rparr>)), w2)))"

definition transition :: "AuditMetadata \<Rightarrow> 'w Clock \<Rightarrow> 'w AuditWriter \<Rightarrow> string \<Rightarrow> DetectionEvent
    \<Rightarrow> attemptLog \<Rightarrow> State \<Rightarrow> string \<Rightarrow> 'w \<Rightarrow> (AuditEntry \<times> attemptLog, 'w) run" where
  "transition md clock audit action event st next res w =
     (case Transition (alMachine st) next of
        (Some err, m) \<Rightarrow> Some (Returns (Inl err), w)
      | (None, m) \<Rightarrow> recordEntry md clock audit action event (st\<lparr>alMachine := m\<rparr>) next res w)"

definition Service_outcome :: "DetectionEvent \<Rightarrow> OutcomeResult \<Rightarrow> time \<Rightarrow> AuditEntry list \<Rightarrow> Outcome" where
  "Service_outcome event res terminalTimestamp entries =
     \<lparr>oResult = res, oMTTR = time_Sub terminalTimestamp (evTimestamp event), oAuditEntries = entries\<rparr>"

definition deploymentRefOf :: "DetectionEvent \<Rightarrow> NamespacedName" where
  "deploymentRefOf event = nsName (evNamespace event) (evOwnerDeployment event)"

definition verificationTargetOf :: "DetectionEvent \<Rightarrow> PodUIDSet option \<Rightarrow> VerificationTarget" where
  "verificationTargetOf event uids =
     \<lparr>vtOriginalPod = nsName (evNamespace event) (evPodName event), vtDeployment = deploymentRefOf event,
      vtContainerName = evContainerName event, vtRestartCount = evRestartCount event, vtPreActionPodUIDs = uids\<rparr>"

text \<open>
  The body of \<^verbatim>\<open>Remediate\<close> once both validations passed, in three parts: up to the recorded Pod
  UIDs, the action and its verification, and the conclusion.
\<close>

definition prepareAttempt :: "AuditMetadata \<Rightarrow> 'w SnapshotStore \<Rightarrow> 'w PodVerifier \<Rightarrow> 'w AuditWriter
    \<Rightarrow> 'w Clock \<Rightarrow> string \<Rightarrow> DetectionEvent \<Rightarrow> 'w \<Rightarrow> (DeploymentSnapshot \<times> PodUIDSet \<times> attemptLog, 'w) run" where
  "prepareAttempt md snapshots verifier audit clock action event w =
     (let trans = transition md clock audit action event in
      andThen (recordEntry md clock audit action event \<lparr>alMachine = NewStateMachine, alEntries = []\<rparr> StateDetected ''received'' w) (\<lambda>(_, st) w.
      andThen (wrapErr ''capture pre-remediation snapshot: '' (lift (Capture snapshots (deploymentRefOf event) w))) (\<lambda>snapshot w.
      andThen (trans st StateSnapshotted ''captured'' w) (\<lambda>(_, st) w.
      andThen (trans st StateRemediating ''started'' w) (\<lambda>(_, st) w.
      andThen (wrapErr ''capture pre-action pod UIDs: '' (lift (pvCapturePreActionPodUIDs verifier (verificationTargetOf event None) w))) (\<lambda>uids w.
        Some (Returns (Inr (snapshot, uids, st)), w)))))))"

definition actAndVerify :: "AuditMetadata \<Rightarrow> 'w PodVerifier \<Rightarrow> 'w RemediationAction \<Rightarrow> 'w AuditWriter \<Rightarrow> 'w Clock
    \<Rightarrow> DetectionEvent \<Rightarrow> PodUIDSet \<Rightarrow> attemptLog \<Rightarrow> 'w \<Rightarrow> (VerificationResult \<times> attemptLog, 'w) run" where
  "actAndVerify md verifier action audit clock event uids st w =
     andThen (wrapErr ''execute injected remediation action: '' (liftExec (raExecute action event w))) (\<lambda>_ w.
     andThen (transition md clock audit (raName action) event st StateVerifying ''started'' w) (\<lambda>(_, st) w.
     andThen (wrapErr ''verify remediation: '' (Option.bind (pvVerify verifier (verificationTargetOf event (Some uids)) w) lift)) (\<lambda>verification w.
       Some (Returns (Inr (verification, st)), w))))"

definition concludeAttempt :: "AuditMetadata \<Rightarrow> 'w Clock \<Rightarrow> 'w AuditWriter \<Rightarrow> 'w SnapshotStore \<Rightarrow> string \<Rightarrow> DetectionEvent
    \<Rightarrow> DeploymentSnapshot \<Rightarrow> VerificationResult \<Rightarrow> attemptLog \<Rightarrow> 'w \<Rightarrow> (Outcome, 'w) run" where
  "concludeAttempt md clock audit snapshots action event snapshot verification st w =
     (let trans = transition md clock audit action event in
      if vrRecovered verification then
        andThen (trans st StateRecovered ''recovered'' w) (\<lambda>(terminalEntry, st) w.
        andThen (trans st StateLogged (OutcomeResult_string OutcomeRecovered) w) (\<lambda>(_, st) w.
          Some (Returns (Inr (Service_outcome event OutcomeRecovered (aeTimestamp terminalEntry) (alEntries st))), w)))
      else
        andThen (trans st StateRollingBack (vrReason verification) w) (\<lambda>(_, st) w.
        andThen (wrapErr ''restore pre-remediation snapshot: '' (liftErr (Restore snapshots snapshot w))) (\<lambda>_ w.
        andThen (trans st StateRolledBack ''restored'' w) (\<lambda>(terminalEntry, st) w.
        andThen (trans st StateLogged (OutcomeResult_string OutcomeRolledBack) w) (\<lambda>(_, st) w.
          Some (Returns (Inr (Service_outcome event OutcomeRolledBack (aeTimestamp terminalEntry) (alEntries st))), w))))))"

definition runAttempt :: "AuditMetadata \<Rightarrow> 'w SnapshotStore \<Rightarrow> 'w PodVerifier \<Rightarrow> 'w RemediationAction \<Rightarrow> 'w AuditWriter
    \<Rightarrow> 'w Clock \<Rightarrow> DetectionEvent \<Rightarrow> 'w \<Rightarrow> (Outcome, 'w) run" where
  "runAttempt md snapshots verifier action audit clock event w =
     andThen (prepareAttempt md snapshots verifier audit clock (raName action) event w) (\<lambda>(snapshot, uids, st) w.
     andThen (actAndVerify md verifier action audit clock event uids st w) (\<lambda>(verification, st) w.
       concludeAttempt md clock audit snapshots (raName action) event snapshot verification st w))"

definition Remediate :: "'w Service \<Rightarrow> DetectionEvent \<Rightarrow> 'w \<Rightarrow> (Outcome, 'w) run" where
  "Remediate s event w =
     (case Service_validate s of
        Some err \<Rightarrow> Some (Returns (Inl err), w)
      | None \<Rightarrow>
        (case validateDetectionEvent event of
           Some err \<Rightarrow> Some (Returns (Inl err), w)
         | None \<Rightarrow>
           (case (svSnapshots s, svVerifier s, svAction s, svAudit s, svClock s) of
              (Some snapshots, Some verifier, Some action, Some audit, Some clock) \<Rightarrow>
                runAttempt (svMetadata s) snapshots verifier action audit clock event w
            | _ \<Rightarrow> Some (Panics, w))))"

section \<open>The calls of an attempt\<close>

datatype call =
    CNow time
  | CAppend AuditEntry "error option"
  | CCapture NamespacedName "error + DeploymentSnapshot"
  | CCaptureUIDs VerificationTarget "error + PodUIDSet"
  | CExecute DetectionEvent "error option result"
  | CVerify VerificationTarget "error + VerificationResult"
  | CRestore DeploymentSnapshot "error option"

definition called :: "('r \<Rightarrow> call) \<Rightarrow> ('w \<Rightarrow> 'r \<times> 'w) \<Rightarrow> 'w \<times> call list \<Rightarrow> 'r \<times> 'w \<times> call list" where
  "called mk f s = (case f (fst s) of (r, w') \<Rightarrow> (r, (w', snd s @ [mk r])))"

definition callSnapshots :: "'w SnapshotStore \<Rightarrow> ('w \<times> call list) SnapshotStore" where
  "callSnapshots d = \<lparr>Capture = (\<lambda>ref. called (CCapture ref) (Capture d ref)), Restore = (\<lambda>snap. called (CRestore snap) (Restore d snap))\<rparr>"

definition callVerifier :: "'w PodVerifier \<Rightarrow> ('w \<times> call list) PodVerifier" where
  "callVerifier d = \<lparr>pvCapturePreActionPodUIDs = (\<lambda>t. called (CCaptureUIDs t) (pvCapturePreActionPodUIDs d t)),
     pvVerify = (\<lambda>t s. map_option (\<lambda>(r, w'). (r, (w', snd s @ [CVerify t r]))) (pvVerify d t (fst s)))\<rparr>"

definition callAction :: "'w RemediationAction \<Rightarrow> ('w \<times> call list) RemediationAction" where
  "callAction d = \<lparr>raName = raName d, raExecute = (\<lambda>ev. called (CExecute ev) (raExecute d ev))\<rparr>"

definition callAudit :: "'w AuditWriter \<Rightarrow> ('w \<times> call list) AuditWriter" where
  "callAudit d = \<lparr>Append = (\<lambda>e. called (CAppend e) (Append d e))\<rparr>"

definition callClock :: "'w Clock \<Rightarrow> ('w \<times> call list) Clock" where
  "callClock d = \<lparr>clkNow = called CNow (clkNow d),
     clkAfter = (\<lambda>d' s. case clkAfter d d' (fst s) of (r, w') \<Rightarrow> (r, (w', snd s)))\<rparr>"

definition traceService :: "'w Service \<Rightarrow> ('w \<times> call list) Service" where
  "traceService s =
     \<lparr>svSnapshots = map_option callSnapshots (svSnapshots s), svVerifier = map_option callVerifier (svVerifier s),
      svAction = map_option callAction (svAction s), svAudit = map_option callAudit (svAudit s),
      svClock = map_option callClock (svClock s), svMetadata = svMetadata s\<rparr>"

lemma called_eq: "called mk f (w, tr) = (r, (w', tr')) \<longleftrightarrow> f w = (r, w') \<and> tr' = tr @ [mk r]"
  by (auto simp: called_def split: prod.splits)

lemma called_lift: "lift (called mk f (w, tr)) = Some (Returns r, (w', tr')) \<longleftrightarrow> f w = (r, w') \<and> tr' = tr @ [mk r]"
  by (auto simp: lift_def called_def split: prod.splits)

lemma andThen_Some:
  "andThen m k = Some (r, w') \<longleftrightarrow>
     (m = Some (Panics, w') \<and> r = Panics) \<or>
     (\<exists>e. m = Some (Returns (Inl e), w') \<and> r = Returns (Inl e)) \<or>
     (\<exists>x w1. m = Some (Returns (Inr x), w1) \<and> k x w1 = Some (r, w'))"
  by (auto simp: andThen_def split: option.splits prod.splits result.splits sum.splits)

end
