(* ===== verification/Incident.thy ===== *)
theory Incident
  imports Service
begin

text \<open>
  The incident ledger of the controller, \<^verbatim>\<open>internal/controller/incident.go\<close> and \<^verbatim>\<open>escalation.go\<close>: one
  record per Deployment with its attempt budget, backoff, cooldown and frozen evidence.

  Every method of the ledger runs under one mutex, so each is one function from the map of records to
  the map it leaves. A record is reached through a pointer in Go; the fields read through it after the
  lock was released are the id, which no method changes, and others that are only logged. The fresh
  identifier of a new record (\<^verbatim>\<open>uuid.NewUUID\<close>) is an argument.

  Shown here: the decision of \<^verbatim>\<open>beginAttempt\<close> on every branch, and what a changed generation does to
  a record that was given up on. The theory \<^verbatim>\<open>Concurrency\<close> shows what holds of the ledger when any
  number of reconciles and remediations interleave.
\<close>

section \<open>Records\<close>

definition MaxAttempts :: int where
  "MaxAttempts = 3"

definition AttemptBackoffBase :: duration where
  "AttemptBackoffBase = 30 * Second"

definition CooldownPeriod :: duration where
  "CooldownPeriod = 5 * Minute"

definition outcomeRecovered :: string where "outcomeRecovered = ''recovered''"
definition outcomeExhausted :: string where "outcomeExhausted = ''exhausted''"
definition outcomeEscalated :: string where "outcomeEscalated = ''escalated''"
definition outcomeRejected :: string where "outcomeRejected = ''rejected''"

lemmas outcome_defs = outcomeRecovered_def outcomeExhausted_def outcomeEscalated_def outcomeRejected_def

record incidentRecord =
  irId :: string
  irAttemptCount :: int
  irFirstDetectedAt :: time
  irLastAttemptAt :: time
  irTerminalOutcome :: string
  irTerminalAt :: time
  irGeneration :: int
  irInFlight :: bool
  irLogs :: string
  irEvents :: "string list"
  irEvidenceCaptured :: bool

record incidentClosure =
  icId :: string
  icOutcome :: string
  icAttempts :: int

datatype admission = admitProceed | admitSkip | admitExhausted

type_synonym incidents = "string \<rightharpoonup> incidentRecord"

definition incidentKey :: "string \<Rightarrow> string \<Rightarrow> string" where
  "incidentKey namespace ownerDeployment = namespace @ ''/'' @ ownerDeployment"

definition newRecord :: "string \<Rightarrow> time \<Rightarrow> incidentRecord" where
  "newRecord newID now = \<lparr>irId = newID, irAttemptCount = 0, irFirstDetectedAt = now, irLastAttemptAt = 0, irTerminalOutcome = [],
     irTerminalAt = 0, irGeneration = 0, irInFlight = False, irLogs = [], irEvents = [], irEvidenceCaptured = False\<rparr>"

section \<open>The methods\<close>

text \<open>
  A Go shift by a negative count panics; the result wraps at 64 bits.
\<close>

definition attemptBackoff :: "int \<Rightarrow> duration result" where
  "attemptBackoff completedAttempts =
     (if completedAttempts - 1 < 0 then Panics
      else Returns (sint (push_bit (nat (completedAttempts - 1)) (word_of_int AttemptBackoffBase :: 64 word))))"

text \<open>
  \<^verbatim>\<open>beginAttempt\<close> in its order: drop a finished record whose Deployment changed, leave a finished record alone
  or let it expire, create a record, then claim it unless it is claimed, spent or backing off.
\<close>

definition droppedIfChanged :: "int \<Rightarrow> incidentRecord option \<Rightarrow> incidentRecord option" where
  "droppedIfChanged generation record =
     (case record of
        None \<Rightarrow> None
      | Some r \<Rightarrow> if irTerminalOutcome r \<noteq> [] \<and> generation \<noteq> irGeneration r then None else Some r)"

definition quiet :: "time \<Rightarrow> incidentRecord \<Rightarrow> bool" where
  "quiet now r \<longleftrightarrow> irTerminalOutcome r = outcomeExhausted \<or> time_Sub now (irTerminalAt r) < CooldownPeriod"

definition claimRecord :: "string \<Rightarrow> time \<Rightarrow> incidents \<Rightarrow> incidentRecord \<Rightarrow> (incidentRecord \<times> admission \<times> incidents) result" where
  "claimRecord key now m record =
     (if irInFlight record then Returns (record, admitSkip, m(key \<mapsto> record))
      else if irAttemptCount record \<ge> MaxAttempts
      then (let r = record\<lparr>irTerminalOutcome := outcomeExhausted, irTerminalAt := now\<rparr> in Returns (r, admitExhausted, m(key \<mapsto> r)))
      else let claimed = (let r = record\<lparr>irInFlight := True\<rparr> in Returns (r, admitProceed, m(key \<mapsto> r))) in
        if irAttemptCount record > 0
        then (case attemptBackoff (irAttemptCount record) of
                Panics \<Rightarrow> Panics
              | Returns d \<Rightarrow> if time_Sub now (irLastAttemptAt record) < d then Returns (record, admitSkip, m(key \<mapsto> record)) else claimed)
        else claimed)"

definition beginAttempt :: "string \<Rightarrow> string \<Rightarrow> int \<Rightarrow> time \<Rightarrow> incidents \<Rightarrow> (incidentRecord \<times> admission \<times> incidents) result" where
  "beginAttempt newID key generation now m =
     (case droppedIfChanged generation (m key) of
        Some record \<Rightarrow>
          if irTerminalOutcome record \<noteq> []
          then if quiet now record then Returns (record, admitSkip, m)
               else claimRecord key now m ((newRecord newID now)\<lparr>irGeneration := generation\<rparr>)
          else claimRecord key now m (record\<lparr>irGeneration := generation\<rparr>)
      | None \<Rightarrow> claimRecord key now m ((newRecord newID now)\<lparr>irGeneration := generation\<rparr>))"

definition recordAttempt :: "string \<Rightarrow> incidents \<Rightarrow> int \<times> incidents" where
  "recordAttempt key m =
     (case m key of
        None \<Rightarrow> (0, m)
      | Some r \<Rightarrow> (irAttemptCount r + 1, m(key \<mapsto> r\<lparr>irAttemptCount := irAttemptCount r + 1\<rparr>)))"

definition endAttempt :: "string \<Rightarrow> string \<Rightarrow> time \<Rightarrow> incidents \<Rightarrow> incidents" where
  "endAttempt key outcome now m =
     (case m key of
        None \<Rightarrow> m
      | Some r \<Rightarrow>
        if outcome = [] \<or> outcome = OutcomeResult_string OutcomeRolledBack
        then m(key \<mapsto> r\<lparr>irInFlight := False, irLastAttemptAt := now\<rparr>)
        else m(key \<mapsto> r\<lparr>irInFlight := False, irTerminalOutcome := outcome, irTerminalAt := now\<rparr>))"

definition deploymentGeneration :: "'w Reader \<Rightarrow> string \<Rightarrow> string \<Rightarrow> 'w \<Rightarrow> (int \<times> error option) \<times> 'w" where
  "deploymentGeneration reader namespace name w =
     (case GetDeployment reader (nsName namespace name) w of
        (Inl err, w1) \<Rightarrow> ((0, Some err), w1)
      | (Inr deployment, w1) \<Rightarrow> ((Generation (depMeta deployment), None), w1))"

definition claimHeld :: "string \<Rightarrow> incidents \<Rightarrow> bool" where
  "claimHeld key m = (case m key of None \<Rightarrow> False | Some r \<Rightarrow> irInFlight r)"

definition incidentEvidence :: "string \<Rightarrow> incidents \<Rightarrow> string \<times> string list \<times> bool" where
  "incidentEvidence key m =
     (case m key of
        None \<Rightarrow> ([], [], False)
      | Some r \<Rightarrow> if \<not> irEvidenceCaptured r then ([], [], False) else (irLogs r, irEvents r, True))"

definition freezeEvidence :: "string \<Rightarrow> string \<Rightarrow> string list \<Rightarrow> incidents \<Rightarrow> incidents" where
  "freezeEvidence key logs events m =
     (case m key of
        None \<Rightarrow> m
      | Some r \<Rightarrow> m(key \<mapsto> r\<lparr>irLogs := logs, irEvents := events, irEvidenceCaptured := True\<rparr>))"

definition closedIncident :: "string \<Rightarrow> incidents \<Rightarrow> incidentClosure option" where
  "closedIncident key m =
     (case m key of
        None \<Rightarrow> None
      | Some r \<Rightarrow>
        if irTerminalOutcome r = [] then None
        else Some \<lparr>icId = irId r, icOutcome = irTerminalOutcome r, icAttempts = irAttemptCount r\<rparr>)"

text \<open>
  The audit line of an incident that ended outside an attempt, stamped with the wall clock
  (\<^verbatim>\<open>time.Now\<close>, an argument); a failed append is only logged.
\<close>

definition closureEntry :: "AuditMetadata \<Rightarrow> string \<Rightarrow> incidentClosure \<Rightarrow> time \<Rightarrow> AuditEntry" where
  "closureEntry md podRef closure now =
     \<lparr>aeIncidentID = icId closure, aeAttemptNumber = icAttempts closure, aeTimestamp = now, aePod = podRef,
      aeState = StateLogged, aeAction = [], aeResult = icOutcome closure, aeWorkload = Workload md, aeArmLabel = ArmLabel md\<rparr>"

definition auditIncidentClosed :: "('w \<Rightarrow> time \<times> 'w) \<Rightarrow> 'w AuditWriter option \<Rightarrow> AuditMetadata \<Rightarrow> string \<Rightarrow> incidentClosure \<Rightarrow> 'w \<Rightarrow> 'w" where
  "auditIncidentClosed timeNow audit md podRef closure w =
     (case audit of
        None \<Rightarrow> w
      | Some a \<Rightarrow> (case timeNow w of (now, w1) \<Rightarrow> snd (Append a (closureEntry md podRef closure now) w1)))"

definition ShouldEscalate :: "bool \<Rightarrow> error option \<Rightarrow> bool" where
  "ShouldEscalate safeForAutomation classifyErr = (if classifyErr \<noteq> None then True else \<not> safeForAutomation)"

section \<open>The decision\<close>

text \<open>
  The proofs take \<^verbatim>\<open>beginAttempt\<close> apart at the record it decides on: a finished one counts only while its Deployment is unchanged
  and it is still quiet. No property is stated through these two definitions.
\<close>

definition liveRecord :: "int \<Rightarrow> time \<Rightarrow> incidentRecord option \<Rightarrow> incidentRecord option" where
  "liveRecord generation now record =
     (case record of
        None \<Rightarrow> None
      | Some r \<Rightarrow> if irTerminalOutcome r \<noteq> [] \<and> (generation \<noteq> irGeneration r \<or> \<not> quiet now r) then None else Some r)"

lemma quiet_iff: "quiet now r \<longleftrightarrow> irTerminalOutcome r = ''exhausted'' \<or> now - irTerminalAt r < 300 * Second"
  by (simp add: quiet_def outcomeExhausted_def CooldownPeriod_def time_Sub_less_iff duration_defs)

definition freshRecord :: "string \<Rightarrow> int \<Rightarrow> time \<Rightarrow> incidentRecord" where
  "freshRecord newID generation now = (newRecord newID now)\<lparr>irGeneration := generation\<rparr>"

lemma beginAttempt_live:
  "beginAttempt newID key generation now m =
     (case liveRecord generation now (m key) of
        None \<Rightarrow> claimRecord key now m (freshRecord newID generation now)
      | Some r \<Rightarrow>
        if irTerminalOutcome r \<noteq> [] then Returns (r, admitSkip, m)
        else claimRecord key now m (r\<lparr>irGeneration := generation\<rparr>))"
  by (auto simp: beginAttempt_def liveRecord_def droppedIfChanged_def freshRecord_def split: option.splits)

lemma liveRecord_Some [simp]: "liveRecord g now record = Some r \<Longrightarrow> record = Some r"
  by (auto simp: liveRecord_def split: option.splits if_splits)

lemma liveRecord_finished:
  "liveRecord g now (Some r) = Some r' \<Longrightarrow> irTerminalOutcome r \<noteq> [] \<Longrightarrow> g = irGeneration r \<and> quiet now r"
  by (simp add: liveRecord_def del: liveRecord_Some split: if_split_asm)

lemma freshRecord_sel [simp]:
  "irId (freshRecord i g now) = i" "irAttemptCount (freshRecord i g now) = 0" "irInFlight (freshRecord i g now) = False"
  "irTerminalOutcome (freshRecord i g now) = []" "irGeneration (freshRecord i g now) = g"
  "irEvidenceCaptured (freshRecord i g now) = False" "irFirstDetectedAt (freshRecord i g now) = now"
  by (simp_all add: freshRecord_def newRecord_def)

definition backoffAfter :: "int \<Rightarrow> duration" where
  "backoffAfter n = 30 * Second * 2 ^ nat (n - 1)"

lemma attemptBackoff_eq:
  assumes "1 \<le> n" "n < MaxAttempts"
  shows "attemptBackoff n = Returns (backoffAfter n)"
proof -
  from assms have "n = 1 \<or> n = 2" by (auto simp: MaxAttempts_def)
  then show ?thesis
    by (auto simp: attemptBackoff_def AttemptBackoffBase_def duration_defs backoffAfter_def push_bit_eq_mult)
qed

lemma claimRecord_eq:
  assumes "0 \<le> irAttemptCount r"
  shows "claimRecord key now m r =
    (if irInFlight r then Returns (r, admitSkip, m(key \<mapsto> r))
     else if MaxAttempts \<le> irAttemptCount r
     then Returns (r\<lparr>irTerminalOutcome := outcomeExhausted, irTerminalAt := now\<rparr>, admitExhausted,
            m(key \<mapsto> r\<lparr>irTerminalOutcome := outcomeExhausted, irTerminalAt := now\<rparr>))
     else if 0 < irAttemptCount r \<and> now - irLastAttemptAt r < backoffAfter (irAttemptCount r) then Returns (r, admitSkip, m(key \<mapsto> r))
     else Returns (r\<lparr>irInFlight := True\<rparr>, admitProceed, m(key \<mapsto> r\<lparr>irInFlight := True\<rparr>)))"
proof -
  have "time_Sub now l < backoffAfter n \<longleftrightarrow> now - l < backoffAfter n" if "1 \<le> n" "n < MaxAttempts" for l n
  proof -
    from that have "n = 1 \<or> n = 2" by (auto simp: MaxAttempts_def)
    then show ?thesis by (auto simp: time_Sub_def duration_defs backoffAfter_def)
  qed
  with assms show ?thesis
    by (auto simp: claimRecord_def Let_def attemptBackoff_eq)
qed

text \<open>
  C23: the admission decision. On a ledger whose counters are not negative, \<^verbatim>\<open>beginAttempt\<close> returns (no shift panics), touches no other
  Deployment's record, and decides by these rules. A finished record answers for its Deployment as long as the generation is the
  recorded one and it is exhausted or younger than the cooldown of 5 minutes: skip, nothing changed. Otherwise, with no record to go on, a new
  incident is claimed. With an active record: skip when it is claimed; end it exhausted when 3 attempts were made; skip while less than 30
  seconds (after the first attempt) or 60 seconds (after the second) have passed since the last attempt finished; otherwise claim it.
\<close>

theorem admission_decision:
  assumes "\<And>r. m key = Some r \<Longrightarrow> 0 \<le> irAttemptCount r"
  shows "\<exists>r d m'. beginAttempt newID key generation now m = Returns (r, d, m') \<and> (\<forall>k. k \<noteq> key \<longrightarrow> m' k = m k) \<and> m' key = Some r \<and>
    (let fresh = (d = admitProceed \<and> r = \<lparr>irId = newID, irAttemptCount = 0, irFirstDetectedAt = now, irLastAttemptAt = 0,
          irTerminalOutcome = [], irTerminalAt = 0, irGeneration = generation, irInFlight = True, irLogs = [], irEvents = [],
          irEvidenceCaptured = False\<rparr>)
     in case m key of
       None \<Rightarrow> fresh
     | Some r0 \<Rightarrow>
       if irTerminalOutcome r0 \<noteq> []
       then if generation = irGeneration r0 \<and> (irTerminalOutcome r0 = ''exhausted'' \<or> now - irTerminalAt r0 < 300 * Second)
            then d = admitSkip \<and> r = r0 else fresh
       else let r1 = r0\<lparr>irGeneration := generation\<rparr> in
         if irInFlight r0 then d = admitSkip \<and> r = r1
         else if 3 \<le> irAttemptCount r0 then d = admitExhausted \<and> r = r1\<lparr>irTerminalOutcome := ''exhausted'', irTerminalAt := now\<rparr>
         else if irAttemptCount r0 = 1 \<and> now - irLastAttemptAt r0 < 30 * Second \<or> irAttemptCount r0 = 2 \<and> now - irLastAttemptAt r0 < 60 * Second
         then d = admitSkip \<and> r = r1
         else d = admitProceed \<and> r = r1\<lparr>irInFlight := True\<rparr>)"
proof (cases "liveRecord generation now (m key)")
  case None
  note live = this
  show ?thesis
  proof (cases "m key")
    case None
    with live show ?thesis
      by (simp add: beginAttempt_live claimRecord_eq MaxAttempts_def freshRecord_def newRecord_def)
  next
    case (Some r0)
    with live have "irTerminalOutcome r0 \<noteq> []"
      "\<not> (generation = irGeneration r0 \<and> (irTerminalOutcome r0 = ''exhausted'' \<or> now - irTerminalAt r0 < 300 * Second))"
      by (auto simp: liveRecord_def quiet_iff split: if_splits)
    with live Some show ?thesis
      by (simp only: beginAttempt_live option.case Let_def if_True if_False simp_thms not_False_eq_True)
        (simp add: claimRecord_eq MaxAttempts_def freshRecord_def newRecord_def)
  qed
next
  case (Some r0)
  then have r0: "m key = Some r0" and cnt: "0 \<le> irAttemptCount r0" using assms by auto
  show ?thesis
  proof (cases "irTerminalOutcome r0 = []")
    case True
    consider "irAttemptCount r0 = 0" | "irAttemptCount r0 = 1" | "irAttemptCount r0 = 2" | "3 \<le> irAttemptCount r0" using cnt by linarith
    then show ?thesis
      using Some True
      by cases (simp_all add: beginAttempt_live claimRecord_eq MaxAttempts_def outcome_defs backoffAfter_def r0 Let_def)
  next
    case False
    have q: "generation = irGeneration r0 \<and> (irTerminalOutcome r0 = ''exhausted'' \<or> now - irTerminalAt r0 < 300 * Second)"
      using liveRecord_finished [OF Some [unfolded r0] False] unfolding quiet_iff .
    have b: "beginAttempt newID key generation now m = Returns (r0, admitSkip, m)"
      by (simp only: beginAttempt_live Some option.case False simp_thms if_True not_False_eq_True)
    show ?thesis
      unfolding b r0 option.case Let_def
      by (intro exI [of _ r0] exI [of _ admitSkip] exI [of _ m]) (simp only: False q r0 if_True simp_thms not_False_eq_True)
  qed
qed

definition exampleRecord :: incidentRecord where
  "exampleRecord = (freshRecord ''i-1'' 4 100)\<lparr>irAttemptCount := 1, irLastAttemptAt := 1000\<rparr>"

theorem admission_decision_witness:
  "\<exists>r m'. beginAttempt ''i-2'' ''shop/checkout'' 5 (1000 + 30 * Second) [''shop/checkout'' \<mapsto> exampleRecord] = Returns (r, admitProceed, m') \<and>
     irId r = ''i-1'' \<and> irInFlight r \<and> irGeneration r = 5"
  using admission_decision [where m = "[''shop/checkout'' \<mapsto> exampleRecord]" and key = "''shop/checkout''" and newID = "''i-2''"
      and generation = 5 and now = "1000 + 30 * Second"]
  by (auto simp: exampleRecord_def Let_def)

text \<open>
  C37: a failed read of the Deployment revives an incident that was given up on. The controller reads the Deployment's generation before it asks
  for admission and goes on with 0 when the read fails. For an exhausted record of a Deployment whose generation was read before
  (Kubernetes numbers them from 1), \<^verbatim>\<open>beginAttempt\<close> then drops the record and claims a new incident with a full budget, at any time.
\<close>

theorem failed_read_revives_exhausted:
  assumes "GetDeployment reader (nsName namespace name) w = (Inl err, w1)"
    and "m key = Some r" and "irTerminalOutcome r = ''exhausted''" and "irGeneration r \<noteq> 0"
  shows "\<exists>e. deploymentGeneration reader namespace name w = ((0, Some e), w1) \<and>
    (\<exists>r' m'. beginAttempt newID key 0 now m = Returns (r', admitProceed, m') \<and>
      m' key = Some r' \<and> irId r' = newID \<and> irAttemptCount r' = 0 \<and> irTerminalOutcome r' = [] \<and> irInFlight r')"
  using assms
  by (simp add: deploymentGeneration_def beginAttempt_live liveRecord_def claimRecord_eq MaxAttempts_def)

theorem failed_read_revives_exhausted_witness:
  "\<exists>r' m'. beginAttempt ''i-2'' ''shop/checkout'' 0 2000 [''shop/checkout'' \<mapsto> exampleRecord\<lparr>irTerminalOutcome := ''exhausted''\<rparr>]
       = Returns (r', admitProceed, m') \<and> irId r' = ''i-2'' \<and> irAttemptCount r' = 0"
proof -
  let ?w = "\<lparr>clNow = 0, clPods = [], clDeployments = [], clReplicaSets = []\<rparr>"
  let ?r = "exampleRecord\<lparr>irTerminalOutcome := ''exhausted''\<rparr>"
  have "GetDeployment clusterReader (nsName ''shop'' ''checkout'') ?w = (Inl (notFound ''checkout''), ?w)"
    by (simp add: clusterReader_def find_obj_def)
  from failed_read_revives_exhausted [OF this, where m = "[''shop/checkout'' \<mapsto> ?r]" and key = "''shop/checkout''"
      and r = ?r and newID = "''i-2''" and now = 2000] show ?thesis
    by (auto simp: exampleRecord_def)
qed

text \<open>
  C38: the controller's own change lifts the cooldown. An incident is admitted while its Deployment has generation \<open>g\<close>, an attempt is recorded
  and ends recovered, and the action gave the Deployment another generation \<open>g'\<close>, as a rollback does. The next crash of the same Deployment
  is then claimed as a new incident at any time, also within the 5 minutes of cooldown: the recorded generation is the one read before the action.
  With the generation unchanged it is skipped.
\<close>

theorem own_change_lifts_cooldown:
  assumes "beginAttempt i key g t0 m = Returns (r, admitProceed, m1)" and "g' \<noteq> g"
  shows "\<exists>r' m'. beginAttempt j key g' t2 (endAttempt key ''recovered'' t1 (snd (recordAttempt key (freezeEvidence key logs events m1))))
      = Returns (r', admitProceed, m') \<and> irId r' = j \<and> irAttemptCount r' = 0 \<and>
    (\<exists>r0. beginAttempt j key g t1 (endAttempt key ''recovered'' t1 (snd (recordAttempt key (freezeEvidence key logs events m1)))) =
       Returns (r0, admitSkip, endAttempt key ''recovered'' t1 (snd (recordAttempt key (freezeEvidence key logs events m1)))))"
proof -
  have m1: "m1 key = Some r \<and> irGeneration r = g"
    using assms(1) by (auto simp: beginAttempt_live claimRecord_def Let_def split: option.splits if_splits result.splits)
  then show ?thesis
    using assms(2)
    by (simp add: beginAttempt_live liveRecord_def endAttempt_def recordAttempt_def freezeEvidence_def claimRecord_eq
        MaxAttempts_def quiet_def time_Sub_def CooldownPeriod_def duration_defs)
qed

theorem own_change_lifts_cooldown_witness:
  "\<exists>r1 m1 r' m'. beginAttempt ''i-1'' ''shop/checkout'' 4 100 Map.empty = Returns (r1, admitProceed, m1) \<and>
     beginAttempt ''i-2'' ''shop/checkout'' 5 (200 + Second) (endAttempt ''shop/checkout'' ''recovered'' 200 (snd (recordAttempt ''shop/checkout''
       (freezeEvidence ''shop/checkout'' [] [] m1)))) = Returns (r', admitProceed, m') \<and> irId r' = ''i-2''"
proof -
  obtain r1 m1 where b: "beginAttempt ''i-1'' ''shop/checkout'' 4 100 Map.empty = Returns (r1, admitProceed, m1)"
    by (simp add: beginAttempt_live liveRecord_def claimRecord_eq MaxAttempts_def)
  from own_change_lifts_cooldown [OF b, where g' = 5 and j = "''i-2''" and ?t2.0 = "200 + Second" and ?t1.0 = 200
      and logs = "[]" and events = "[]"] b show ?thesis by auto
qed

end
