(* ===== verification/Concurrency.thy ===== *)
theory Concurrency
  imports Incident
begin

text \<open>
  The ledger under concurrency. The controller runs many reconciles at once, and each dispatched
  remediation goes on in its own goroutine after its reconcile returned
  (\<^verbatim>\<open>internal/controller/pod_controller.go\<close>); they share the ledger, whose methods are atomic. A thread here is
  a reconcile together with the goroutine it dispatches; \<open>step\<close> lets any thread make its next ledger
  call, in any order and at any time, and records in a history which attempts were dispatched and
  finished. This theory proves the invariant of the reachable states, in two parts: claims and records agree
  (\<open>claims_ok\<close>, \<open>records_ok\<close>), and the history is in order (\<open>hist_ok\<close>). The theory \<^verbatim>\<open>Interleavings\<close> states
  what follows from it.
\<close>

section \<open>Threads and steps\<close>

text \<open>
  Where a thread is: \<open>Claimed key id c\<close> after \<^verbatim>\<open>admitProceed\<close> at time \<open>c\<close>, \<open>Collecting\<close> when it found no frozen
  evidence, \<open>Ready\<close> once it has the evidence, \<open>Running key id n\<close> while attempt \<open>n\<close> runs.
\<close>

datatype phase =
    Idle
  | Claimed string string time
  | Collecting string string time
  | Ready string string time
  | Running string string int

datatype event = HDispatch string int time | HFinish string int time

record system =
  ledger :: incidents
  threads :: "nat \<Rightarrow> phase"
  usedIds :: "string set"
  hist :: "event list"

definition initialSystem :: system where
  "initialSystem = \<lparr>ledger = Map.empty, threads = (\<lambda>_. Idle), usedIds = {}, hist = []\<rparr>"

definition attemptOutcomes :: "string set" where
  "attemptOutcomes = {[], ''recovered'', ''rolled_back''}"

inductive step :: "system \<Rightarrow> system \<Rightarrow> bool" where
  admit: "threads s t = Idle \<Longrightarrow> newID \<notin> usedIds s \<Longrightarrow>
     beginAttempt newID key g now (ledger s) = Returns (r, admitProceed, m) \<Longrightarrow>
     step s (s\<lparr>ledger := m, threads := (threads s)(t := Claimed key (irId r) now), usedIds := insert newID (usedIds s)\<rparr>)"
| refuse: "threads s t = Idle \<Longrightarrow> newID \<notin> usedIds s \<Longrightarrow>
     beginAttempt newID key g now (ledger s) = Returns (r, d, m) \<Longrightarrow> d \<noteq> admitProceed \<Longrightarrow>
     step s (s\<lparr>ledger := m, usedIds := insert newID (usedIds s)\<rparr>)"
| evidence: "threads s t = Claimed key i c \<Longrightarrow> incidentEvidence key (ledger s) = (logs, events, frozen) \<Longrightarrow>
     step s (s\<lparr>threads := (threads s)(t := if frozen then Ready key i c else Collecting key i c)\<rparr>)"
| freeze: "threads s t = Collecting key i c \<Longrightarrow>
     step s (s\<lparr>ledger := freezeEvidence key logs events (ledger s), threads := (threads s)(t := Ready key i c)\<rparr>)"
| giveUp: "threads s t = Claimed key i c \<or> threads s t = Ready key i c \<Longrightarrow> outcome \<in> {outcomeEscalated, outcomeRejected} \<Longrightarrow>
     step s (s\<lparr>ledger := endAttempt key outcome now (ledger s), threads := (threads s)(t := Idle)\<rparr>)"
| dispatch: "threads s t = Ready key i c \<Longrightarrow> recordAttempt key (ledger s) = (n, m) \<Longrightarrow>
     step s (s\<lparr>ledger := m, threads := (threads s)(t := Running key i n), hist := hist s @ [HDispatch i n c]\<rparr>)"
| finish: "threads s t = Running key i n \<Longrightarrow> outcome \<in> attemptOutcomes \<Longrightarrow>
     step s (s\<lparr>ledger := endAttempt key outcome now (ledger s), threads := (threads s)(t := Idle), hist := hist s @ [HFinish i n now]\<rparr>)"

inductive reachable :: "system \<Rightarrow> bool" where
  reachable_init: "reachable initialSystem"
| reachable_step: "reachable s \<Longrightarrow> step s s' \<Longrightarrow> reachable s'"

fun holds :: "phase \<Rightarrow> (string \<times> string) option" where
  "holds Idle = None"
| "holds (Claimed key i c) = Some (key, i)"
| "holds (Collecting key i c) = Some (key, i)"
| "holds (Ready key i c) = Some (key, i)"
| "holds (Running key i n) = Some (key, i)"

section \<open>The effect of an admission\<close>

lemma beginAttempt_effect:
  assumes "beginAttempt newID key g now m = Returns (r, d, m')" and "\<And>r. m key = Some r \<Longrightarrow> 0 \<le> irAttemptCount r"
  shows "m' = m(key \<mapsto> r) \<and>
    (d = admitProceed \<and> r = (freshRecord newID g now)\<lparr>irInFlight := True\<rparr> \<and> (\<forall>r0. m key = Some r0 \<longrightarrow> irTerminalOutcome r0 \<noteq> []) \<or>
     (\<exists>r0. m key = Some r0 \<and>
       (d = admitSkip \<and> (r = r0 \<or> r = r0\<lparr>irGeneration := g\<rparr>) \<or>
        irTerminalOutcome r0 = [] \<and> \<not> irInFlight r0 \<and>
        (d = admitExhausted \<and> r = r0\<lparr>irGeneration := g, irTerminalOutcome := outcomeExhausted, irTerminalAt := now\<rparr> \<or>
         d = admitProceed \<and> r = r0\<lparr>irGeneration := g, irInFlight := True\<rparr> \<and> irAttemptCount r0 < MaxAttempts \<and>
           (0 < irAttemptCount r0 \<longrightarrow> irLastAttemptAt r0 + backoffAfter (irAttemptCount r0) \<le> now)))))"
proof (cases "liveRecord g now (m key)")
  case None
  then have "\<forall>r0. m key = Some r0 \<longrightarrow> irTerminalOutcome r0 \<noteq> []" by (auto simp: liveRecord_def split: if_splits)
  then show ?thesis using assms(1) None by (auto simp: beginAttempt_live claimRecord_eq MaxAttempts_def)
next
  case (Some r0)
  then have r0: "m key = Some r0" "0 \<le> irAttemptCount r0" using assms(2) by auto
  with Some have "liveRecord g now (Some r0) = Some r0" by metis
  then show ?thesis
    using assms(1) r0 by (auto simp: beginAttempt_live claimRecord_eq split: if_splits)
qed

lemma endAttempt_effect:
  assumes "m key = Some r"
  shows "\<exists>r'. endAttempt key outcome now m = m(key \<mapsto> r') \<and> \<not> irInFlight r' \<and> irAttemptCount r' = irAttemptCount r \<and> irId r' = irId r \<and>
    (irTerminalOutcome r' \<noteq> [] \<or> irLastAttemptAt r' = now \<and> irTerminalOutcome r' = irTerminalOutcome r) \<and>
    (irLogs r', irEvents r', irEvidenceCaptured r') = (irLogs r, irEvents r, irEvidenceCaptured r)"
  using assms by (cases "outcome = [] \<or> outcome = ''rolled_back''") (auto simp: endAttempt_def)

section \<open>The invariant\<close>

fun phase_ok :: "phase \<Rightarrow> incidentRecord \<Rightarrow> bool" where
  "phase_ok (Running key i n) r \<longleftrightarrow> n = irAttemptCount r \<and> 1 \<le> n"
| "phase_ok (Claimed key i c) r \<longleftrightarrow> irAttemptCount r < MaxAttempts \<and> (0 < irAttemptCount r \<longrightarrow> irLastAttemptAt r + backoffAfter (irAttemptCount r) \<le> c)"
| "phase_ok (Collecting key i c) r \<longleftrightarrow> irAttemptCount r < MaxAttempts \<and> (0 < irAttemptCount r \<longrightarrow> irLastAttemptAt r + backoffAfter (irAttemptCount r) \<le> c) \<and> \<not> irEvidenceCaptured r"
| "phase_ok (Ready key i c) r \<longleftrightarrow> irAttemptCount r < MaxAttempts \<and> (0 < irAttemptCount r \<longrightarrow> irLastAttemptAt r + backoffAfter (irAttemptCount r) \<le> c) \<and> irEvidenceCaptured r"
| "phase_ok Idle r \<longleftrightarrow> True"

definition claims_ok :: "system \<Rightarrow> bool" where
  "claims_ok s \<longleftrightarrow>
     (\<forall>t key i. holds (threads s t) = Some (key, i) \<longrightarrow>
        (\<exists>r. ledger s key = Some r \<and> irId r = i \<and> irInFlight r \<and> phase_ok (threads s t) r)) \<and>
     (\<forall>t t' key i i'. holds (threads s t) = Some (key, i) \<longrightarrow> holds (threads s t') = Some (key, i') \<longrightarrow> t = t')"

definition records_ok :: "system \<Rightarrow> bool" where
  "records_ok s \<longleftrightarrow>
     (\<forall>key r. ledger s key = Some r \<longrightarrow>
        0 \<le> irAttemptCount r \<and> irAttemptCount r \<le> MaxAttempts \<and> irId r \<in> usedIds s \<and>
        (irTerminalOutcome r \<noteq> [] \<longrightarrow> \<not> irInFlight r) \<and>
        (irInFlight r \<longrightarrow> (\<exists>t i. holds (threads s t) = Some (key, i)))) \<and>
     (\<forall>k k' r r'. ledger s k = Some r \<longrightarrow> ledger s k' = Some r' \<longrightarrow> irId r = irId r' \<longrightarrow> k = k')"

text \<open>
  One key changes at a time. A step that writes record \<open>r'\<close> at \<open>key\<close> and moves thread \<open>t\<close>, when no other thread holds \<open>key\<close>,
  keeps both parts of the invariant if the new record and phase agree.
\<close>

lemma structure_update:
  assumes inv: "claims_ok s" "records_ok s"
    and alone: "\<And>t' i. t' \<noteq> t \<Longrightarrow> holds (threads s t') \<noteq> Some (key, i)"
    and mine: "\<And>k i. holds (threads s t) = Some (k, i) \<Longrightarrow> k = key"
    and phase: "holds ph' = None \<and> \<not> irInFlight r' \<or> holds ph' = Some (key, irId r') \<and> irInFlight r' \<and> irTerminalOutcome r' = [] \<and> phase_ok ph' r'"
    and count: "0 \<le> irAttemptCount r'" "irAttemptCount r' \<le> MaxAttempts"
    and ids: "usedIds s \<subseteq> U" "irId r' \<in> U" "irId r' \<notin> usedIds s \<or> (\<exists>r0. ledger s key = Some r0 \<and> irId r0 = irId r')"
  shows "claims_ok (s\<lparr>ledger := (ledger s)(key \<mapsto> r'), threads := (threads s)(t := ph'), usedIds := U, hist := h\<rparr>) \<and>
         records_ok (s\<lparr>ledger := (ledger s)(key \<mapsto> r'), threads := (threads s)(t := ph'), usedIds := U, hist := h\<rparr>)"
proof -
  let ?s = "s\<lparr>ledger := (ledger s)(key \<mapsto> r'), threads := (threads s)(t := ph'), usedIds := U, hist := h\<rparr>"
  have key: "k = key" if "holds ph' = Some (k, i)" for k i using phase that by auto
  have c1: "\<exists>r. ledger ?s k = Some r \<and> irId r = i \<and> irInFlight r \<and> phase_ok (threads ?s t') r"
    if "holds (threads ?s t') = Some (k, i)" for t' k i
  proof (cases "t' = t")
    case True
    with that phase key show ?thesis by auto
  next
    case False
    with that alone have "k \<noteq> key" by auto
    with False that inv(1) show ?thesis by (auto simp: claims_ok_def)
  qed
  have c2: "t1 = t2" if h: "holds (threads ?s t1) = Some (k, i1)" "holds (threads ?s t2) = Some (k, i2)" for t1 t2 k i1 i2
  proof (cases "k = key")
    case True
    then have "t1 = t" "t2 = t" using h alone [of t1 i1] alone [of t2 i2] by (simp_all split: if_splits)
    then show ?thesis by simp
  next
    case False
    then have "holds (threads s t1) = Some (k, i1)" "holds (threads s t2) = Some (k, i2)"
      using h key [of k i1] key [of k i2] by (simp_all split: if_splits)
    with inv(1) show ?thesis unfolding claims_ok_def by blast
  qed
  have r1: "0 \<le> irAttemptCount r \<and> irAttemptCount r \<le> MaxAttempts \<and> irId r \<in> usedIds ?s \<and> (irTerminalOutcome r \<noteq> [] \<longrightarrow> \<not> irInFlight r) \<and>
      (irInFlight r \<longrightarrow> (\<exists>t i. holds (threads ?s t) = Some (k, i)))" if r: "ledger ?s k = Some r" for k r
  proof (cases "k = key")
    case True
    with r phase count ids(2) show ?thesis by auto
  next
    case False
    with r have "ledger s k = Some r" by simp
    with inv(2) have "0 \<le> irAttemptCount r \<and> irAttemptCount r \<le> MaxAttempts \<and> irId r \<in> usedIds s \<and> (irTerminalOutcome r \<noteq> [] \<longrightarrow> \<not> irInFlight r)"
      and held: "irInFlight r \<longrightarrow> (\<exists>t i. holds (threads s t) = Some (k, i))" by (auto simp: records_ok_def)
    moreover have "\<exists>t' i. holds (threads ?s t') = Some (k, i)" if "holds (threads s t0) = Some (k, i)" for t0 i
      using that mine False by (intro exI [of _ t0]) auto
    moreover have "usedIds s \<subseteq> usedIds ?s" using ids(1) by simp
    ultimately show ?thesis by blast
  qed
  have other: "k = key" if x: "ledger s k = Some x" "irId x = irId r'" for k x
  proof -
    have "irId r' \<in> usedIds s" using x inv(2) by (metis records_ok_def)
    then obtain r0 where "ledger s key = Some r0" "irId r0 = irId x" using ids(3) x by auto
    with x inv(2) show ?thesis unfolding records_ok_def by metis
  qed
  have r2: "k = k'" if "ledger ?s k = Some x" "ledger ?s k' = Some y" "irId x = irId y" for k k' x y
  proof (cases "k = key \<or> k' = key")
    case True
    then show ?thesis
    proof
      assume "k = key"
      with that(1) have "x = r'" by simp
      moreover from that(2) have "k' \<noteq> key \<Longrightarrow> ledger s k' = Some y" by simp
      ultimately show ?thesis using other [of k' y] that(3) \<open>k = key\<close> by metis
    next
      assume "k' = key"
      with that(2) have "y = r'" by simp
      moreover from that(1) have "k \<noteq> key \<Longrightarrow> ledger s k = Some x" by simp
      ultimately show ?thesis using other [of k x] that(3) \<open>k' = key\<close> by metis
    qed
  next
    case False
    with that(1,2) have "ledger s k = Some x" "ledger s k' = Some y" by simp_all
    with that(3) inv(2) show ?thesis unfolding records_ok_def by blast
  qed
  have "claims_ok ?s" unfolding claims_ok_def using c1 c2 by blast
  moreover have "records_ok ?s" unfolding records_ok_def using r1 r2 by blast
  ultimately show ?thesis ..
qed

text \<open>The holder of a claim finds its own record, untouched by others.\<close>

lemma held_record:
  assumes "claims_ok s" and "holds (threads s t) = Some (key, i)"
  shows "\<exists>r. ledger s key = Some r \<and> irId r = i \<and> irInFlight r \<and> phase_ok (threads s t) r"
  using assms unfolding claims_ok_def by blast

lemma held_alone:
  assumes "claims_ok s" and "holds (threads s t) = Some (key, i)" and "t' \<noteq> t"
  shows "holds (threads s t') \<noteq> Some (key, i')"
  using assms unfolding claims_ok_def by blast

lemma record_facts:
  assumes "records_ok s" and "ledger s key = Some r"
  shows "0 \<le> irAttemptCount r" "irAttemptCount r \<le> MaxAttempts" "irInFlight r \<Longrightarrow> irTerminalOutcome r = []" "irId r \<in> usedIds s"
  using assms unfolding records_ok_def by blast+

lemma held_update:
  assumes inv: "claims_ok s" "records_ok s" and h: "holds (threads s t) = Some (key, i)" and r: "ledger s key = Some r"
    and ph': "holds ph' = None \<and> \<not> irInFlight r' \<or> holds ph' = Some (key, i) \<and> irInFlight r' \<and> irTerminalOutcome r' = [] \<and> phase_ok ph' r'"
    and cnt: "0 \<le> irAttemptCount r'" "irAttemptCount r' \<le> MaxAttempts" and i: "irId r' = irId r"
  shows "claims_ok (s\<lparr>ledger := (ledger s)(key \<mapsto> r'), threads := (threads s)(t := ph'), hist := h\<rparr>) \<and>
         records_ok (s\<lparr>ledger := (ledger s)(key \<mapsto> r'), threads := (threads s)(t := ph'), hist := h\<rparr>)"
proof -
  have id: "irId r = i" "irId r \<in> usedIds s" using held_record [OF inv(1) h] r inv(2) by (auto simp: records_ok_def)
  have "claims_ok (s\<lparr>ledger := (ledger s)(key \<mapsto> r'), threads := (threads s)(t := ph'), usedIds := usedIds s, hist := h\<rparr>) \<and>
        records_ok (s\<lparr>ledger := (ledger s)(key \<mapsto> r'), threads := (threads s)(t := ph'), usedIds := usedIds s, hist := h\<rparr>)"
  proof (rule structure_update [OF inv held_alone [OF inv(1) h]])
    show "holds ph' = None \<and> \<not> irInFlight r' \<or> holds ph' = Some (key, irId r') \<and> irInFlight r' \<and> irTerminalOutcome r' = [] \<and> phase_ok ph' r'"
      using ph' id(1) i by simp
  qed (use h r cnt i id in auto)
  then show ?thesis by simp
qed

text \<open>A refused admission may note the generation on a record someone else holds.\<close>

lemma phase_ok_generation [simp]: "phase_ok ph (r\<lparr>irGeneration := g\<rparr>) = phase_ok ph r"
  by (cases ph) auto

lemma generation_update:
  assumes "claims_ok s" "records_ok s" and r0: "ledger s key = Some r0" and r: "r = r0 \<or> r = r0\<lparr>irGeneration := g\<rparr>"
  shows "claims_ok (s\<lparr>ledger := (ledger s)(key \<mapsto> r), usedIds := insert newID (usedIds s)\<rparr>) \<and>
         records_ok (s\<lparr>ledger := (ledger s)(key \<mapsto> r), usedIds := insert newID (usedIds s)\<rparr>)"
proof -
  let ?s = "s\<lparr>ledger := (ledger s)(key \<mapsto> r), usedIds := insert newID (usedIds s)\<rparr>"
  have same: "\<exists>x0. ledger s k = Some x0 \<and> irId x = irId x0 \<and> irInFlight x = irInFlight x0 \<and> irAttemptCount x = irAttemptCount x0 \<and>
      irTerminalOutcome x = irTerminalOutcome x0 \<and> (\<forall>ph. phase_ok ph x = phase_ok ph x0)" if "ledger ?s k = Some x" for k x
    using that r0 r by (auto split: if_splits)
  have kept: "\<exists>x. ledger ?s k = Some x" if "ledger s k = Some x0" for k x0 using that by auto
  have "\<exists>x. ledger ?s k = Some x \<and> irId x = i \<and> irInFlight x \<and> phase_ok (threads ?s t) x" if "holds (threads ?s t) = Some (k, i)" for t k i
  proof -
    from that have "holds (threads s t) = Some (k, i)" by simp
    from held_record [OF assms(1) this] obtain x0 where x0: "ledger s k = Some x0" "irId x0 = i" "irInFlight x0" "phase_ok (threads s t) x0" by blast
    from kept [OF x0(1)] obtain x where x: "ledger ?s k = Some x" by blast
    from same [OF x] x0 x show ?thesis by auto
  qed
  moreover have "t = t'" if "holds (threads ?s t) = Some (k, i)" "holds (threads ?s t') = Some (k, i')" for t t' k i i'
    using assms(1) that unfolding claims_ok_def by auto
  ultimately have "claims_ok ?s" unfolding claims_ok_def by blast
  moreover have "0 \<le> irAttemptCount x \<and> irAttemptCount x \<le> MaxAttempts \<and> irId x \<in> usedIds ?s \<and> (irTerminalOutcome x \<noteq> [] \<longrightarrow> \<not> irInFlight x) \<and>
      (irInFlight x \<longrightarrow> (\<exists>t i. holds (threads ?s t) = Some (k, i)))" if "ledger ?s k = Some x" for k x
  proof -
    from same [OF that] obtain x0 where x0: "ledger s k = Some x0" "irId x = irId x0" "irInFlight x = irInFlight x0"
      "irAttemptCount x = irAttemptCount x0" "irTerminalOutcome x = irTerminalOutcome x0" by blast
    with assms(2) show ?thesis by (auto simp: records_ok_def)
  qed
  moreover have "k = k'" if k: "ledger ?s k = Some x" "ledger ?s k' = Some y" "irId x = irId y" for k k' x y
  proof -
    from same [OF k(1)] same [OF k(2)] obtain x0 y0 where "ledger s k = Some x0" "ledger s k' = Some y0" "irId x0 = irId y0"
      using k(3) by metis
    with assms(2) show ?thesis unfolding records_ok_def by blast
  qed
  ultimately show ?thesis unfolding records_ok_def by blast
qed

lemma step_structure:
  assumes "step s s'" and "claims_ok s" and "records_ok s"
  shows "claims_ok s' \<and> records_ok s'"
  using assms
proof (induction rule: step.induct)
  case (admit s t newID key g now r m)
  then have nn: "\<And>r. ledger s key = Some r \<Longrightarrow> 0 \<le> irAttemptCount r" by (simp add: records_ok_def)
  note eff = beginAttempt_effect [OF admit(3) nn]
  have free: "holds (threads s t') \<noteq> Some (key, i)" for t' i
  proof
    assume "holds (threads s t') = Some (key, i)"
    with held_record [OF admit(4)] obtain r0 where "ledger s key = Some r0" "irInFlight r0" by blast
    with eff admit(5) show False by (auto simp: records_ok_def)
  qed
  let ?s = "s\<lparr>ledger := (ledger s)(key \<mapsto> r), threads := (threads s)(t := Claimed key (irId r) now), usedIds := insert newID (usedIds s), hist := hist s\<rparr>"
  have ph: "holds (Claimed key (irId r) now) = Some (key, irId r) \<and> irInFlight r \<and> irTerminalOutcome r = [] \<and> phase_ok (Claimed key (irId r) now) r"
    using eff by (auto simp: MaxAttempts_def)
  have cnt: "0 \<le> irAttemptCount r" "irAttemptCount r \<le> MaxAttempts" using eff nn by (auto simp: MaxAttempts_def)
  have ids: "irId r \<in> insert newID (usedIds s)" "irId r \<notin> usedIds s \<or> (\<exists>r0. ledger s key = Some r0 \<and> irId r0 = irId r)"
    using eff admit(2,5) by (auto simp: records_ok_def)
  have "claims_ok ?s \<and> records_ok ?s"
    by (rule structure_update [OF admit(4,5) free _ disjI2 [OF ph] cnt subset_insertI ids]) (simp add: admit(1))
  with eff show ?case by simp
next
  case (refuse s t newID key g now r d m)
  then have nn: "\<And>r. ledger s key = Some r \<Longrightarrow> 0 \<le> irAttemptCount r" by (simp add: records_ok_def)
  from beginAttempt_effect [OF refuse(3) nn] refuse(4) obtain r0 where r0: "ledger s key = Some r0" "m = (ledger s)(key \<mapsto> r)"
    and alt: "r = r0 \<or> r = r0\<lparr>irGeneration := g\<rparr> \<or>
      \<not> irInFlight r0 \<and> r = r0\<lparr>irGeneration := g, irTerminalOutcome := outcomeExhausted, irTerminalAt := now\<rparr>"
    by auto
  show ?case
  proof (cases "r = r0 \<or> r = r0\<lparr>irGeneration := g\<rparr>")
    case True
    from generation_update [OF refuse(5,6) r0(1) True, of newID] r0(2) show ?thesis by simp
  next
    case False
    with alt have r: "\<not> irInFlight r0" "r = r0\<lparr>irGeneration := g, irTerminalOutcome := outcomeExhausted, irTerminalAt := now\<rparr>" by auto
    have free: "holds (threads s t') \<noteq> Some (key, i)" for t' i
      using held_record [OF refuse(5)] r0(1) r(1) by fastforce
    let ?s = "s\<lparr>ledger := (ledger s)(key \<mapsto> r), threads := (threads s)(t := Idle), usedIds := insert newID (usedIds s), hist := hist s\<rparr>"
    have "0 \<le> irAttemptCount r" "irAttemptCount r \<le> MaxAttempts" "irId r \<in> insert newID (usedIds s)" "irId r0 = irId r" "\<not> irInFlight r"
      using record_facts [OF refuse(6) r0(1)] r by simp_all
    then have "claims_ok ?s \<and> records_ok ?s"
      using refuse(1) r0(1) by (intro structure_update [OF refuse(5,6) free]) auto
    moreover have "(threads s)(t := Idle) = threads s" using refuse(1) by auto
    ultimately show ?thesis using r0(2) by simp
  qed
next
  case (evidence s t key i c logs events frozen)
  from held_record [OF evidence(3)] evidence(1) obtain r where r: "ledger s key = Some r" "irInFlight r" "phase_ok (Claimed key i c) r"
    by (metis holds.simps(2))
  let ?ph = "if frozen then Ready key i c else Collecting key i c"
  let ?s = "s\<lparr>ledger := (ledger s)(key \<mapsto> r), threads := (threads s)(t := ?ph), hist := hist s\<rparr>"
  have "frozen = irEvidenceCaptured r" using evidence(2) r(1) by (auto simp: incidentEvidence_def split: if_splits)
  then have "claims_ok ?s \<and> records_ok ?s"
    using evidence(1) r by (intro held_update [OF evidence(3,4) _ r(1)]) (auto simp: record_facts [OF evidence(4) r(1)])
  moreover have "(ledger s)(key \<mapsto> r) = ledger s" using r(1) by auto
  ultimately show ?case by simp
next
  case (freeze s t key i c logs events)
  from held_record [OF freeze(2)] freeze(1) obtain r where r: "ledger s key = Some r" "irInFlight r" "phase_ok (Collecting key i c) r"
    by (metis holds.simps(3))
  let ?r = "r\<lparr>irLogs := logs, irEvents := events, irEvidenceCaptured := True\<rparr>"
  have "claims_ok (s\<lparr>ledger := (ledger s)(key \<mapsto> ?r), threads := (threads s)(t := Ready key i c), hist := hist s\<rparr>) \<and>
        records_ok (s\<lparr>ledger := (ledger s)(key \<mapsto> ?r), threads := (threads s)(t := Ready key i c), hist := hist s\<rparr>)"
    using freeze(1) r by (intro held_update [OF freeze(2,3) _ r(1)]) (auto simp: record_facts [OF freeze(3) r(1)])
  then show ?case by (simp add: freezeEvidence_def r(1))
next
  case (giveUp s t key i c outcome now)
  then have h: "holds (threads s t) = Some (key, i)" by auto
  with held_record [OF giveUp(3)] obtain r where r: "ledger s key = Some r" by blast
  let ?r = "r\<lparr>irInFlight := False, irTerminalOutcome := outcome, irTerminalAt := now\<rparr>"
  have "claims_ok (s\<lparr>ledger := (ledger s)(key \<mapsto> ?r), threads := (threads s)(t := Idle), hist := hist s\<rparr>) \<and>
        records_ok (s\<lparr>ledger := (ledger s)(key \<mapsto> ?r), threads := (threads s)(t := Idle), hist := hist s\<rparr>)"
    by (intro held_update [OF giveUp(3,4) h r]) (auto simp: record_facts [OF giveUp(4) r])
  moreover have "endAttempt key outcome now (ledger s) = (ledger s)(key \<mapsto> ?r)"
    using giveUp(2) by (auto simp: endAttempt_def r outcome_defs)
  ultimately show ?case by simp
next
  case (dispatch s t key i c n m)
  from held_record [OF dispatch(3)] dispatch(1) obtain r where r: "ledger s key = Some r" "irInFlight r" "phase_ok (Ready key i c) r"
    by (metis holds.simps(4))
  then have n: "n = irAttemptCount r + 1" "m = (ledger s)(key \<mapsto> r\<lparr>irAttemptCount := n\<rparr>)" "1 \<le> n" "n \<le> MaxAttempts"
    using dispatch(2) record_facts(1) [OF dispatch(4) r(1)] by (auto simp: recordAttempt_def)
  let ?h = "hist s @ [HDispatch i n c]"
  have "claims_ok (s\<lparr>ledger := (ledger s)(key \<mapsto> r\<lparr>irAttemptCount := n\<rparr>), threads := (threads s)(t := Running key i n), hist := ?h\<rparr>) \<and>
        records_ok (s\<lparr>ledger := (ledger s)(key \<mapsto> r\<lparr>irAttemptCount := n\<rparr>), threads := (threads s)(t := Running key i n), hist := ?h\<rparr>)"
  proof (rule held_update [OF dispatch(3,4) _ r(1)])
    show "holds (threads s t) = Some (key, i)" using dispatch(1) by simp
    show "holds (Running key i n) = None \<and> \<not> irInFlight (r\<lparr>irAttemptCount := n\<rparr>) \<or>
        holds (Running key i n) = Some (key, i) \<and> irInFlight (r\<lparr>irAttemptCount := n\<rparr>) \<and> irTerminalOutcome (r\<lparr>irAttemptCount := n\<rparr>) = [] \<and>
        phase_ok (Running key i n) (r\<lparr>irAttemptCount := n\<rparr>)"
      using r(2) n(3) record_facts(3) [OF dispatch(4) r(1,2)] by simp
  qed (use n(3,4) in simp_all)
  with n(2) show ?case by simp
next
  case (finish s t key i n outcome now)
  then have h: "holds (threads s t) = Some (key, i)" by auto
  with held_record [OF finish(3)] obtain r where r: "ledger s key = Some r" by blast
  from endAttempt_effect [of "ledger s" key r outcome now, OF r] obtain r' where r': "endAttempt key outcome now (ledger s) = (ledger s)(key \<mapsto> r')"
    "\<not> irInFlight r'" "irAttemptCount r' = irAttemptCount r" "irId r' = irId r" by blast
  let ?h = "hist s @ [HFinish i n now]"
  have "claims_ok (s\<lparr>ledger := (ledger s)(key \<mapsto> r'), threads := (threads s)(t := Idle), hist := ?h\<rparr>) \<and>
        records_ok (s\<lparr>ledger := (ledger s)(key \<mapsto> r'), threads := (threads s)(t := Idle), hist := ?h\<rparr>)"
    using r' by (intro held_update [OF finish(3,4) h r]) (auto simp: record_facts [OF finish(4) r])
  with r'(1) show ?case by simp
qed

lemma reachable_structure: "reachable s \<Longrightarrow> claims_ok s \<and> records_ok s"
proof (induction rule: reachable.induct)
  case reachable_init
  then show ?case by (simp add: claims_ok_def records_ok_def initialSystem_def)
next
  case (reachable_step s s')
  then show ?case using step_structure by blast
qed

section \<open>The history\<close>

text \<open>
  What later events owe to earlier ones: no attempt number of an incident is dispatched twice, and an attempt that follows a finished
  one was claimed only after the backoff.
\<close>

fun spaced :: "event \<Rightarrow> event \<Rightarrow> bool" where
  "spaced (HDispatch i n c) (HDispatch j m d) \<longleftrightarrow> (i, n) \<noteq> (j, m)"
| "spaced (HFinish i n t) (HDispatch j m c) \<longleftrightarrow> (i = j \<and> m = n + 1 \<longrightarrow> t + backoffAfter n \<le> c)"
| "spaced _ _ \<longleftrightarrow> True"

lemma spaced_finish [simp]: "spaced e (HFinish i n t)"
  by (cases e) auto

fun entry_ok :: "system \<Rightarrow> event \<Rightarrow> bool" where
  "entry_ok s (HDispatch i n c) \<longleftrightarrow> i \<in> usedIds s \<and> 1 \<le> n \<and> n \<le> MaxAttempts \<and>
     (\<forall>k r. ledger s k = Some r \<longrightarrow> irId r = i \<longrightarrow> n \<le> irAttemptCount r)"
| "entry_ok s (HFinish i n t) \<longleftrightarrow> i \<in> usedIds s \<and> 1 \<le> n \<and>
     (\<forall>k r. ledger s k = Some r \<longrightarrow> irId r = i \<longrightarrow> n < irAttemptCount r \<or>
        n = irAttemptCount r \<and> (irTerminalOutcome r \<noteq> [] \<or> irLastAttemptAt r = t) \<and> (\<forall>th. threads s th \<noteq> Running k i n))"

definition hist_ok :: "system \<Rightarrow> bool" where
  "hist_ok s \<longleftrightarrow> (\<forall>e \<in> set (hist s). entry_ok s e) \<and> sorted_wrt spaced (hist s)"

text \<open>How a new record may follow the old one of the same incident without disturbing what was recorded.\<close>

definition follows :: "phase \<Rightarrow> string \<Rightarrow> incidentRecord \<Rightarrow> incidentRecord \<Rightarrow> bool" where
  "follows ph key r0 r' \<longleftrightarrow> irId r' = irId r0 \<and>
     (irAttemptCount r0 < irAttemptCount r' \<or>
      irAttemptCount r' = irAttemptCount r0 \<and>
        (ph = Running key (irId r0) (irAttemptCount r0) \<or>
         (irTerminalOutcome r0 \<noteq> [] \<longrightarrow> irTerminalOutcome r' \<noteq> []) \<and> (irTerminalOutcome r' \<noteq> [] \<or> irLastAttemptAt r' = irLastAttemptAt r0)))"

lemma entry_ok_update:
  assumes e: "entry_ok s e" and U: "usedIds s \<subseteq> U"
    and r': "irId r' \<notin> usedIds s \<or> (\<exists>r0. ledger s key = Some r0 \<and> follows (threads s t) key r0 r' \<and>
      (\<forall>k i n. ph' = Running k i n \<longrightarrow> k = key \<and> irAttemptCount r0 < n))"
    and ph': "\<And>k i n. ph' = Running k i n \<Longrightarrow> k = key \<and> irId r' = i \<and> irId r' \<in> usedIds s"
  shows "entry_ok (s\<lparr>ledger := (ledger s)(key \<mapsto> r'), threads := (threads s)(t := ph'), usedIds := U, hist := h\<rparr>) e"
proof (cases e)
  case (HDispatch i n c)
  with e have n: "i \<in> usedIds s" "1 \<le> n" "n \<le> MaxAttempts" "\<And>k r. ledger s k = Some r \<Longrightarrow> irId r = i \<Longrightarrow> n \<le> irAttemptCount r" by auto
  let ?s = "s\<lparr>ledger := (ledger s)(key \<mapsto> r'), threads := (threads s)(t := ph'), usedIds := U, hist := h\<rparr>"
  have "n \<le> irAttemptCount r" if r: "ledger ?s k = Some r" "irId r = i" for k r
  proof (cases "k = key")
    case True
    with r have "r = r'" by simp
    with r(2) n(1) r' obtain r0 where r0: "ledger s key = Some r0" "follows (threads s t) key r0 r'" "r = r'" by blast
    then have "irId r0 = i" using r(2) by (simp add: follows_def)
    from n(4) [OF r0(1) this] r0(2,3) show ?thesis by (auto simp: follows_def)
  next
    case False
    with r n(4) show ?thesis by simp
  qed
  moreover have "i \<in> usedIds ?s \<and> 1 \<le> n \<and> n \<le> MaxAttempts" using U n(1-3) by auto
  ultimately show ?thesis unfolding HDispatch entry_ok.simps by blast
next
  case (HFinish i n tm)
  with e have i: "i \<in> usedIds s" "1 \<le> n" and n: "\<And>k r. ledger s k = Some r \<Longrightarrow> irId r = i \<Longrightarrow> n < irAttemptCount r \<or>
        n = irAttemptCount r \<and> (irTerminalOutcome r \<noteq> [] \<or> irLastAttemptAt r = tm) \<and> (\<forall>th. threads s th \<noteq> Running k i n)" by auto
  let ?s = "s\<lparr>ledger := (ledger s)(key \<mapsto> r'), threads := (threads s)(t := ph'), usedIds := U, hist := h\<rparr>"
  have "n < irAttemptCount r \<or> n = irAttemptCount r \<and> (irTerminalOutcome r \<noteq> [] \<or> irLastAttemptAt r = tm) \<and> (\<forall>th. threads ?s th \<noteq> Running k i n)"
    if r: "ledger ?s k = Some r" "irId r = i" for k r
  proof (cases "k = key")
    case True
    with r have [simp]: "r = r'" by simp
    from r(2) i(1) have "irId r' \<in> usedIds s" by simp
    with r' obtain r0 where r0: "ledger s key = Some r0" "follows (threads s t) key r0 r'"
      and ph: "\<forall>k i n. ph' = Running k i n \<longrightarrow> k = key \<and> irAttemptCount r0 < n" by blast
    then have "irId r0 = i" using r(2) by (simp add: follows_def)
    from n [OF r0(1) this] r0(2) ph True \<open>irId r0 = i\<close> show ?thesis unfolding follows_def by (auto split: if_splits)
  next
    case False
    with r have "ledger s k = Some r" by simp
    from n [OF this r(2)] ph' False show ?thesis by (auto split: if_splits)
  qed
  moreover have "i \<in> usedIds ?s \<and> 1 \<le> n" using U i by auto
  ultimately show ?thesis unfolding HFinish entry_ok.simps by blast
qed

text \<open>A step that appends at most one event keeps the history in order if the new event fits.\<close>

lemma hist_update:
  assumes "hist_ok s" and "\<And>e. entry_ok s e \<Longrightarrow> entry_ok s' e" and "hist s' = hist s @ new"
    and "\<And>e. e \<in> set new \<Longrightarrow> entry_ok s' e" and "\<And>e e'. e \<in> set (hist s) \<Longrightarrow> e' \<in> set new \<Longrightarrow> spaced e e'" and "sorted_wrt spaced new"
  shows "hist_ok s'"
  using assms unfolding hist_ok_def by (auto simp: sorted_wrt_append)

lemma entry_ok_threads:
  assumes "entry_ok s e" and "\<And>k i n. ph' \<noteq> Running k i n"
  shows "entry_ok (s\<lparr>threads := (threads s)(t := ph')\<rparr>) e"
  using assms by (cases e) (auto, blast+)

lemma entry_ok_generation:
  assumes e: "entry_ok s e" and r0: "ledger s key = Some r0" and r: "r = r0 \<or> r = r0\<lparr>irGeneration := g\<rparr> \<or>
      irTerminalOutcome r0 = [] \<and> r = r0\<lparr>irGeneration := g, irTerminalOutcome := outcomeExhausted, irTerminalAt := now\<rparr>"
  shows "entry_ok (s\<lparr>ledger := (ledger s)(key \<mapsto> r), usedIds := insert newID (usedIds s)\<rparr>) e"
proof -
  let ?s = "s\<lparr>ledger := (ledger s)(key \<mapsto> r), usedIds := insert newID (usedIds s)\<rparr>"
  have same: "\<exists>x0. ledger s k = Some x0 \<and> irId x = irId x0 \<and> irAttemptCount x = irAttemptCount x0 \<and> irLastAttemptAt x = irLastAttemptAt x0 \<and>
      (irTerminalOutcome x0 \<noteq> [] \<longrightarrow> irTerminalOutcome x \<noteq> [])" if "ledger ?s k = Some x" for k x
    using that r0 r by (auto split: if_splits)
  show ?thesis
  proof (cases e)
    case (HDispatch i n c)
    have "n \<le> irAttemptCount x" if x: "ledger ?s k = Some x" "irId x = i" for k x
    proof -
      from same [OF x(1)] obtain x0 where "ledger s k = Some x0" "irId x0 = i" "irAttemptCount x = irAttemptCount x0" using x(2) by metis
      with e HDispatch show ?thesis by simp
    qed
    moreover have "i \<in> usedIds ?s \<and> 1 \<le> n \<and> n \<le> MaxAttempts" using e HDispatch by simp
    ultimately show ?thesis unfolding HDispatch entry_ok.simps by blast
  next
    case (HFinish i n tm)
    have "n < irAttemptCount x \<or> n = irAttemptCount x \<and> (irTerminalOutcome x \<noteq> [] \<or> irLastAttemptAt x = tm) \<and> (\<forall>th. threads ?s th \<noteq> Running k i n)"
      if x: "ledger ?s k = Some x" "irId x = i" for k x
    proof -
      from same [OF x(1)] obtain x0 where x0: "ledger s k = Some x0" "irId x0 = i" and eqs: "irAttemptCount x = irAttemptCount x0"
        "irLastAttemptAt x = irLastAttemptAt x0" "irTerminalOutcome x0 \<noteq> [] \<longrightarrow> irTerminalOutcome x \<noteq> []" using x(2) by metis
      from e HFinish x0 have "n < irAttemptCount x0 \<or> n = irAttemptCount x0 \<and>
        (irTerminalOutcome x0 \<noteq> [] \<or> irLastAttemptAt x0 = tm) \<and> (\<forall>th. threads s th \<noteq> Running k i n)"
        by simp
      with eqs show ?thesis by auto
    qed
    moreover have "i \<in> usedIds ?s \<and> 1 \<le> n" using e HFinish by simp
    ultimately show ?thesis unfolding HFinish entry_ok.simps by blast
  qed
qed

declare entry_ok.simps [simp del] phase_ok.simps [simp del]

lemma step_hist:
  assumes "step s s'" and "claims_ok s" and "records_ok s" and "hist_ok s"
  shows "hist_ok s'"
  using assms
proof (induction rule: step.induct)
  case (admit s t newID key g now r m)
  have nn: "\<And>r. ledger s key = Some r \<Longrightarrow> 0 \<le> irAttemptCount r" using record_facts(1) [OF admit(5)] .
  note eff = beginAttempt_effect [OF admit(3) nn]
  have "irId r \<notin> usedIds s \<or> (\<exists>r0. ledger s key = Some r0 \<and> follows (threads s t) key r0 r \<and>
      (\<forall>k i n. Claimed key (irId r) now = Running k i n \<longrightarrow> k = key \<and> irAttemptCount r0 < n))"
    using eff admit(2) by (auto simp: follows_def)
  then have "entry_ok (s\<lparr>ledger := (ledger s)(key \<mapsto> r), threads := (threads s)(t := Claimed key (irId r) now), usedIds := insert newID (usedIds s), hist := hist s\<rparr>) e"
    if "entry_ok s e" for e
    by (intro entry_ok_update [OF that subset_insertI]) auto
  then show ?case using eff by (intro hist_update [OF admit(6), where new = "[]"]) auto
next
  case (refuse s t newID key g now r d m)
  have nn: "\<And>r. ledger s key = Some r \<Longrightarrow> 0 \<le> irAttemptCount r" using record_facts(1) [OF refuse(6)] .
  from beginAttempt_effect [OF refuse(3) nn] refuse(4) obtain r0 where r0: "ledger s key = Some r0" "m = (ledger s)(key \<mapsto> r)"
    and alt: "r = r0 \<or> r = r0\<lparr>irGeneration := g\<rparr> \<or>
      irTerminalOutcome r0 = [] \<and> r = r0\<lparr>irGeneration := g, irTerminalOutcome := outcomeExhausted, irTerminalAt := now\<rparr>"
    by auto
  show ?case
    using entry_ok_generation [OF _ r0(1) alt] r0(2) by (intro hist_update [OF refuse(7), where new = "[]"]) auto
next
  case (evidence s t key i c logs events frozen)
  then show ?case by (intro hist_update [OF evidence(5), where new = "[]"]) (auto intro!: entry_ok_threads)
next
  case (freeze s t key i c logs events)
  from held_record [OF freeze(2)] freeze(1) obtain r where r: "ledger s key = Some r" by (metis holds.simps(3))
  let ?r = "r\<lparr>irLogs := logs, irEvents := events, irEvidenceCaptured := True\<rparr>"
  have "entry_ok (s\<lparr>ledger := (ledger s)(key \<mapsto> ?r), threads := (threads s)(t := Ready key i c), usedIds := usedIds s, hist := hist s\<rparr>) e" if "entry_ok s e" for e
    using r by (intro entry_ok_update [OF that subset_refl]) (auto simp: follows_def)
  then show ?case by (intro hist_update [OF freeze(4), where new = "[]"]) (auto simp: freezeEvidence_def r)
next
  case (giveUp s t key i c outcome now)
  then obtain r where r: "ledger s key = Some r" using held_record [OF giveUp(3), of t key i] by auto
  let ?r = "r\<lparr>irInFlight := False, irTerminalOutcome := outcome, irTerminalAt := now\<rparr>"
  have out: "endAttempt key outcome now (ledger s) = (ledger s)(key \<mapsto> ?r)" "outcome \<noteq> []"
    using giveUp(2) by (auto simp: endAttempt_def r outcome_defs)
  have "entry_ok (s\<lparr>ledger := (ledger s)(key \<mapsto> ?r), threads := (threads s)(t := Idle), usedIds := usedIds s, hist := hist s\<rparr>) e" if "entry_ok s e" for e
    using r out(2) by (intro entry_ok_update [OF that subset_refl]) (auto simp: follows_def)
  then show ?case by (intro hist_update [OF giveUp(5), where new = "[]"]) (auto simp: out)
next
  case (dispatch s t key i c n m)
  from held_record [OF dispatch(3)] dispatch(1) obtain r where r: "ledger s key = Some r" "irId r = i" "irInFlight r" "phase_ok (Ready key i c) r"
    by (metis holds.simps(4))
  then have n: "n = irAttemptCount r + 1" "m = (ledger s)(key \<mapsto> r\<lparr>irAttemptCount := n\<rparr>)" "1 \<le> n" "n \<le> MaxAttempts"
    using dispatch(2) record_facts(1) [OF dispatch(4) r(1)] by (auto simp: recordAttempt_def phase_ok.simps)
  have used: "i \<in> usedIds s" "irTerminalOutcome r = []" using record_facts(3,4) [OF dispatch(4) r(1)] r(2,3) by auto
  let ?s = "s\<lparr>ledger := (ledger s)(key \<mapsto> r\<lparr>irAttemptCount := n\<rparr>), threads := (threads s)(t := Running key i n), usedIds := usedIds s, hist := hist s @ [HDispatch i n c]\<rparr>"
  have old: "entry_ok ?s e" if "entry_ok s e" for e
    using r n used by (intro entry_ok_update [OF that subset_refl]) (auto simp: follows_def)
  have uniq: "k = key" if "ledger s k = Some x" "irId x = i" for k x
    using dispatch(4) that r(1,2) unfolding records_ok_def by blast
  have "n \<le> irAttemptCount x" if x: "ledger ?s k = Some x" "irId x = i" for k x
  proof (cases "k = key")
    case True
    with x(1) show ?thesis by auto
  next
    case False
    with x uniq show ?thesis by simp
  qed
  moreover have "i \<in> usedIds ?s \<and> 1 \<le> n \<and> n \<le> MaxAttempts" using used(1) n(3,4) by simp
  ultimately have new: "entry_ok ?s (HDispatch i n c)" unfolding entry_ok.simps by blast
  have "spaced e (HDispatch i n c)" if "e \<in> set (hist s)" for e
  proof -
    from dispatch(5) that have e: "entry_ok s e" by (simp add: hist_ok_def)
    show ?thesis
    proof (cases e)
      case (HDispatch j k d)
      with e r(1,2) have "j = i \<Longrightarrow> k \<le> irAttemptCount r" by (simp add: entry_ok.simps)
      with HDispatch n(1) show ?thesis by auto
    next
      case (HFinish j k tm)
      with e r(1,2) used(2) have "j = i \<Longrightarrow> 1 \<le> k \<and> (k = irAttemptCount r \<longrightarrow> irLastAttemptAt r = tm)" 
        by (auto simp: entry_ok.simps)
      with HFinish n(1) r(4) show ?thesis by (auto simp: phase_ok.simps)
    qed
  qed
  then have "hist_ok ?s" using old new by (intro hist_update [OF dispatch(5), where new = "[HDispatch i n c]"]) auto
  then show ?case using n(2) by simp
next
  case (finish s t key i n outcome now)
  from held_record [OF finish(3)] finish(1) obtain r where r: "ledger s key = Some r" "irId r = i" "phase_ok (Running key i n) r"
    by (metis holds.simps(5))
  from endAttempt_effect [of "ledger s" key r outcome now, OF r(1)] obtain r' where
    r': "endAttempt key outcome now (ledger s) = (ledger s)(key \<mapsto> r')" "irAttemptCount r' = irAttemptCount r" "irId r' = irId r"
    "irTerminalOutcome r' \<noteq> [] \<or> irLastAttemptAt r' = now" by blast
  let ?s = "s\<lparr>ledger := (ledger s)(key \<mapsto> r'), threads := (threads s)(t := Idle), usedIds := usedIds s, hist := hist s @ [HFinish i n now]\<rparr>"
  have old: "entry_ok ?s e" if "entry_ok s e" for e
    using r r' finish(1) by (intro entry_ok_update [OF that subset_refl]) (auto simp: follows_def phase_ok.simps)
  have uniq: "k = key" if "ledger s k = Some x" "irId x = i" for k x
    using finish(4) that r(1,2) unfolding records_ok_def by blast
  have alone: "th = t" if "threads s th = Running key i n" for th
    using held_alone [OF finish(3), of t key i th] finish(1) that by fastforce
  have used: "i \<in> usedIds s" using record_facts(4) [OF finish(4) r(1)] r(2) by simp
  have "n < irAttemptCount x \<or> n = irAttemptCount x \<and> (irTerminalOutcome x \<noteq> [] \<or> irLastAttemptAt x = now) \<and> (\<forall>th. threads ?s th \<noteq> Running k i n)"
    if x: "ledger ?s k = Some x" "irId x = i" for k x
  proof (cases "k = key")
    case True
    with x(1) have "x = r'" by simp
    with True r(3) r'(2,4) alone show ?thesis by (auto simp: phase_ok.simps)
  next
    case False
    with x uniq show ?thesis by simp
  qed
  moreover have "i \<in> usedIds ?s \<and> 1 \<le> n" using used r(3) by (simp add: phase_ok.simps)
  ultimately have new: "entry_ok ?s (HFinish i n now)" unfolding entry_ok.simps by blast
  have "hist_ok ?s" using old new by (intro hist_update [OF finish(5), where new = "[HFinish i n now]"]) auto
  then show ?case using r'(1) by simp
qed

lemma reachable_hist: "reachable s \<Longrightarrow> hist_ok s"
proof (induction rule: reachable.induct)
  case reachable_init
  then show ?case by (simp add: hist_ok_def initialSystem_def)
next
  case (reachable_step s s')
  then show ?case using step_hist reachable_structure by blast
qed

end
