(* ===== verification/Interleavings.thy ===== *)
theory Interleavings
  imports Concurrency
begin

text \<open>
  What holds of the incident ledger in every interleaving of reconciles and remediations: at most one
  thread holds the claim of a Deployment, an incident dispatches at most three attempts with distinct
  numbers, attempts are separated by the backoff, evidence is fixed for the whole incident, and an
  exhausted incident changes only through an admission with another generation.
\<close>

section \<open>Properties of every interleaving\<close>

text \<open>
  C1: one attempt at a time. In every interleaving of any number of reconciles and remediations, two threads that hold the claim of the same
  Deployment are the same thread; a held claim belongs to the incident currently recorded for the Deployment, which is
  marked in flight and not finished; and a record marked in flight is held by a thread, so that no claim is lost.
\<close>

theorem one_attempt_at_a_time:
  assumes "reachable s"
  shows "(\<forall>t t' key i i'. holds (threads s t) = Some (key, i) \<longrightarrow> holds (threads s t') = Some (key, i') \<longrightarrow> t = t') \<and>
    (\<forall>t key i. holds (threads s t) = Some (key, i) \<longrightarrow>
       (\<exists>r. ledger s key = Some r \<and> irId r = i \<and> claimHeld key (ledger s) \<and> closedIncident key (ledger s) = None)) \<and>
    (\<forall>key. claimHeld key (ledger s) \<longrightarrow> (\<exists>t i. holds (threads s t) = Some (key, i)))"
proof -
  from reachable_structure [OF assms] have c: "claims_ok s" and r: "records_ok s" by auto
  have "\<exists>r. ledger s key = Some r \<and> irId r = i \<and> claimHeld key (ledger s) \<and> closedIncident key (ledger s) = None"
    if h: "holds (threads s t) = Some (key, i)" for t key i
  proof -
    from held_record [OF c h] obtain x where "ledger s key = Some x" "irId x = i" "irInFlight x" by blast
    with record_facts(3) [OF r] show ?thesis by (simp add: claimHeld_def closedIncident_def)
  qed
  moreover have "\<exists>t i. holds (threads s t) = Some (key, i)" if "claimHeld key (ledger s)" for key
  proof -
    from that obtain x where "ledger s key = Some x" "irInFlight x" by (auto simp: claimHeld_def split: option.splits)
    with r show ?thesis unfolding records_ok_def by blast
  qed
  moreover have "t = t'" if "holds (threads s t) = Some (key, i)" "holds (threads s t') = Some (key, i')" for t t' key i i'
    using c that unfolding claims_ok_def by blast
  ultimately show ?thesis by blast
qed

text \<open>
  C2: the attempt budget and the backoff. In every interleaving, the attempts an incident dispatched are numbered between 1 and 3 and no number
  twice, so there are at most three; and if attempt \<open>n\<close> finished at \<open>t\<close>, then attempt \<open>n + 1\<close>, whenever it was dispatched, had been admitted no
  earlier than 30 seconds after \<open>t\<close> for \<open>n = 1\<close> and 60 seconds for \<open>n = 2\<close>. The identifiers of new incidents are assumed fresh.
\<close>

theorem budget_and_backoff:
  assumes "reachable s"
  shows "(\<forall>i n c. HDispatch i n c \<in> set (hist s) \<longrightarrow> 1 \<le> n \<and> n \<le> 3) \<and>
    (\<forall>pre i n c mid d post. hist s = pre @ HDispatch i n c # mid \<longrightarrow> HDispatch i n d \<notin> set mid) \<and>
    (\<forall>i. card {n. \<exists>c. HDispatch i n c \<in> set (hist s)} \<le> 3) \<and>
    (\<forall>pre i n t mid c post. hist s = pre @ HFinish i n t # mid @ HDispatch i (n + 1) c # post \<longrightarrow>
       (if n = 1 then t + 30 * Second \<le> c else n = 2 \<and> t + 60 * Second \<le> c))"
proof -
  from reachable_hist [OF assms] have ok: "\<And>e. e \<in> set (hist s) \<Longrightarrow> entry_ok s e" and sp: "sorted_wrt spaced (hist s)"
    by (auto simp: hist_ok_def)
  have num: "1 \<le> n \<and> n \<le> 3" if "HDispatch i n c \<in> set (hist s)" for i n c
    using ok [OF that] by (simp add: entry_ok.simps MaxAttempts_def)
  have "card {n. \<exists>c. HDispatch i n c \<in> set (hist s)} \<le> 3" for i
  proof -
    have "{n. \<exists>c. HDispatch i n c \<in> set (hist s)} \<subseteq> {1..3}" using num by auto
    then show ?thesis using card_mono [of "{1..3 :: int}"] by fastforce
  qed
  moreover have "HDispatch i n d \<notin> set mid" if "hist s = pre @ HDispatch i n c # mid" for pre i n c mid d
    using sp that by (auto simp: sorted_wrt_append)
  moreover have "if n = 1 then t + 30 * Second \<le> c else n = 2 \<and> t + 60 * Second \<le> c"
    if h: "hist s = pre @ HFinish i n t # mid @ HDispatch i (n + 1) c # post" for pre i n t mid c post
  proof -
    have "t + backoffAfter n \<le> c" using sp h by (auto simp: sorted_wrt_append)
    moreover have "1 \<le> n" using ok [of "HFinish i n t"] h by (simp add: entry_ok.simps)
    moreover have "n + 1 \<le> 3" using num [of i "n + 1" c] h by simp
    moreover from calculation(2,3) have "n = 1 \<or> n = 2" by linarith
    ultimately show ?thesis by (auto simp: backoffAfter_def)
  qed
  ultimately show ?thesis using num by blast
qed

text \<open>A thread claims the incident of a crashed Deployment, dispatches and finishes a first attempt.\<close>

definition claimedSystem :: system where
  "claimedSystem = \<lparr>ledger = [''shop/checkout'' \<mapsto> (freshRecord ''i-1'' 4 100)\<lparr>irInFlight := True\<rparr>],
     threads = (\<lambda>_. Idle)(0 := Claimed ''shop/checkout'' ''i-1'' 100), usedIds = {''i-1''}, hist = []\<rparr>"

lemma claimed_reachable: "reachable claimedSystem"
proof -
  let ?r = "(freshRecord ''i-1'' 4 100)\<lparr>irInFlight := True\<rparr>"
  have b: "beginAttempt ''i-1'' ''shop/checkout'' 4 100 (ledger initialSystem) = Returns (?r, admitProceed, [''shop/checkout'' \<mapsto> ?r])"
    by (simp add: initialSystem_def beginAttempt_live liveRecord_def claimRecord_eq MaxAttempts_def)
  have "step initialSystem claimedSystem"
    using step.admit [of initialSystem 0, OF _ _ b] by (simp add: initialSystem_def claimedSystem_def)
  then show ?thesis using reachable_init reachable_step by blast
qed

definition dispatchedSystem :: system where
  "dispatchedSystem = claimedSystem\<lparr>
     ledger := [''shop/checkout'' \<mapsto> (freshRecord ''i-1'' 4 100)\<lparr>irInFlight := True, irEvidenceCaptured := True, irAttemptCount := 1\<rparr>],
     threads := (\<lambda>_. Idle)(0 := Running ''shop/checkout'' ''i-1'' 1), hist := [HDispatch ''i-1'' 1 100]\<rparr>"

lemma dispatched_reachable: "reachable dispatchedSystem"
proof -
  let ?k = "''shop/checkout''"
  let ?s1 = "claimedSystem\<lparr>threads := (threads claimedSystem)(0 := Collecting ?k ''i-1'' 100)\<rparr>"
  let ?s2 = "?s1\<lparr>ledger := freezeEvidence ?k [] [] (ledger ?s1), threads := (threads ?s1)(0 := Ready ?k ''i-1'' 100)\<rparr>"
  have "step claimedSystem ?s1"
    using step.evidence [of claimedSystem 0 ?k "''i-1''" 100 "[]" "[]" False] by (simp add: claimedSystem_def incidentEvidence_def)
  moreover have "step ?s1 ?s2"
    using step.freeze [of ?s1 0 ?k "''i-1''" 100 "[]" "[]"] by simp
  moreover have "step ?s2 dispatchedSystem"
    using step.dispatch [of ?s2 0 ?k "''i-1''" 100] 
    by (simp add: claimedSystem_def dispatchedSystem_def freezeEvidence_def recordAttempt_def freshRecord_def newRecord_def)
  ultimately show ?thesis using claimed_reachable reachable_step by blast
qed

theorem one_attempt_at_a_time_witness:
  "reachable claimedSystem \<and> {t. \<exists>i. holds (threads claimedSystem t) = Some (''shop/checkout'', i)} = {0} \<and>
   closedIncident ''shop/checkout'' (ledger claimedSystem) = None"
proof -
  have h: "holds (threads claimedSystem 0) = Some (''shop/checkout'', ''i-1'')" by (simp add: claimedSystem_def)
  show ?thesis using one_attempt_at_a_time [OF claimed_reachable] h claimed_reachable by blast
qed

theorem budget_and_backoff_witness:
  "reachable dispatchedSystem \<and> hist dispatchedSystem = [HDispatch ''i-1'' 1 100] \<and> card {n. \<exists>c. HDispatch ''i-1'' n c \<in> set (hist dispatchedSystem)} \<le> 3"
  using budget_and_backoff [OF dispatched_reachable] dispatched_reachable by (simp add: dispatchedSystem_def)

text \<open>
  What a step does to the ledger: nothing, or it writes one record, which belongs to a fresh incident or goes on with the
  one that was there and its evidence.
\<close>

definition same_incident :: "incidentRecord \<Rightarrow> incidentRecord \<Rightarrow> bool" where
  "same_incident x0 x \<longleftrightarrow> irId x = irId x0 \<and> (irEvidenceCaptured x0 \<longrightarrow> irEvidenceCaptured x \<and> irLogs x = irLogs x0 \<and> irEvents x = irEvents x0)"

definition writes_record :: "incidents \<Rightarrow> string set \<Rightarrow> incidents \<Rightarrow> bool" where
  "writes_record m used m' \<longleftrightarrow> m' = m \<or>
     (\<exists>k x. m' = m(k \<mapsto> x) \<and> (irId x \<notin> used \<or> (\<exists>x0. m k = Some x0 \<and> same_incident x0 x)))"

lemma writes_recordI: "m k = Some x0 \<Longrightarrow> same_incident x0 x \<Longrightarrow> writes_record m used (m(k \<mapsto> x))"
  unfolding writes_record_def by blast

lemma begin_writes:
  assumes "beginAttempt newID key g now m = Returns (r, d, m')" and "\<And>r. m key = Some r \<Longrightarrow> 0 \<le> irAttemptCount r" and "newID \<notin> used"
  shows "writes_record m used m'"
proof -
  from beginAttempt_effect [OF assms(1,2)] have "m' = m(key \<mapsto> r) \<and> (irId r = newID \<or> (\<exists>r0. m key = Some r0 \<and> same_incident r0 r))"
    by (auto simp: same_incident_def)
  with assms(3) show ?thesis unfolding writes_record_def by blast
qed

lemma end_writes: "writes_record m used (endAttempt key outcome now m)"
proof (cases "m key")
  case None
  then show ?thesis by (simp add: endAttempt_def writes_record_def)
next
  case (Some r)
  from endAttempt_effect [of m key r outcome now, OF Some] obtain r' where "endAttempt key outcome now m = m(key \<mapsto> r')" "same_incident r r'"
    by (auto simp: same_incident_def)
  with Some show ?thesis by (simp add: writes_recordI)
qed

lemma step_writes:
  assumes "step s s'" and "claims_ok s" "records_ok s"
  shows "writes_record (ledger s) (usedIds s) (ledger s')"
  using assms
proof (induction rule: step.induct)
  case (admit s t newID k g now x m)
  from begin_writes [OF admit(3) record_facts(1) [OF admit(5)] admit(2)] show ?case by simp
next
  case (refuse s t newID k g now x d m)
  from begin_writes [OF refuse(3) record_facts(1) [OF refuse(6)] refuse(2)] show ?case by simp
next
  case (evidence s t k i c logs events frozen)
  then show ?case by (simp add: writes_record_def)
next
  case (freeze s t k i c logs events)
  from held_record [OF freeze(2)] freeze(1) obtain x where x: "ledger s k = Some x" "phase_ok (Collecting k i c) x" by (metis holds.simps(3))
  then have "same_incident x (x\<lparr>irLogs := logs, irEvents := events, irEvidenceCaptured := True\<rparr>)" by (simp add: same_incident_def phase_ok.simps)
  from writes_recordI [of "ledger s" k x, OF x(1) this, of "usedIds s"]
  have "writes_record (ledger s) (usedIds s) (freezeEvidence k logs events (ledger s))" unfolding freezeEvidence_def x(1) by simp
  then show ?case by simp
next
  case (giveUp s t k i c outcome now)
  then show ?case by (simp add: end_writes)
next
  case (dispatch s t k i c n m)
  from held_record [OF dispatch(3)] dispatch(1) obtain x where x: "ledger s k = Some x" by (metis holds.simps(4))
  have "same_incident x (x\<lparr>irAttemptCount := irAttemptCount x + 1\<rparr>)" by (simp add: same_incident_def)
  from writes_recordI [of "ledger s" k x, OF x this, of "usedIds s"] dispatch(2) show ?case by (auto simp: recordAttempt_def x)
next
  case (finish s t k i n outcome now)
  then show ?case by (simp add: end_writes)
qed

lemma writes_record_at:
  assumes "writes_record m used m'" and "m key = Some x0"
  shows "\<exists>x. m' key = Some x \<and> (irId x \<notin> used \<or> same_incident x0 x)"
  using assms unfolding writes_record_def same_incident_def by (metis fun_upd_apply option.sel)

lemma step_used: "step s s' \<Longrightarrow> usedIds s \<subseteq> usedIds s'"
  by (induction rule: step.induct) auto

text \<open>
  C15: evidence is fixed for the whole incident. Once an incident has its evidence, then in every later state of every interleaving in which the
  Deployment still has that incident, \<^verbatim>\<open>incidentEvidence\<close> returns the same logs and events.
\<close>

theorem evidence_is_fixed:
  assumes "reachable s" and "step\<^sup>*\<^sup>* s s'"
    and "ledger s key = Some r" "incidentEvidence key (ledger s) = (logs, events, True)"
    and "ledger s' key = Some r'" "irId r' = irId r"
  shows "incidentEvidence key (ledger s') = (logs, events, True)"
proof -
  have "reachable s' \<and> usedIds s \<subseteq> usedIds s' \<and> (\<forall>x. ledger s' key = Some x \<longrightarrow> irId x = irId r \<longrightarrow> irEvidenceCaptured x \<and> irLogs x = logs \<and> irEvents x = events)
     \<and> (ledger s' key \<noteq> None)"
    using assms(2)
  proof (induction rule: rtranclp_induct)
    case base
    then show ?case using assms(1,3,4) by (auto simp: incidentEvidence_def split: if_splits)
  next
    case (step y z)
    have inv: "claims_ok y" "records_ok y" using step.IH reachable_structure by auto
    have used: "irId r \<in> usedIds y" using record_facts(4) assms(1,3) reachable_structure step.IH by blast
    from step.IH obtain y0 where y0: "ledger y key = Some y0" by blast
    from writes_record_at [OF step_writes [OF step.hyps(2) inv] y0] obtain z0 where z0: "ledger z key = Some z0"
      "irId z0 \<notin> usedIds y \<or> same_incident y0 z0" by blast
    have "irEvidenceCaptured z0 \<and> irLogs z0 = logs \<and> irEvents z0 = events" if "irId z0 = irId r"
      using that z0(2) used y0 step.IH unfolding same_incident_def by metis
    moreover have "reachable z" using step.IH step.hyps(2) reachable_step by blast
    ultimately show ?case using step_used [OF step.hyps(2)] step.IH z0(1) by auto
  qed
  with assms(5,6) show ?thesis by (auto simp: incidentEvidence_def)
qed

theorem evidence_is_fixed_witness:
  "\<exists>s'. step\<^sup>*\<^sup>* dispatchedSystem s' \<and> s' \<noteq> dispatchedSystem \<and> incidentEvidence ''shop/checkout'' (ledger s') = ([], [], True)"
proof -
  let ?k = "''shop/checkout''"
  let ?s' = "dispatchedSystem\<lparr>ledger := endAttempt ?k [] 500 (ledger dispatchedSystem), threads := (threads dispatchedSystem)(0 := Idle),
      hist := hist dispatchedSystem @ [HFinish ''i-1'' 1 500]\<rparr>"
  have st: "step dispatchedSystem ?s'"
    using step.finish [of dispatchedSystem 0 ?k "''i-1''" 1 "[]" 500] by (simp add: dispatchedSystem_def attemptOutcomes_def)
  obtain r r' where r: "ledger dispatchedSystem ?k = Some r" "incidentEvidence ?k (ledger dispatchedSystem) = ([], [], True)"
    "ledger ?s' ?k = Some r'" "irId r' = irId r"
    by (simp add: dispatchedSystem_def endAttempt_def incidentEvidence_def freshRecord_def newRecord_def)
  from evidence_is_fixed [OF dispatched_reachable r_into_rtranclp [where r = step, OF st] r] have
    "incidentEvidence ?k (ledger ?s') = ([], [], True)" .
  moreover have "hist ?s' \<noteq> hist dispatchedSystem" by simp
  then have "?s' \<noteq> dispatchedSystem" by metis
  ultimately show ?thesis using r_into_rtranclp [where r = step, OF st] by blast
qed

lemma other_key:
  "key \<noteq> k \<Longrightarrow> freezeEvidence k logs events m key = m key"
  "key \<noteq> k \<Longrightarrow> endAttempt k outcome now m key = m key"
  "key \<noteq> k \<Longrightarrow> snd (recordAttempt k m) key = m key"
  by (simp_all add: freezeEvidence_def endAttempt_def recordAttempt_def split: option.splits)

text \<open>
  C11: an exhausted incident stays silent. In every interleaving, a step leaves the record of an incident that ended exhausted as it is, unless the
  step is an admission for that very Deployment with a generation other than the recorded one: neither time nor the other threads
  bring it back.
\<close>

theorem exhausted_stays_silent:
  assumes "reachable s" and "step s s'" and "ledger s key = Some r" and "irTerminalOutcome r = ''exhausted''"
  shows "ledger s' key = Some r \<or>
    (\<exists>newID g now r'. g \<noteq> irGeneration r \<and> beginAttempt newID key g now (ledger s) = Returns (r', admitProceed, ledger s'))"
proof -
  from reachable_structure [OF assms(1)] have inv: "claims_ok s" "records_ok s" by auto
  have "\<not> irInFlight r" using record_facts(3) [OF inv(2) assms(3)] assms(4) by auto
  then have free: "holds (threads s t) \<noteq> Some (key, i)" for t i
    using held_record [OF inv(1), of t key i] assms(3) by auto
  have quiet: "beginAttempt newID key (irGeneration r) now (ledger s) = Returns (r, admitSkip, ledger s)" for newID now
    using assms(3,4) by (simp add: beginAttempt_live liveRecord_def quiet_def outcome_defs)
  have revive: "\<exists>r' m'. beginAttempt newID key g now (ledger s) = Returns (r', admitProceed, m')" if "g \<noteq> irGeneration r" for newID g now
    using assms(3,4) that by (simp add: beginAttempt_live liveRecord_def claimRecord_eq MaxAttempts_def)
  have other: "m key = Some r" if "beginAttempt newID k0 g now (ledger s) = Returns (x, d, m)" "key \<noteq> k0" for newID k0 g now x d m
    using beginAttempt_effect [OF that(1) record_facts(1) [OF inv(2)]] that(2) assms(3) by auto
  from assms(2) show ?thesis
  proof cases
    case (admit t newID k g now x m)
    show ?thesis
    proof (cases "k = key")
      case True
      have "g \<noteq> irGeneration r" using admit(4) quiet [of newID now] True by (cases "g = irGeneration r") simp_all
      moreover have "ledger s' = m" using admit(1) by simp
      ultimately show ?thesis using True admit(4) by blast
    next
      case False
      with other [OF admit(4)] have "m key = Some r" by simp
      then show ?thesis using admit(1) by simp
    qed
  next
    case (refuse t newID k g now x d m)
    show ?thesis
    proof (cases "k = key")
      case True
      have "g = irGeneration r" using refuse(4,5) revive [of g newID now] True by (cases "g = irGeneration r") auto
      moreover have "ledger s' = m" using refuse(1) by simp
      ultimately show ?thesis using True refuse(4) quiet [of newID now] assms(3) by simp
    next
      case False
      with other [OF refuse(4)] have "m key = Some r" by simp
      then show ?thesis using refuse(1) by simp
    qed
  next
    case (freeze t k i c logs events)
    have "k \<noteq> key" using freeze(2) free [of t i] by auto
    then show ?thesis using freeze(1) assms(3) by (simp add: other_key)
  next
    case (giveUp t k i c outcome now)
    have "k \<noteq> key" using giveUp(2) free [of t i] by auto
    then show ?thesis using giveUp(1) assms(3) by (simp add: other_key)
  next
    case (dispatch t k i c n m)
    have "k \<noteq> key" using dispatch(2) free [of t i] by auto
    then have "m key = Some r" using dispatch(3) assms(3) other_key(3) [of key k "ledger s"] by simp
    then show ?thesis using dispatch(1) by simp
  next
    case (finish t k i n outcome now)
    have "k \<noteq> key" using finish(2) free [of t i] by auto
    then show ?thesis using finish(1) assms(3) by (simp add: other_key)
  next
    case (evidence t k i c logs events frozen)
    then show ?thesis using assms(3) by simp
  qed
qed

text \<open>Exhaustion is reached: an incident whose attempts keep failing can always go on to its next attempt, and ends after the third.\<close>

lemma reachable_finite: "reachable s \<Longrightarrow> finite (usedIds s)"
proof (induction rule: reachable.induct)
  case reachable_init
  then show ?case by (simp add: initialSystem_def)
next
  case (reachable_step s s')
  from reachable_step(2,3) show ?case by (induction rule: step.induct) auto
qed

lemma fresh_id:
  assumes "reachable s"
  obtains newID where "newID \<notin> usedIds s"
  using ex_new_if_finite [OF infinite_UNIV_listI reachable_finite [OF assms]] by blast

definition waiting :: "system \<Rightarrow> string \<Rightarrow> int \<Rightarrow> bool" where
  "waiting s key n \<longleftrightarrow> threads s 0 = Idle \<and>
     (\<exists>r. ledger s key = Some r \<and> irTerminalOutcome r = [] \<and> \<not> irInFlight r \<and> irEvidenceCaptured r \<and> irAttemptCount r = n)"

lemma another_attempt:
  assumes s: "reachable s" and "waiting s key n" and n: "0 < n" "n < MaxAttempts"
  shows "\<exists>s'. reachable s' \<and> waiting s' key (n + 1)"
proof -
  from assms(2) obtain r where idle: "threads s 0 = Idle" and r: "ledger s key = Some r" "irTerminalOutcome r = []" "\<not> irInFlight r"
    "irEvidenceCaptured r" "irAttemptCount r = n" by (auto simp: waiting_def)
  from fresh_id [OF s] obtain newID where new: "newID \<notin> usedIds s" .
  define now where "now = irLastAttemptAt r + backoffAfter n"
  define r1 where "r1 = r\<lparr>irGeneration := 0, irInFlight := True\<rparr>"
  have b: "beginAttempt newID key 0 now (ledger s) = Returns (r1, admitProceed, (ledger s)(key \<mapsto> r1))"
    using r n by (simp add: beginAttempt_live liveRecord_def claimRecord_eq now_def r1_def)
  define s1 where "s1 = s\<lparr>ledger := (ledger s)(key \<mapsto> r1), threads := (threads s)(0 := Claimed key (irId r1) now), usedIds := insert newID (usedIds s)\<rparr>"
  have "step s s1" unfolding s1_def by (rule step.admit [OF idle new b])
  define s2 where "s2 = s1\<lparr>threads := (threads s1)(0 := if True then Ready key (irId r1) now else Collecting key (irId r1) now)\<rparr>"
  have "step s1 s2" unfolding s2_def
    by (rule step.evidence [of s1 0 key "irId r1" now "irLogs r" "irEvents r" True]) (simp_all add: s1_def incidentEvidence_def r1_def r(4))
  define r2 where "r2 = r1\<lparr>irAttemptCount := n + 1\<rparr>"
  define s3 where "s3 = s2\<lparr>ledger := (ledger s2)(key \<mapsto> r2), threads := (threads s2)(0 := Running key (irId r1) (n + 1)), hist := hist s2 @ [HDispatch (irId r1) (n + 1) now]\<rparr>"
  have "step s2 s3" unfolding s3_def
    by (rule step.dispatch) (simp_all add: s2_def s1_def recordAttempt_def r1_def r2_def r(5))
  define s4 where "s4 = s3\<lparr>ledger := endAttempt key [] now (ledger s3), threads := (threads s3)(0 := Idle), hist := hist s3 @ [HFinish (irId r1) (n + 1) now]\<rparr>"
  have "step s3 s4" unfolding s4_def by (rule step.finish) (simp_all add: s3_def attemptOutcomes_def)
  have "waiting s4 key (n + 1)"
    using r by (simp add: waiting_def s4_def s3_def endAttempt_def r2_def r1_def)
  moreover have "reachable s4" using s \<open>step s s1\<close> \<open>step s1 s2\<close> \<open>step s2 s3\<close> \<open>step s3 s4\<close> reachable_step by metis
  ultimately show ?thesis by blast
qed

lemma exhausted_reachable: "\<exists>s r. reachable s \<and> threads s 0 = Idle \<and> ledger s ''shop/checkout'' = Some r \<and> irTerminalOutcome r = ''exhausted''"
proof -
  let ?k = "''shop/checkout''"
  let ?s' = "dispatchedSystem\<lparr>ledger := endAttempt ?k [] 500 (ledger dispatchedSystem), threads := (threads dispatchedSystem)(0 := Idle),
      hist := hist dispatchedSystem @ [HFinish ''i-1'' 1 500]\<rparr>"
  have "step dispatchedSystem ?s'"
    using step.finish [of dispatchedSystem 0 ?k "''i-1''" 1 "[]" 500] by (simp add: dispatchedSystem_def attemptOutcomes_def)
  then have "reachable ?s'" using dispatched_reachable reachable_step by blast
  moreover have "waiting ?s' ?k 1"
    by (simp add: waiting_def dispatchedSystem_def endAttempt_def freshRecord_def newRecord_def)
  ultimately obtain s where "reachable s" "waiting s ?k 2" using another_attempt [of ?s' ?k 1] by (auto simp: MaxAttempts_def)
  then obtain s where s: "reachable s" "waiting s ?k 3" using another_attempt [of s ?k 2] by (auto simp: MaxAttempts_def)
  then obtain r where idle: "threads s 0 = Idle" and r: "ledger s ?k = Some r" "irTerminalOutcome r = []" "\<not> irInFlight r" "irAttemptCount r = 3"
    by (auto simp: waiting_def)
  from fresh_id [OF s(1)] obtain newID where new: "newID \<notin> usedIds s" .
  define r' where "r' = r\<lparr>irGeneration := 0, irTerminalOutcome := outcomeExhausted, irTerminalAt := 0\<rparr>"
  have b: "beginAttempt newID ?k 0 0 (ledger s) = Returns (r', admitExhausted, (ledger s)(?k \<mapsto> r'))"
    using r by (simp add: beginAttempt_live liveRecord_def claimRecord_eq MaxAttempts_def r'_def)
  have "step s (s\<lparr>ledger := (ledger s)(?k \<mapsto> r'), usedIds := insert newID (usedIds s)\<rparr>)"
    by (rule step.refuse [OF idle new b]) simp
  with s(1) have "reachable (s\<lparr>ledger := (ledger s)(?k \<mapsto> r'), usedIds := insert newID (usedIds s)\<rparr>)" using reachable_step by blast
  then show ?thesis using idle by (intro exI) (auto simp: r'_def outcome_defs)
qed

theorem exhausted_stays_silent_witness:
  "\<exists>s s' r. reachable s \<and> step s s' \<and> ledger s ''shop/checkout'' = Some r \<and> irTerminalOutcome r = ''exhausted'' \<and>
     (ledger s' ''shop/checkout'' = Some r \<or>
      (\<exists>newID g now r'. g \<noteq> irGeneration r \<and> beginAttempt newID ''shop/checkout'' g now (ledger s) = Returns (r', admitProceed, ledger s')))"
proof -
  let ?k = "''shop/checkout''"
  from exhausted_reachable obtain s r where s: "reachable s" "threads s 0 = Idle" "ledger s ?k = Some r" "irTerminalOutcome r = ''exhausted''" by blast
  from fresh_id [OF s(1)] obtain newID where new: "newID \<notin> usedIds s" .
  have "beginAttempt newID ?k (irGeneration r) 0 (ledger s) = Returns (r, admitSkip, ledger s)"
    using s(3,4) by (simp add: beginAttempt_live liveRecord_def quiet_def outcome_defs)
  from step.refuse [OF s(2) new this] have st: "step s (s\<lparr>ledger := ledger s, usedIds := insert newID (usedIds s)\<rparr>)" by simp
  from exhausted_stays_silent [OF s(1) st s(3,4)] s st show ?thesis by blast
qed

end
