(* ===== verification/Progress.thy ===== *)
theory Progress
  imports Interleavings
begin

text \<open>
  Progress of the threads of \<^verbatim>\<open>Concurrency\<close>: a claim is always given up again. A thread that holds a claim has only finitely many ledger calls left before
  it releases it, no other thread can change where it is, and releasing it takes the incident out of flight. So along every
  run, finite or not, in which each thread that holds a claim eventually makes its next call, every claim is released.
\<close>

text \<open>How many ledger calls a thread has left at most.\<close>

fun callsLeft :: "phase \<Rightarrow> nat" where
  "callsLeft Idle = 0"
| "callsLeft (Running key i n) = 1"
| "callsLeft (Ready key i c) = 2"
| "callsLeft (Collecting key i c) = 3"
| "callsLeft (Claimed key i c) = 4"

definition released :: "system \<Rightarrow> string \<Rightarrow> string \<Rightarrow> bool" where
  "released s key i \<longleftrightarrow> (\<exists>r. ledger s key = Some r \<and> irId r = i \<and> \<not> irInFlight r)"

lemma end_released:
  assumes "claims_ok s" and "holds (threads s t) = Some (key, i)" and "ledger s' = endAttempt key outcome now (ledger s)"
  shows "released s' key i"
proof -
  from held_record [OF assms(1,2)] obtain r where r: "ledger s key = Some r" "irId r = i" by blast
  from endAttempt_effect [of "ledger s" key r outcome now, OF r(1)] r(2) assms(3) show ?thesis unfolding released_def by auto
qed

text \<open>What a step can do to a thread that holds a claim.\<close>

lemma holder_step:
  assumes "step s s'" and "claims_ok s" and "holds (threads s t) = Some (key, i)"
  shows "threads s' t = threads s t \<or>
    holds (threads s' t) = Some (key, i) \<and> callsLeft (threads s' t) < callsLeft (threads s t) \<or>
    threads s' t = Idle \<and> released s' key i"
  using assms
proof (induction rule: step.induct)
  case (giveUp s t' key' i' c outcome now)
  show ?case
  proof (cases "t' = t")
    case True
    with giveUp have "key' = key" by auto
    with True giveUp(3,4) end_released [of s t key i] show ?thesis by simp
  qed simp
next
  case (finish s t' key' i' n outcome now)
  show ?case
  proof (cases "t' = t")
    case True
    with finish have "key' = key" by auto
    with True finish(3,4) end_released [of s t key i] show ?thesis by simp
  qed simp
qed auto

text \<open>Runs: the system moves by steps and may rest between them.\<close>

definition run_of :: "(nat \<Rightarrow> system) \<Rightarrow> bool" where
  "run_of run \<longleftrightarrow> run 0 = initialSystem \<and> (\<forall>n. run (Suc n) = run n \<or> step (run n) (run (Suc n)))"

definition keeps_going :: "(nat \<Rightarrow> system) \<Rightarrow> nat \<Rightarrow> bool" where
  "keeps_going run t \<longleftrightarrow> (\<forall>n. threads (run n) t \<noteq> Idle \<longrightarrow> (\<exists>m > n. threads (run m) t \<noteq> threads (run n) t))"

lemma run_reachable: "run_of run \<Longrightarrow> reachable (run n)"
proof (induction n)
  case 0
  then show ?case by (simp add: run_of_def reachable_init)
next
  case (Suc n)
  then show ?case unfolding run_of_def by (metis reachable_step)
qed

lemma next_change:
  assumes "keeps_going run t" and "threads (run n) t \<noteq> Idle"
  shows "\<exists>m \<ge> n. threads (run m) t = threads (run n) t \<and> threads (run (Suc m)) t \<noteq> threads (run n) t"
proof (rule ccontr)
  assume no: "\<not> ?thesis"
  have stays: "threads (run m) t = threads (run n) t" if "n \<le> m" for m
    using that
  proof (induction m rule: dec_induct)
    case (step k)
    with no show ?case by metis
  qed simp
  from assms obtain m where "n < m" "threads (run m) t \<noteq> threads (run n) t" unfolding keeps_going_def by blast
  with stays [of m] show False by simp
qed

lemma claim_ends:
  assumes "run_of run" and "keeps_going run t" and "holds (threads (run n) t) = Some (key, i)"
  shows "\<exists>m > n. threads (run m) t = Idle \<and> released (run m) key i"
  using assms(3)
proof (induction "callsLeft (threads (run n) t)" arbitrary: n rule: less_induct)
  case less
  then have "threads (run n) t \<noteq> Idle" by auto
  from next_change [OF assms(2) this] obtain m where m: "n \<le> m" "threads (run m) t = threads (run n) t" "threads (run (Suc m)) t \<noteq> threads (run m) t" by auto
  then have "step (run m) (run (Suc m))" using assms(1) unfolding run_of_def by metis
  moreover have "claims_ok (run m)" using reachable_structure [OF run_reachable [OF assms(1)]] by blast
  moreover have h: "holds (threads (run m) t) = Some (key, i)" using m(2) less.prems by simp
  ultimately consider "holds (threads (run (Suc m)) t) = Some (key, i)" "callsLeft (threads (run (Suc m)) t) < callsLeft (threads (run n) t)"
    | "threads (run (Suc m)) t = Idle" "released (run (Suc m)) key i"
    using holder_step m by metis
  then show ?case
  proof cases
    case 1
    from less.hyps [OF 1(2,1)] obtain k where "k > Suc m" "threads (run k) t = Idle \<and> released (run k) key i" by blast
    with m(1) show ?thesis by (intro exI [of _ k]) auto
  next
    case 2
    with m(1) show ?thesis by (intro exI [of _ "Suc m"]) auto
  qed
qed

text \<open>
  C12: every claim is released. Along every run of the system in which the threads keep going (a thread that holds a claim makes its next ledger call at
  some later time, that is, the classifier, the collector and the attempt return), an incident that is in flight at one point of the run is taken out of
  flight at a later one: no Deployment stays blocked.
\<close>

theorem claims_are_released:
  assumes "run_of run" and "\<And>t. keeps_going run t" and "ledger (run n) key = Some r" and "irInFlight r"
  shows "\<exists>m > n. \<exists>r'. ledger (run m) key = Some r' \<and> irId r' = irId r \<and> \<not> irInFlight r'"
proof -
  have ok: "claims_ok (run n)" "records_ok (run n)" using reachable_structure [OF run_reachable [OF assms(1)]] by auto
  with assms(3,4) obtain t i where h: "holds (threads (run n) t) = Some (key, i)" unfolding records_ok_def by blast
  with held_record [OF ok(1) h] assms(3) have "irId r = i" by auto
  with claim_ends [OF assms(1,2) h] show ?thesis unfolding released_def by auto
qed

text \<open>A run: one reconcile claims an incident, escalates it, and the system rests.\<close>

definition escalatedSystem :: system where
  "escalatedSystem = claimedSystem\<lparr>ledger := endAttempt ''shop/checkout'' outcomeEscalated 200 (ledger claimedSystem), threads := (threads claimedSystem)(0 := Idle)\<rparr>"

definition escalatedRun :: "nat \<Rightarrow> system" where
  "escalatedRun n = (if n = 0 then initialSystem else if n = 1 then claimedSystem else escalatedSystem)"

lemma escalated_run: "run_of escalatedRun"
proof -
  let ?r = "(freshRecord ''i-1'' 4 100)\<lparr>irInFlight := True\<rparr>"
  have b: "beginAttempt ''i-1'' ''shop/checkout'' 4 100 (ledger initialSystem) = Returns (?r, admitProceed, [''shop/checkout'' \<mapsto> ?r])"
    by (simp add: initialSystem_def beginAttempt_live liveRecord_def claimRecord_eq MaxAttempts_def)
  have "step initialSystem claimedSystem"
    using step.admit [of initialSystem 0, OF _ _ b] by (simp add: initialSystem_def claimedSystem_def)
  moreover have "step claimedSystem escalatedSystem"
    using step.giveUp [of claimedSystem 0 "''shop/checkout''" "''i-1''" 100 outcomeEscalated 200] by (simp add: escalatedSystem_def claimedSystem_def)
  ultimately show ?thesis unfolding run_of_def escalatedRun_def by simp
qed

lemma escalated_keeps_going: "keeps_going escalatedRun t"
  unfolding keeps_going_def
proof (intro allI impI)
  fix n assume busy: "threads (escalatedRun n) t \<noteq> Idle"
  have "threads escalatedSystem t = Idle" by (simp add: escalatedSystem_def claimedSystem_def)
  with busy show "\<exists>m > n. threads (escalatedRun m) t \<noteq> threads (escalatedRun n) t"
    by (intro exI [of _ "Suc (Suc n)"]) (auto simp: escalatedRun_def)
qed

theorem claims_are_released_witness:
  "irInFlight (the (ledger (escalatedRun 1) ''shop/checkout'')) \<and>
   (\<exists>m r'. 1 < m \<and> ledger (escalatedRun m) ''shop/checkout'' = Some r' \<and> irId r' = ''i-1'' \<and> \<not> irInFlight r')"
proof -
  have r: "ledger (escalatedRun 1) ''shop/checkout'' = Some ((freshRecord ''i-1'' 4 100)\<lparr>irInFlight := True\<rparr>)"
    by (simp add: escalatedRun_def claimedSystem_def)
  from claims_are_released [OF escalated_run escalated_keeps_going r] r show ?thesis by auto
qed

end
