(* ===== verification/Evidence.thy ===== *)
theory Evidence
  imports Kube
begin

text \<open>
  The evidence of an incident, \<^verbatim>\<open>internal/controller/evidence.go\<close>: the tail of the crashed container's log and the
  recent Events of the Pod, its ReplicaSets and its Deployment. The log and event sources are interfaces, records of functions over the
  world; the typed clientset's log stream and the API reader's list of Events are parameters of their two implementations.

  Shown: collection never fails and its result is bounded, whatever the sources return; the events it keeps are a duplicate-free, ordered
  selection of the recent ones that drops only the oldest.
\<close>

section \<open>Events and sources\<close>

record Event =
  evtUID :: string
  evtLastTimestamp :: time
  evtEventTime :: time
  evtFirstTimestamp :: time
  evtCreationTimestamp :: time
  evtType :: string
  evtReason :: string
  evtInvolvedKind :: string
  evtInvolvedName :: string
  evtMessage :: string

definition evidenceLogTailLines :: int where "evidenceLogTailLines = 100"
definition evidenceLogMaxBytes :: nat where "evidenceLogMaxBytes = 4096"
definition evidenceLogReadCeiling :: nat where "evidenceLogReadCeiling = 4 * evidenceLogMaxBytes"
definition evidenceEventWindow :: duration where "evidenceEventWindow = 30 * Minute"
definition evidenceMaxEvents :: nat where "evidenceMaxEvents = 25"

definition kindReplicaSet :: string where "kindReplicaSet = ''ReplicaSet''"
definition kindDeployment :: string where "kindDeployment = ''Deployment''"

text \<open>\<open>Tail namespace pod container previous lines\<close> and \<open>ListFor namespace object\<close>.\<close>

record 'w PodLogFetcher =
  Tail :: "string \<Rightarrow> string \<Rightarrow> string \<Rightarrow> bool \<Rightarrow> int \<Rightarrow> 'w \<Rightarrow> (error + string) \<times> 'w"

record 'w EventLister =
  ListFor :: "string \<Rightarrow> string \<Rightarrow> 'w \<Rightarrow> (error + Event list) \<times> 'w"

record 'w EvidenceCollector =
  ecLogs :: "'w PodLogFetcher option"
  ecEvents :: "'w EventLister option"
  ecNow :: "('w \<Rightarrow> time \<times> 'w) option"

section \<open>Formatting\<close>

text \<open>
  \<^verbatim>\<open>Duration.Truncate(time.Second)\<close> rounds toward zero; \<^verbatim>\<open>Duration.String\<close> of a nonnegative number of whole seconds.
\<close>

definition truncateSecond :: "duration \<Rightarrow> duration" where
  "truncateSecond d = (if d < 0 then - ((- d) div Second * Second) else d div Second * Second)"

definition wholeSeconds_String :: "duration \<Rightarrow> string" where
  "wholeSeconds_String d =
     (let s = d div Second; h = s div 3600; m = s div 60 mod 60
      in (if h > 0 then Itoa h @ ''h'' @ Itoa m @ ''m'' else if m > 0 then Itoa m @ ''m'' else []) @ Itoa (s mod 60) @ ''s'')"

definition eventTime :: "Event \<Rightarrow> time" where
  "eventTime event =
     (if \<not> time_IsZero (evtLastTimestamp event) then evtLastTimestamp event
      else if \<not> time_IsZero (evtEventTime event) then evtEventTime event
      else if \<not> time_IsZero (evtFirstTimestamp event) then evtFirstTimestamp event
      else evtCreationTimestamp event)"

definition formatEvent :: "Event \<Rightarrow> time \<Rightarrow> string" where
  "formatEvent event now =
     (let age = max (truncateSecond (time_Sub now (eventTime event))) 0
      in wholeSeconds_String age @ '' ago: '' @ evtType event @ '' '' @ evtReason event @ '' ('' @ evtInvolvedKind event @ ''/'' @
         evtInvolvedName event @ ''): '' @ TrimSpace (evtMessage event))"

definition truncateTail :: "string \<Rightarrow> nat \<Rightarrow> string" where
  "truncateTail s maxBytes =
     (if length s \<le> maxBytes then s else ''...[truncated]...'' @ [CHR 0x0A] @ drop (length s - maxBytes) s)"

section \<open>Collection\<close>

definition collectLogs :: "'w EvidenceCollector \<Rightarrow> Pod \<Rightarrow> string \<Rightarrow> 'w \<Rightarrow> string \<times> 'w" where
  "collectLogs c pod containerName w =
     (case ecLogs c of
        None \<Rightarrow> ([], w)
      | Some logs \<Rightarrow>
        (let tail = Tail logs (Namespace (podMeta pod)) (Name (podMeta pod)) containerName;
             current = (\<lambda>w. case tail False evidenceLogTailLines w of
                 (Inl err, w') \<Rightarrow> ([], w')
               | (Inr out, w') \<Rightarrow> (truncateTail out evidenceLogMaxBytes, w'))
         in case tail True evidenceLogTailLines w of
             (Inl err, w1) \<Rightarrow> current w1
           | (Inr out, w1) \<Rightarrow> if TrimSpace out \<noteq> [] then (truncateTail out evidenceLogMaxBytes, w1) else current w1))"

definition Collector_now :: "('w \<Rightarrow> time \<times> 'w) \<Rightarrow> 'w EvidenceCollector \<Rightarrow> 'w \<Rightarrow> time \<times> 'w" where
  "Collector_now timeNow c = (case ecNow c of Some now \<Rightarrow> now | None \<Rightarrow> timeNow)"

definition evidenceNames :: "Pod \<Rightarrow> string \<Rightarrow> string list" where
  "evidenceNames pod ownerDeployment =
     [Name (podMeta pod)] @ map orName (filter (\<lambda>ref. orKind ref = kindReplicaSet) (OwnerReferences (podMeta pod))) @
     (if ownerDeployment \<noteq> [] then [ownerDeployment] else [])"

definition stale :: "time \<Rightarrow> Event \<Rightarrow> bool" where
  "stale now item \<longleftrightarrow> time_Sub now (eventTime item) > evidenceEventWindow"

text \<open>The two nested loops, with the map \<^verbatim>\<open>seen\<close> and the slice \<^verbatim>\<open>collected\<close> as their state.\<close>

fun collectItems :: "time \<Rightarrow> Event list \<Rightarrow> string set \<times> Event list \<Rightarrow> string set \<times> Event list" where
  "collectItems now [] st = st"
| "collectItems now (item # items) (seen, collected) =
     (if evtUID item \<in> seen then collectItems now items (seen, collected)
      else if stale now item then collectItems now items (seen, collected)
      else collectItems now items (insert (evtUID item) seen, collected @ [item]))"

fun collectNames :: "'w EventLister \<Rightarrow> string \<Rightarrow> time \<Rightarrow> string list \<Rightarrow> string set \<times> Event list \<Rightarrow> 'w \<Rightarrow> (string set \<times> Event list) \<times> 'w" where
  "collectNames lister namespace now [] st w = (st, w)"
| "collectNames lister namespace now (name # names) st w =
     (case ListFor lister namespace name w of
        (Inl err, w1) \<Rightarrow> collectNames lister namespace now names st w1
      | (Inr items, w1) \<Rightarrow> collectNames lister namespace now names (collectItems now items st) w1)"

text \<open>\<^verbatim>\<open>eventTime(a).Compare(eventTime(b))\<close>.\<close>

definition olderFirst :: "Event \<Rightarrow> Event \<Rightarrow> int" where
  "olderFirst a b = (if eventTime a < eventTime b then - 1 else if eventTime a > eventTime b then 1 else 0)"

definition newestEvents :: "Event list \<Rightarrow> Event list" where
  "newestEvents collected =
     (let sorted = SortFunc olderFirst collected
      in if length sorted > evidenceMaxEvents then drop (length sorted - evidenceMaxEvents) sorted else sorted)"

definition collectEvents :: "('w \<Rightarrow> time \<times> 'w) \<Rightarrow> 'w EvidenceCollector \<Rightarrow> Pod \<Rightarrow> string \<Rightarrow> 'w \<Rightarrow> string list \<times> 'w" where
  "collectEvents timeNow c pod ownerDeployment w =
     (case ecEvents c of
        None \<Rightarrow> ([], w)
      | Some lister \<Rightarrow>
        (case Collector_now timeNow c w of (now, w1) \<Rightarrow>
         (case collectNames lister (Namespace (podMeta pod)) now (evidenceNames pod ownerDeployment) ({}, []) w1 of
            ((seen, collected), w2) \<Rightarrow> (map (\<lambda>item. formatEvent item now) (newestEvents collected), w2))))"

text \<open>\<open>None\<close> is a nil collector or a nil Pod.\<close>

definition Collect :: "('w \<Rightarrow> time \<times> 'w) \<Rightarrow> 'w EvidenceCollector option \<Rightarrow> Pod option \<Rightarrow> string \<Rightarrow> string \<Rightarrow> 'w \<Rightarrow> (string \<times> string list) \<times> 'w" where
  "Collect timeNow collector pod containerName ownerDeployment w =
     (case (collector, pod) of
        (Some c, Some p) \<Rightarrow>
          (case collectLogs c p containerName w of (logs, w1) \<Rightarrow>
             (case collectEvents timeNow c p ownerDeployment w1 of (events, w2) \<Rightarrow> ((logs, events), w2)))
      | _ \<Rightarrow> (([], []), w))"

section \<open>The two sources of the manager\<close>

text \<open>
  A log stream is the bytes it delivers and how it ends (\<open>None\<close>: at end of file). \<^verbatim>\<open>io.ReadAll\<close> over an \<^verbatim>\<open>io.LimitReader\<close> stops at
  the limit without looking at what comes after it.
\<close>

definition readLimited :: "nat \<Rightarrow> string \<times> error option \<Rightarrow> error + string" where
  "readLimited n stream =
     (case stream of (bytes, end) \<Rightarrow>
        if n \<le> length bytes then Inr (take n bytes)
        else case end of None \<Rightarrow> Inr bytes | Some err \<Rightarrow> Inl err)"

definition Clientset_Tail :: "(string \<Rightarrow> string \<Rightarrow> string \<Rightarrow> bool \<Rightarrow> int \<Rightarrow> 'w \<Rightarrow> (error + (string \<times> error option)) \<times> 'w) option
    \<Rightarrow> string \<Rightarrow> string \<Rightarrow> string \<Rightarrow> bool \<Rightarrow> int \<Rightarrow> 'w \<Rightarrow> (error + string) \<times> 'w" where
  "Clientset_Tail client namespace podName containerName previous tailLines w =
     (case client of
        None \<Rightarrow> (Inl (Errorf ''read pod logs: clientset is required''), w)
      | Some openStream \<Rightarrow>
        (case openStream namespace podName containerName previous tailLines w of
           (Inl err, w1) \<Rightarrow> (Inl (Wrapf (''open log stream for '' @ namespace @ ''/'' @ podName @ '': '') err []), w1)
         | (Inr stream, w1) \<Rightarrow>
           (case readLimited evidenceLogReadCeiling stream of
              Inl err \<Rightarrow> (Inl (Wrapf (''read log stream for '' @ namespace @ ''/'' @ podName @ '': '') err []), w1)
            | Inr body \<Rightarrow> (Inr body, w1))))"

definition eventInvolvedObjectNameField :: string where
  "eventInvolvedObjectNameField = ''involvedObject.name''"

text \<open>The reader's list call, with the namespace and the field selector (field, value) it is given.\<close>

definition APIReader_ListFor :: "(string \<Rightarrow> string \<times> string \<Rightarrow> 'w \<Rightarrow> (error + Event list) \<times> 'w) option \<Rightarrow> string \<Rightarrow> string \<Rightarrow> 'w
    \<Rightarrow> (error + Event list) \<times> 'w" where
  "APIReader_ListFor reader namespace objectName w =
     (case reader of
        None \<Rightarrow> (Inl (Errorf ''list events: reader is required''), w)
      | Some listEvents \<Rightarrow>
        (case listEvents namespace (eventInvolvedObjectNameField, objectName) w of
           (Inl err, w1) \<Rightarrow> (Inl (Wrapf (''list events for '' @ namespace @ ''/'' @ objectName @ '': '') err []), w1)
         | (Inr items, w1) \<Rightarrow> (Inr items, w1)))"

section \<open>Bounds\<close>

lemma truncateTail_length: "length (truncateTail s n) \<le> n + 18"
  by (simp add: truncateTail_def)

lemma collectLogs_length: "length (fst (collectLogs c pod containerName w)) \<le> evidenceLogMaxBytes + 18"
  unfolding collectLogs_def Let_def
  by (simp add: truncateTail_length split: option.split prod.split sum.split)

lemma newestEvents_length: "length (newestEvents xs) \<le> evidenceMaxEvents"
  by (simp add: newestEvents_def Let_def)

lemma collectEvents_length: "length (fst (collectEvents timeNow c pod owner w)) \<le> evidenceMaxEvents"
  unfolding collectEvents_def by (simp add: newestEvents_length split: option.split prod.split)

text \<open>
  C25: evidence is bounded. Whatever the log and event sources return, and even with no collector at all, the collected log is at most 4096
  bytes after an 18-byte truncation mark and there are at most 25 event lines.
\<close>

theorem evidence_bounded:
  "length (fst (fst (Collect timeNow collector pod containerName ownerDeployment w))) \<le> 4096 + 18 \<and>
   length (snd (fst (Collect timeNow collector pod containerName ownerDeployment w))) \<le> 25"
  unfolding Collect_def
  by (simp add: collectLogs_length [unfolded evidenceLogMaxBytes_def, simplified] collectEvents_length [unfolded evidenceMaxEvents_def]
      split_beta split: option.split)

section \<open>Which events are kept\<close>

text \<open>
  A reference for the collection loops: all events of all successful listings in order, the recent ones among them, the first of each UID.
\<close>

fun listAll :: "'w EventLister \<Rightarrow> string \<Rightarrow> string list \<Rightarrow> 'w \<Rightarrow> Event list \<times> 'w" where
  "listAll lister namespace [] w = ([], w)"
| "listAll lister namespace (name # names) w =
     (case ListFor lister namespace name w of
        (Inl err, w1) \<Rightarrow> listAll lister namespace names w1
      | (Inr items, w1) \<Rightarrow> (case listAll lister namespace names w1 of (rest, w2) \<Rightarrow> (items @ rest, w2)))"

fun firstByUID :: "Event list \<Rightarrow> Event list" where
  "firstByUID [] = []"
| "firstByUID (e # es) = e # filter (\<lambda>x. evtUID x \<noteq> evtUID e) (firstByUID es)"

abbreviation recent :: "time \<Rightarrow> Event list \<Rightarrow> Event list" where
  "recent now items \<equiv> filter (\<lambda>e. \<not> stale now e) items"

lemma firstByUID_filter_UID: "firstByUID (filter (\<lambda>x. P (evtUID x)) es) = filter (\<lambda>x. P (evtUID x)) (firstByUID es)"
  by (induction es) (auto intro!: filter_cong)

lemma firstByUID_UIDs: "evtUID ` set (firstByUID es) = evtUID ` set es"
proof (induction es)
  case (Cons e es)
  have "evtUID ` {x \<in> set (firstByUID es). evtUID x \<noteq> evtUID e} = evtUID ` set (firstByUID es) - {evtUID e}" by auto
  with Cons show ?case by auto
qed simp

lemma firstByUID_set: "set (firstByUID es) \<subseteq> set es"
  by (induction es) auto

lemma firstByUID_distinct: "distinct (map evtUID (firstByUID es))"
  by (induction es) (auto simp: distinct_map_filter)

lemma collectItems_reference:
  "collectItems now items (seen, collected) =
     (seen \<union> evtUID ` set (recent now items), collected @ filter (\<lambda>e. evtUID e \<notin> seen) (firstByUID (recent now items)))"
  by (induction items arbitrary: seen collected) (auto intro!: filter_cong)

lemma firstByUID_append: "firstByUID (xs @ ys) = firstByUID xs @ filter (\<lambda>e. evtUID e \<notin> evtUID ` set xs) (firstByUID ys)"
  by (induction xs) (auto intro!: filter_cong)

lemma collectNames_reference:
  "collectNames lister namespace now names (seen, collected) w =
     (case listAll lister namespace names w of (items, w') \<Rightarrow>
        ((seen \<union> evtUID ` set (recent now items), collected @ filter (\<lambda>e. evtUID e \<notin> seen) (firstByUID (recent now items))), w'))"
proof (induction names arbitrary: seen collected w)
  case (Cons name names)
  show ?case
  proof (cases "ListFor lister namespace name w")
    case (Pair res w1)
    then show ?thesis
      by (cases res)
        (auto simp: Cons.IH collectItems_reference firstByUID_append image_Un split: prod.splits intro!: filter_cong)
  qed
qed simp

lemma olderFirst_order: "cmp_order olderFirst A"
  by (rule cmp_order_key [where f = eventTime]) (auto simp: olderFirst_def)

lemma olderFirst_le: "olderFirst a b \<le> 0 \<longleftrightarrow> eventTime a \<le> eventTime b"
  by (auto simp: olderFirst_def)

lemma newestEvents_facts:
  shows newest_sorted: "sorted_wrt (\<lambda>a b. eventTime a \<le> eventTime b) (newestEvents xs)"
    and newest_subset: "set (newestEvents xs) \<subseteq> set xs"
    and newest_distinct: "distinct (map evtUID xs) \<Longrightarrow> distinct (map evtUID (newestEvents xs))"
    and newest_dropped: "e \<in> set xs \<Longrightarrow> e \<notin> set (newestEvents xs) \<Longrightarrow>
      length (newestEvents xs) = evidenceMaxEvents \<and> (\<forall>k \<in> set (newestEvents xs). eventTime e \<le> eventTime k)"
proof -
  let ?s = "SortFunc olderFirst xs" and ?n = "length xs - evidenceMaxEvents"
  have n: "newestEvents xs = drop ?n ?s" by (simp add: newestEvents_def Let_def)
  have s: "sorted_wrt (\<lambda>a b. eventTime a \<le> eventTime b) ?s"
    using go_sort.sort_sorted [OF olderFirst_order, of xs] by (simp add: olderFirst_le)
  then have split: "sorted_wrt (\<lambda>a b. eventTime a \<le> eventTime b) (take ?n ?s @ drop ?n ?s)" by simp
  show "sorted_wrt (\<lambda>a b. eventTime a \<le> eventTime b) (newestEvents xs)"
    unfolding n using split by (simp only: sorted_wrt_append)
  show "set (newestEvents xs) \<subseteq> set xs" unfolding n using set_drop_subset go_sort.sort_set by fastforce
  show "distinct (map evtUID (newestEvents xs))" if "distinct (map evtUID xs)"
  proof -
    have "mset (map evtUID ?s) = mset (map evtUID xs)" by (simp add: go_sort.sort_perm)
    then have "distinct (map evtUID ?s)" using that mset_eq_imp_distinct_iff by blast
    then show ?thesis unfolding n drop_map [symmetric] by (rule distinct_drop)
  qed
  show "length (newestEvents xs) = evidenceMaxEvents \<and> (\<forall>k \<in> set (newestEvents xs). eventTime e \<le> eventTime k)"
    if e: "e \<in> set xs" "e \<notin> set (newestEvents xs)"
  proof -
    have "e \<in> set (take ?n ?s @ drop ?n ?s)" using e(1) by simp
    then have t: "e \<in> set (take ?n ?s)" using e(2) unfolding n set_append Un_iff by blast
    then have "0 < ?n" by (cases ?n) auto
    then show ?thesis using split t unfolding n sorted_wrt_append by auto
  qed
qed

text \<open>
  C24: which events become evidence. Let \<open>items\<close> be all the events the successful listings returned, in the order of the calls. The evidence lines
  are the formatted events of a list \<open>kept\<close> that has only recent events of \<open>items\<close> (at most 30 minutes old), no UID twice, in the order of their
  times; and every recent event's UID is among them unless 25 events were kept, none of them older than a recent event with that UID.
\<close>

theorem events_kept:
  assumes "ecEvents c = Some lister" and "Collector_now timeNow c w = (now, w1)"
    and "listAll lister (Namespace (podMeta pod)) (evidenceNames pod owner) w1 = (items, w2)"
  shows "\<exists>kept. collectEvents timeNow c pod owner w = (map (\<lambda>e. formatEvent e now) kept, w2) \<and>
    set kept \<subseteq> {e \<in> set items. time_Sub now (eventTime e) \<le> 30 * Minute} \<and> distinct (map evtUID kept) \<and>
    sorted_wrt (\<lambda>a b. eventTime a \<le> eventTime b) kept \<and>
    (\<forall>e \<in> set items. time_Sub now (eventTime e) \<le> 30 * Minute \<longrightarrow>
       evtUID e \<in> evtUID ` set kept \<or>
       length kept = 25 \<and> (\<exists>e' \<in> set items. evtUID e' = evtUID e \<and> (\<forall>k \<in> set kept. eventTime e' \<le> eventTime k)))"
proof -
  let ?all = "firstByUID (recent now items)"
  let ?kept = "newestEvents ?all"
  have fresh: "\<not> stale now e \<longleftrightarrow> time_Sub now (eventTime e) \<le> 30 * Minute" for e by (auto simp: stale_def evidenceEventWindow_def)
  have "collectEvents timeNow c pod owner w = (map (\<lambda>e. formatEvent e now) ?kept, w2)"
    using assms by (simp add: collectEvents_def collectNames_reference)
  moreover have "set ?kept \<subseteq> {e \<in> set items. time_Sub now (eventTime e) \<le> 30 * Minute}"
    using newest_subset firstByUID_set [of "recent now items"] by (fastforce simp: fresh)
  moreover have "evtUID e \<in> evtUID ` set ?kept \<or>
      length ?kept = 25 \<and> (\<exists>e' \<in> set items. evtUID e' = evtUID e \<and> (\<forall>k \<in> set ?kept. eventTime e' \<le> eventTime k))"
    if e: "e \<in> set items" "time_Sub now (eventTime e) \<le> 30 * Minute" for e
  proof -
    from e have "evtUID e \<in> evtUID ` set ?all" by (auto simp: firstByUID_UIDs fresh)
    then obtain e' where e': "e' \<in> set ?all" "evtUID e' = evtUID e" by auto
    then have "e' \<in> set items" using firstByUID_set by fastforce
    then show ?thesis using e' newest_dropped [OF e'(1)] unfolding evidenceMaxEvents_def by (metis image_eqI)
  qed
  ultimately show ?thesis using newest_sorted newest_distinct [OF firstByUID_distinct] by blast
qed

text \<open>A Pod of the example cluster, and a lister that returns the same two events for every name.\<close>

definition exampleEvt :: "string \<Rightarrow> time \<Rightarrow> Event" where
  "exampleEvt uid t = \<lparr>evtUID = uid, evtLastTimestamp = t, evtEventTime = 0, evtFirstTimestamp = 0, evtCreationTimestamp = 0,
     evtType = ''Warning'', evtReason = ''BackOff'', evtInvolvedKind = ''Pod'', evtInvolvedName = ''checkout-2'', evtMessage = ''restarting''\<rparr>"

definition exampleCollector :: "unit EvidenceCollector" where
  "exampleCollector = \<lparr>ecLogs = None, ecEvents = Some \<lparr>ListFor = (\<lambda>ns name w. (Inr [exampleEvt ''b'' (2 * Minute), exampleEvt ''a'' Minute], w))\<rparr>,
     ecNow = Some (\<lambda>w. (3 * Minute, w))\<rparr>"

theorem events_kept_witness:
  "\<exists>kept. collectEvents (\<lambda>w. (0, w)) exampleCollector (hd (clPods healedCluster)) [] () = (map (\<lambda>e. formatEvent e (3 * Minute)) kept, ()) \<and>
     distinct (map evtUID kept) \<and> sorted_wrt (\<lambda>a b. eventTime a \<le> eventTime b) kept \<and>
     (''a'' \<in> evtUID ` set kept \<or> length kept = 25)"
proof -
  let ?l = "\<lparr>ListFor = (\<lambda>ns name w. (Inr [exampleEvt ''b'' (2 * Minute), exampleEvt ''a'' Minute], w))\<rparr> :: unit EventLister"
  let ?pod = "hd (clPods healedCluster)"
  have l: "ecEvents exampleCollector = Some ?l" "Collector_now (\<lambda>w. (0, w)) exampleCollector () = (3 * Minute, ())"
    by (simp_all add: exampleCollector_def Collector_now_def)
  have names: "evidenceNames ?pod [] = [''checkout-2'', ''checkout-rs'']" by code_simp
  have all: "listAll ?l (Namespace (podMeta ?pod)) (evidenceNames ?pod []) () =
      ([exampleEvt ''b'' (2 * Minute), exampleEvt ''a'' Minute, exampleEvt ''b'' (2 * Minute), exampleEvt ''a'' Minute], ())"
    by (simp add: names)
  obtain kept where k: "collectEvents (\<lambda>w. (0, w)) exampleCollector ?pod [] () = (map (\<lambda>e. formatEvent e (3 * Minute)) kept, ())"
    "set kept \<subseteq> {exampleEvt ''b'' (2 * Minute), exampleEvt ''a'' Minute}" "distinct (map evtUID kept)"
    "sorted_wrt (\<lambda>a b. eventTime a \<le> eventTime b) kept"
    "time_Sub (3 * Minute) (eventTime (exampleEvt ''a'' Minute)) \<le> 30 * Minute \<longrightarrow> ''a'' \<in> evtUID ` set kept \<or> length kept = 25"
    using events_kept [OF l all] by (auto simp: exampleEvt_def)
  have "time_Sub (3 * Minute) (eventTime (exampleEvt ''a'' Minute)) \<le> 30 * Minute" by code_simp
  then show ?thesis using k by auto
qed

end
