(* ===== verification/Float64.thy ===== *)
theory Float64
  imports Complex_Main "HOL-Library.Log_Nat"
begin

text \<open>
  Go's \<^verbatim>\<open>float64\<close> (IEEE 754 binary64, round to nearest, ties to even) as far as the cost estimate uses it: NaN, the infinities, and the rational value of a
  finite number. The two zeros are one value: no operation of the program tells them apart. Each operation computes exactly and rounds once.
  Shown: a rounded result differs from the exact one by a factor of at most \<open>1 \<plusminus> 2\<^sup>-\<^sup>5\<^sup>3\<close> in the normal range, and how that adds up
  over several operations on nonnegative numbers.
\<close>

section \<open>Rounding\<close>

datatype float64 = NaN | Infinity bool | Finite rat

text \<open>\<open>Infinity True\<close> is negative infinity. \<open>binExp q\<close> is the binary exponent of a positive \<open>q\<close>.\<close>

definition binExp :: "rat \<Rightarrow> int" where
  "binExp q = (case quotient_of q of (a, b) \<Rightarrow>
     let e = bitlen a - bitlen b in if power_int 2 e \<le> q then e else e - 1)"

definition roundEven :: "rat \<Rightarrow> int" where
  "roundEven x =
     (let n = \<lfloor>x\<rfloor>; r = x - of_int n
      in if r < 1 / 2 then n else if 1 / 2 < r then n + 1 else if even n then n else n + 1)"

text \<open>The nearest multiple of the unit in the last place; subnormal numbers have the unit \<open>2\<^sup>-\<^sup>1\<^sup>0\<^sup>7\<^sup>4\<close>.\<close>

definition roundPos :: "rat \<Rightarrow> rat" where
  "roundPos q = (let unit = power_int 2 (max (binExp q - 52) (- 1074)) in of_int (roundEven (q / unit)) * unit)"

definition roundFloat :: "rat \<Rightarrow> float64" where
  "roundFloat q =
     (if q = 0 then Finite 0
      else let m = roundPos \<bar>q\<bar> in if 2 ^ 1024 \<le> m then Infinity (q < 0) else Finite (sgn q * m))"

section \<open>Operations\<close>

fun float_less_zero :: "float64 \<Rightarrow> bool" where
  "float_less_zero NaN = False"
| "float_less_zero (Infinity neg) = neg"
| "float_less_zero (Finite q) = (q < 0)"

fun float_add :: "float64 \<Rightarrow> float64 \<Rightarrow> float64" where
  "float_add (Finite p) (Finite q) = roundFloat (p + q)"
| "float_add (Infinity s) (Infinity t) = (if s = t then Infinity s else NaN)"
| "float_add (Infinity s) (Finite q) = Infinity s"
| "float_add (Finite p) (Infinity t) = Infinity t"
| "float_add x y = NaN"

fun float_mul :: "float64 \<Rightarrow> float64 \<Rightarrow> float64" where
  "float_mul (Finite p) (Finite q) = roundFloat (p * q)"
| "float_mul (Infinity s) (Infinity t) = Infinity (s \<noteq> t)"
| "float_mul (Infinity s) (Finite q) = (if q = 0 then NaN else Infinity (s \<noteq> (q < 0)))"
| "float_mul (Finite p) (Infinity t) = (if p = 0 then NaN else Infinity (t \<noteq> (p < 0)))"
| "float_mul x y = NaN"

text \<open>Division by a nonzero constant, and the conversion of an integer.\<close>

fun float_div_const :: "float64 \<Rightarrow> rat \<Rightarrow> float64" where
  "float_div_const (Finite p) k = roundFloat (p / k)"
| "float_div_const (Infinity s) k = Infinity (s \<noteq> (k < 0))"
| "float_div_const NaN k = NaN"

definition float_of_int :: "int \<Rightarrow> float64" where
  "float_of_int n = roundFloat (of_int n)"

section \<open>The error of one rounding\<close>

lemma bitlen_pow: "0 < n \<Longrightarrow> power_int 2 (bitlen n - 1) \<le> (of_int n :: rat) \<and> (of_int n :: rat) < power_int 2 (bitlen n)"
proof -
  assume n: "0 < n"
  then have "0 < bitlen n" using bitlen_eq_zero_iff [of n] bitlen_nonneg [of n] by linarith
  then have p: "power_int (2 :: rat) (bitlen n - 1) = of_int (2 ^ nat (bitlen n - 1))" "power_int (2 :: rat) (bitlen n) = of_int (2 ^ nat (bitlen n))"
    by (simp_all add: power_int_def)
  show ?thesis unfolding p of_int_le_iff of_int_less_iff using bitlen_bounds [OF n] by simp
qed

lemma binExp_bounds:
  assumes "0 < q"
  shows "power_int 2 (binExp q) \<le> q" and "q < power_int 2 (binExp q + 1)"
proof -
  obtain a b where ab: "quotient_of q = (a, b)" by fastforce
  then have b: "0 < b" and q: "q = of_int a / of_int b" using quotient_of_denom_pos quotient_of_div by blast+
  with assms have a: "0 < a" by (simp add: zero_less_divide_iff)
  let ?e = "bitlen a - bitlen b"
  note A = bitlen_pow [OF a] and B = bitlen_pow [OF b]
  have bpos: "0 < (of_int b :: rat)" using b by simp
  have "q < power_int 2 (bitlen a) / power_int 2 (bitlen b - 1)"
    unfolding q using A B bpos a by (intro frac_less) auto
  also have "\<dots> = power_int 2 (?e + 1)" by (simp add: power_int_diff power_int_add)
  finally have up: "q < power_int 2 (?e + 1)" .
  have "power_int 2 (bitlen a - 1) / power_int 2 (bitlen b) \<le> q"
    unfolding q using A B bpos a by (intro frac_le) auto
  also have "power_int (2 :: rat) (bitlen a - 1) / power_int 2 (bitlen b) = power_int 2 (?e - 1)"
    by (simp add: power_int_diff)
  finally have low: "power_int 2 (?e - 1) \<le> q" .
  show "power_int 2 (binExp q) \<le> q" "q < power_int 2 (binExp q + 1)"
    using up low by (auto simp: binExp_def ab Let_def)
qed

lemma roundEven_error: "\<bar>of_int (roundEven x) - x\<bar> \<le> 1 / 2"
proof -
  have "of_int \<lfloor>x\<rfloor> \<le> x" "x < of_int \<lfloor>x\<rfloor> + 1" by linarith+
  then show ?thesis unfolding roundEven_def Let_def by (simp add: abs_le_iff)
qed

lemma roundEven_nonneg: "0 \<le> x \<Longrightarrow> 0 \<le> roundEven x"
  by (simp add: roundEven_def Let_def)

lemma roundPos_nonneg: "0 \<le> q \<Longrightarrow> 0 \<le> roundPos q"
  unfolding roundPos_def Let_def by (intro mult_nonneg_nonneg) (auto intro!: roundEven_nonneg)

lemma roundPos_error:
  assumes "power_int 2 (- 1022) \<le> q"
  shows "\<bar>roundPos q - q\<bar> \<le> q / 2 ^ 53"
proof -
  have "(0 :: rat) < power_int 2 (- 1022)" by simp
  then have q: "0 < q" using assms by (rule less_le_trans)
  have "power_int (2 :: rat) (- 1022) < power_int 2 (binExp q + 1)" using assms binExp_bounds(2) [OF q] by (rule le_less_trans)
  then have "- 1022 < binExp q + 1" using power_int_increasing [of "binExp q + 1" "- 1022" "2 :: rat"] by force
  then have s: "max (binExp q - 52) (- 1074) = binExp q - 52" by simp
  define unit where "unit = power_int (2 :: rat) (binExp q - 52)"
  have u: "0 < unit" by (simp add: unit_def)
  have r: "roundPos q - q = (of_int (roundEven (q / unit)) - q / unit) * unit"
    using u by (simp add: roundPos_def Let_def s unit_def left_diff_distrib)
  have "\<bar>roundPos q - q\<bar> \<le> 1 / 2 * unit"
    unfolding r abs_mult using roundEven_error [of "q / unit"] u by (intro mult_mono) auto
  also have "\<dots> = power_int 2 (binExp q) / 2 ^ 53" by (simp add: unit_def power_int_diff)
  also have "\<dots> \<le> q / 2 ^ 53" using binExp_bounds(1) [OF q] by (intro divide_right_mono) auto
  finally show ?thesis .
qed

text \<open>No operation on numbers that are not negative gives a negative one.\<close>

lemma roundFloat_nonneg: "0 \<le> q \<Longrightarrow> \<not> float_less_zero (roundFloat q)"
  using roundPos_nonneg [of q] by (auto simp: roundFloat_def Let_def)

lemma float_add_nonneg: "\<not> float_less_zero x \<Longrightarrow> \<not> float_less_zero y \<Longrightarrow> \<not> float_less_zero (float_add x y)"
  by (cases x; cases y) (simp_all add: roundFloat_nonneg not_less)

lemma float_mul_nonneg: "\<not> float_less_zero x \<Longrightarrow> \<not> float_less_zero y \<Longrightarrow> \<not> float_less_zero (float_mul x y)"
  by (cases x; cases y) (simp_all add: roundFloat_nonneg not_less)

lemma float_div_const_nonneg: "\<not> float_less_zero x \<Longrightarrow> 0 < k \<Longrightarrow> \<not> float_less_zero (float_div_const x k)"
  by (cases x) (simp_all add: roundFloat_nonneg not_less)

section \<open>Several roundings\<close>

definition approx :: "nat \<Rightarrow> rat \<Rightarrow> rat \<Rightarrow> bool" where
  "approx k q c \<longleftrightarrow> 0 \<le> q \<and> q * (1 - 1 / 2 ^ 53) ^ k \<le> c \<and> c \<le> q * (1 + 1 / 2 ^ 53) ^ k"

lemma approx_exact: "0 \<le> q \<Longrightarrow> approx 0 q q"
  by (simp add: approx_def)

lemma approx_scale: "approx k q c \<Longrightarrow> 0 \<le> m \<Longrightarrow> approx k (q * m) (c * m)"
  by (auto simp: approx_def intro: mult_right_mono dest: mult_right_mono [of _ _ m] simp: mult_ac)

lemma approx_add: "approx k p c \<Longrightarrow> approx k q d \<Longrightarrow> approx k (p + q) (c + d)"
  by (auto simp: approx_def distrib_right)

text \<open>One more rounding, of a number that is 0 or neither tiny nor huge.\<close>

lemma approx_bounds:
  assumes "approx k q c" and "k \<le> 8"
  shows "q / 2 \<le> c" and "c \<le> 2 * q"
proof -
  have "(1 / 2 :: rat) \<le> (1 - 1 / 2 ^ 53) ^ 8" "(1 + 1 / 2 ^ 53 :: rat) ^ 8 \<le> 2" by (simp_all add: power_numeral_reduce)
  moreover have "(1 - 1 / 2 ^ 53 :: rat) ^ 8 \<le> (1 - 1 / 2 ^ 53) ^ k" using assms(2) by (intro power_decreasing) simp_all
  moreover have "(1 + 1 / 2 ^ 53 :: rat) ^ k \<le> (1 + 1 / 2 ^ 53) ^ 8" using assms(2) by (intro power_increasing) simp_all
  ultimately have "1 / 2 \<le> (1 - 1 / 2 ^ 53 :: rat) ^ k" "(1 + 1 / 2 ^ 53 :: rat) ^ k \<le> 2" by linarith+
  then have "q * (1 / 2) \<le> q * (1 - 1 / 2 ^ 53) ^ k" "q * (1 + 1 / 2 ^ 53) ^ k \<le> q * 2"
    using assms(1) unfolding approx_def by (intro mult_left_mono; simp)+
  with assms(1) show "q / 2 \<le> c" "c \<le> 2 * q" unfolding approx_def by auto
qed

lemma roundFloat_approx:
  assumes "approx k q c" and "k \<le> 8" and "q = 0 \<or> 1 / 2 ^ 32 \<le> q" and "q \<le> 2 ^ 80"
  shows "\<exists>d. roundFloat c = Finite d \<and> approx (Suc k) q d"
proof (cases "q = 0")
  case True
  then show ?thesis using assms(1) by (simp add: approx_def roundFloat_def)
next
  case False
  note b = approx_bounds [OF assms(1,2)]
  have m: "1 / 2 ^ 33 \<le> c" and up: "c \<le> 2 ^ 81" using b assms(3,4) False by auto
  then have c: "0 < c" by (intro less_le_trans [OF _ m]) simp
  have "power_int (2 :: rat) (- 1022) \<le> 1 / 2 ^ 33" by (simp add: power_int_minus_divide divide_le_cancel field_simps)
  then have e: "\<bar>roundPos c - c\<bar> \<le> c / 2 ^ 53" using m by (intro roundPos_error) (rule order_trans)
  have lo: "c * (1 - 1 / 2 ^ 53) \<le> roundPos c" and hi: "roundPos c \<le> c * (1 + 1 / 2 ^ 53)"
    using e unfolding abs_le_iff by (simp_all add: algebra_simps)
  have "roundPos c \<le> 2 ^ 81 * 2" using up c by (intro order_trans [OF hi] mult_mono) auto
  also have "(2 ^ 81 * 2 :: rat) < 2 ^ 1024" by simp
  finally have r: "roundFloat c = Finite (roundPos c)" using c by (simp add: roundFloat_def Let_def)
  have "q * (1 - 1 / 2 ^ 53) ^ Suc k \<le> c * (1 - 1 / 2 ^ 53)" "c * (1 + 1 / 2 ^ 53) \<le> q * (1 + 1 / 2 ^ 53) ^ Suc k"
    using assms(1) unfolding approx_def power_Suc2 mult.assoc [symmetric] by (intro mult_right_mono; simp)+
  with lo hi assms(1) have "approx (Suc k) q (roundPos c)" unfolding approx_def by linarith
  with r show ?thesis by blast
qed

text \<open>Four roundings stay within a factor of \<open>1 \<plusminus> 2\<^sup>-\<^sup>5\<^sup>0\<close>.\<close>

lemma approx_four: "approx 4 q c \<Longrightarrow> \<bar>c - q\<bar> \<le> q / 2 ^ 50"
proof -
  assume a: "approx 4 q c"
  have "(1 - 1 / 2 ^ 50 :: rat) \<le> (1 - 1 / 2 ^ 53) ^ 4" "(1 + 1 / 2 ^ 53 :: rat) ^ 4 \<le> 1 + 1 / 2 ^ 50"
    by (simp_all add: power_numeral_reduce)
  then have "q * (1 - 1 / 2 ^ 50) \<le> q * (1 - 1 / 2 ^ 53) ^ 4" "q * (1 + 1 / 2 ^ 53) ^ 4 \<le> q * (1 + 1 / 2 ^ 50)"
    using a unfolding approx_def by (intro mult_left_mono; simp)+
  with a have "q * (1 - 1 / 2 ^ 50) \<le> c" "c \<le> q * (1 + 1 / 2 ^ 50)" unfolding approx_def by linarith+
  then show ?thesis unfolding abs_le_iff by (simp add: algebra_simps)
qed

end
