(* ===== verification/Validator.thy ===== *)
theory Validator
  imports Prelude
begin

text \<open>
  The classifier's data and the deterministic validator between the language model and the automation,
  \<^verbatim>\<open>internal/classifier/types.go\<close> and \<^verbatim>\<open>validator.go\<close>. Shown: the validator accepts exactly the proposals of a declarative
  specification (\<open>acceptable\<close>), every accepted automation has an allowlisted action on the incident's own resource, with
  its sub-cause supported by the evidence, and validation of an accepted proposal is stable.
\<close>

section \<open>Types\<close>

definition ActionRestartPod :: string where "ActionRestartPod = ''restart_pod''"
definition ActionRolloutUndo :: string where "ActionRolloutUndo = ''rollout_undo''"
definition ActionEscalateToHuman :: string where "ActionEscalateToHuman = ''escalate_to_human''"

definition DecisionAutomate :: string where "DecisionAutomate = ''automate''"
definition DecisionEscalate :: string where "DecisionEscalate = ''escalate''"
definition DecisionFallbackMiss :: string where "DecisionFallbackMiss = ''fallback_miss''"

definition SubCauseTransientFailure :: string where "SubCauseTransientFailure = ''transient_failure''"
definition SubCauseBadDeploy :: string where "SubCauseBadDeploy = ''bad_deploy''"
definition SubCauseBadConfig :: string where "SubCauseBadConfig = ''bad_config''"
definition SubCauseApplicationPanic :: string where "SubCauseApplicationPanic = ''application_panic''"
definition SubCauseOOMAdjacent :: string where "SubCauseOOMAdjacent = ''oom_adjacent''"
definition SubCauseUnknown :: string where "SubCauseUnknown = ''unknown''"

definition TargetKindPod :: string where "TargetKindPod = ''Pod''"
definition TargetKindDeployment :: string where "TargetKindDeployment = ''Deployment''"

lemmas action_defs = ActionRestartPod_def ActionRolloutUndo_def ActionEscalateToHuman_def
lemmas decision_defs = DecisionAutomate_def DecisionEscalate_def DecisionFallbackMiss_def
lemmas sub_cause_defs = SubCauseTransientFailure_def SubCauseBadDeploy_def SubCauseBadConfig_def SubCauseApplicationPanic_def
  SubCauseOOMAdjacent_def SubCauseUnknown_def
lemmas target_kind_defs = TargetKindPod_def TargetKindDeployment_def
lemmas classifier_defs = action_defs decision_defs sub_cause_defs target_kind_defs

text \<open>The incident handed to the classifier: the detection event's fields with the evidence.\<close>

record IncidentInput =
  inPodName :: string
  inNamespace :: string
  inContainerName :: string
  inRestartCount :: int
  inOwnerDeployment :: string
  inTimestamp :: time
  inLogs :: string
  inEvents :: "string list"

record Target =
  tgKind :: string
  tgNamespace :: string
  tgName :: string

record Proposal =
  prSubCause :: string
  prRecommendedAction :: string
  prTarget :: Target
  prSafeForAutomation :: bool
  prReasoning :: string

record ValidationResult =
  vaValid :: bool
  vaDecision :: string
  vaReason :: string
  vaReasonCode :: string
  vaOutput :: Proposal

section \<open>The validator\<close>

definition allowedExecutableActions :: "string set" where
  "allowedExecutableActions = {ActionRestartPod, ActionRolloutUndo}"

definition allowedResponseActions :: "string set" where
  "allowedResponseActions = {ActionRestartPod, ActionRolloutUndo, ActionEscalateToHuman}"

definition allowedSubCauses :: "string set" where
  "allowedSubCauses = {SubCauseTransientFailure, SubCauseBadDeploy, SubCauseBadConfig, SubCauseApplicationPanic, SubCauseOOMAdjacent,
     SubCauseUnknown}"

definition normalizeProposal :: "Proposal \<Rightarrow> Proposal" where
  "normalizeProposal p =
     \<lparr>prSubCause = TrimSpace (prSubCause p), prRecommendedAction = TrimSpace (prRecommendedAction p),
      prTarget = \<lparr>tgKind = TrimSpace (tgKind (prTarget p)), tgNamespace = TrimSpace (tgNamespace (prTarget p)),
        tgName = TrimSpace (tgName (prTarget p))\<rparr>,
      prSafeForAutomation = prSafeForAutomation p, prReasoning = TrimSpace (prReasoning p)\<rparr>"

definition invalidResult :: "Proposal \<Rightarrow> string \<Rightarrow> string \<Rightarrow> ValidationResult" where
  "invalidResult proposal reasonCode reason =
     \<lparr>vaValid = False, vaDecision = DecisionFallbackMiss, vaReason = ''fallback miss: '' @ reason, vaReasonCode = reasonCode,
      vaOutput = proposal\<rparr>"

definition validResult :: "Proposal \<Rightarrow> string \<Rightarrow> string \<Rightarrow> ValidationResult" where
  "validResult proposal decision reason =
     \<lparr>vaValid = True, vaDecision = decision, vaReason = reason, vaReasonCode = [], vaOutput = proposal\<rparr>"

fun containsAny :: "string \<Rightarrow> string list \<Rightarrow> bool" where
  "containsAny evidence [] = False"
| "containsAny evidence (indicator # indicators) = (if Contains evidence indicator then True else containsAny evidence indicators)"

definition evidenceText :: "IncidentInput \<Rightarrow> string" where
  "evidenceText input = ToLower (inLogs input @ '' '' @ Join (inEvents input) '' '')"

definition hasRecentDeploymentEvidence :: "IncidentInput \<Rightarrow> bool" where
  "hasRecentDeploymentEvidence input = containsAny (evidenceText input)
     [''deployment updated'', ''deployment rollout'', ''rollout'', ''new revision'', ''revision'', ''replica set created'',
      ''replicaset created'', ''scaled up replica set'', ''new image deployed'', ''deployment changed'']"

definition transientIndicators :: "string list" where
  "transientIndicators = [''connection refused'', ''failed to connect'', ''temporarily unavailable'', ''temporary network failure'',
     ''timeout'', ''network failure'']"

definition badDeployIndicators :: "string list" where
  "badDeployIndicators = [''imagepullbackoff'', ''failed to pull image'', ''invalid image'', ''invalid-version'',
     ''back-off pulling image'', ''back-off restarting failed container'']"

text \<open>\<open>(reasonCode, reason)\<close>; an empty reason is no failure.\<close>

definition validateSemanticConsistency :: "Proposal \<Rightarrow> IncidentInput \<Rightarrow> string \<times> string" where
  "validateSemanticConsistency proposal input =
     (let evidence = evidenceText input in
      if prSubCause proposal = SubCauseTransientFailure then
        if \<not> containsAny evidence transientIndicators
        then (''semantic_guard_rejected'', ''semantic guard rejected transient_failure: incident evidence does not support a transient dependency or connectivity failure'')
        else ([], [])
      else if prSubCause proposal = SubCauseBadDeploy then
        if \<not> containsAny evidence badDeployIndicators
        then (''semantic_guard_rejected'', ''semantic guard rejected bad_deploy: incident evidence does not support a deployment or image failure'')
        else if \<not> hasRecentDeploymentEvidence input
        then (''missing_deployment_evidence'', ''semantic guard rejected bad_deploy: no recent deployment or rollout evidence'')
        else ([], [])
      else if prSubCause proposal = SubCauseBadConfig then
        if \<not> containsAny evidence [''configmap'', ''missing environment'', ''missing env'', ''required environment variable'', ''invalid configuration'']
        then (''semantic_guard_rejected'', ''semantic guard rejected bad_config: incident evidence does not support a configuration failure'')
        else ([], [])
      else if prSubCause proposal = SubCauseOOMAdjacent then
        if \<not> containsAny evidence [''oomkilled'', ''out of memory'', ''exceeded available memory'', ''exit code 137'']
        then (''semantic_guard_rejected'', ''semantic guard rejected oom_adjacent: incident evidence does not support an out-of-memory failure'')
        else ([], [])
      else if prSubCause proposal = SubCauseApplicationPanic then
        if \<not> containsAny evidence [''panic'', ''goroutine'', ''fatal error'']
        then (''semantic_guard_rejected'', ''semantic guard rejected application_panic: incident evidence does not support an application panic'')
        else ([], [])
      else ([], []))"

definition validateRestart :: "Proposal \<Rightarrow> IncidentInput \<Rightarrow> (string \<times> string) option" where
  "validateRestart proposal input =
     (if prSubCause proposal \<noteq> SubCauseTransientFailure
      then Some (''unsafe_executable_action'', ''restart_pod is only automatically allowed for a transient failure'')
      else if tgKind (prTarget proposal) \<noteq> TargetKindPod
      then Some (''wrong_target_kind'', ''restart_pod must target a Pod'')
      else if tgName (prTarget proposal) \<noteq> inPodName input
      then Some (''wrong_target_name'', ''restart target '' @ tgName (prTarget proposal) @ '' does not match detected pod '' @ inPodName input)
      else None)"

definition validateRollout :: "Proposal \<Rightarrow> IncidentInput \<Rightarrow> (string \<times> string) option" where
  "validateRollout proposal input =
     (if prSubCause proposal \<noteq> SubCauseBadDeploy
      then Some (''unsafe_executable_action'', ''rollout_undo is only automatically allowed for a bad deployment'')
      else if tgKind (prTarget proposal) \<noteq> TargetKindDeployment
      then Some (''wrong_target_kind'', ''rollout_undo must target a Deployment'')
      else if TrimSpace (inOwnerDeployment input) = []
      then Some (''missing_owner_deployment'', ''incident does not contain an owner deployment'')
      else if tgName (prTarget proposal) \<noteq> inOwnerDeployment input
      then Some (''wrong_target_name'', ''rollout target '' @ tgName (prTarget proposal) @ '' does not match owner deployment '' @ inOwnerDeployment input)
      else None)"

definition validateAutomatableProposal :: "Proposal \<Rightarrow> IncidentInput \<Rightarrow> ValidationResult" where
  "validateAutomatableProposal proposal input =
     (if prRecommendedAction proposal \<notin> allowedExecutableActions
      then invalidResult proposal ''unsafe_executable_action'' (''action '' @ prRecommendedAction proposal @ '' cannot be automatically executed'')
      else case validateSemanticConsistency proposal input of (code, reason) \<Rightarrow>
        if reason \<noteq> [] then invalidResult proposal code reason
        else case (if prRecommendedAction proposal = ActionRestartPod then validateRestart proposal input
                   else if prRecommendedAction proposal = ActionRolloutUndo then validateRollout proposal input else None) of
            Some (code, reason) \<Rightarrow> invalidResult proposal code reason
          | None \<Rightarrow> validResult proposal DecisionAutomate ''proposal passed automation validation'')"

definition validateEscalationProposal :: "Proposal \<Rightarrow> IncidentInput \<Rightarrow> ValidationResult" where
  "validateEscalationProposal proposal input =
     (if prRecommendedAction proposal \<noteq> ActionEscalateToHuman
      then invalidResult proposal ''escalation_required'' ''safe_for_automation=false requires escalate_to_human''
      else if tgKind (prTarget proposal) \<noteq> TargetKindPod
      then invalidResult proposal ''wrong_target_kind'' ''an escalation must identify the affected Pod''
      else if tgName (prTarget proposal) \<noteq> inPodName input
      then invalidResult proposal ''wrong_target_name''
        (''escalation target '' @ tgName (prTarget proposal) @ '' does not match detected pod '' @ inPodName input)
      else validResult proposal DecisionEscalate ''valid triage result; manual escalation required'')"

definition ValidateProposal :: "Proposal \<Rightarrow> IncidentInput \<Rightarrow> ValidationResult" where
  "ValidateProposal proposal0 input =
     (let proposal = normalizeProposal proposal0 in
      if prSubCause proposal \<notin> allowedSubCauses
      then invalidResult proposal ''unsupported_sub_cause'' (''unsupported sub-cause: '' @ prSubCause proposal)
      else if prRecommendedAction proposal \<notin> allowedResponseActions
      then invalidResult proposal ''unsupported_action'' (''recommended action '' @ prRecommendedAction proposal @ '' is not recognized'')
      else if tgKind (prTarget proposal) = [] then invalidResult proposal ''missing_target_kind'' ''target kind is empty''
      else if tgNamespace (prTarget proposal) = [] then invalidResult proposal ''missing_target_namespace'' ''target namespace is empty''
      else if tgName (prTarget proposal) = [] then invalidResult proposal ''missing_target_name'' ''target name is empty''
      else if prReasoning proposal = [] then invalidResult proposal ''missing_reasoning'' ''reasoning is empty''
      else if tgNamespace (prTarget proposal) \<noteq> inNamespace input
      then invalidResult proposal ''namespace_mismatch''
        (''target namespace '' @ tgNamespace (prTarget proposal) @ '' does not match incident namespace '' @ inNamespace input)
      else if prSafeForAutomation proposal then validateAutomatableProposal proposal input
      else validateEscalationProposal proposal input)"

section \<open>What the validator accepts\<close>

lemma containsAny_iff: "containsAny evidence indicators \<longleftrightarrow> (\<exists>i \<in> set indicators. Contains evidence i)"
  by (induction indicators) auto

text \<open>
  The specification, case by case of the proposal's kind: the three proposals that may leave the validator.
\<close>

definition supportedRestart :: "Proposal \<Rightarrow> IncidentInput \<Rightarrow> bool" where
  "supportedRestart p input \<longleftrightarrow> prSafeForAutomation p \<and> prRecommendedAction p = ''restart_pod'' \<and> prSubCause p = ''transient_failure'' \<and>
     prTarget p = \<lparr>tgKind = ''Pod'', tgNamespace = inNamespace input, tgName = inPodName input\<rparr> \<and>
     (\<exists>i \<in> set transientIndicators. Contains (evidenceText input) i)"

definition supportedRollout :: "Proposal \<Rightarrow> IncidentInput \<Rightarrow> bool" where
  "supportedRollout p input \<longleftrightarrow> prSafeForAutomation p \<and> prRecommendedAction p = ''rollout_undo'' \<and> prSubCause p = ''bad_deploy'' \<and>
     prTarget p = \<lparr>tgKind = ''Deployment'', tgNamespace = inNamespace input, tgName = inOwnerDeployment input\<rparr> \<and>
     (\<exists>i \<in> set badDeployIndicators. Contains (evidenceText input) i) \<and> hasRecentDeploymentEvidence input"

definition properEscalation :: "Proposal \<Rightarrow> IncidentInput \<Rightarrow> bool" where
  "properEscalation p input \<longleftrightarrow> \<not> prSafeForAutomation p \<and> prRecommendedAction p = ''escalate_to_human'' \<and> prSubCause p \<in> allowedSubCauses \<and>
     prTarget p = \<lparr>tgKind = ''Pod'', tgNamespace = inNamespace input, tgName = inPodName input\<rparr>"

definition acceptable :: "Proposal \<Rightarrow> IncidentInput \<Rightarrow> bool" where
  "acceptable p input \<longleftrightarrow> prReasoning p \<noteq> [] \<and> tgNamespace (prTarget p) \<noteq> [] \<and> tgName (prTarget p) \<noteq> [] \<and>
     (supportedRestart p input \<or> supportedRollout p input \<or> properEscalation p input)"

lemma invalidResult_sel [simp]:
  "vaValid (invalidResult p c r) = False" "vaDecision (invalidResult p c r) = DecisionFallbackMiss" "vaOutput (invalidResult p c r) = p"
  by (simp_all add: invalidResult_def)

lemma validResult_sel [simp]:
  "vaValid (validResult p d r) = True" "vaDecision (validResult p d r) = d" "vaOutput (validResult p d r) = p"
  by (simp_all add: validResult_def)

lemma normalizeProposal_idem [simp]: "normalizeProposal (normalizeProposal p) = normalizeProposal p"
  by (simp add: normalizeProposal_def)

lemmas validate_defs = ValidateProposal_def validateAutomatableProposal_def validateEscalationProposal_def Let_def
lemmas result_sels = invalidResult_sel validResult_sel

lemma automatable_shape:
  "(\<exists>c r. validateAutomatableProposal p input = invalidResult p c r) \<or> (\<exists>r. validateAutomatableProposal p input = validResult p DecisionAutomate r)"
  unfolding validateAutomatableProposal_def by (simp only: split: if_split prod.split option.split) blast

lemma escalation_shape:
  "(\<exists>c r. validateEscalationProposal p input = invalidResult p c r) \<or> (\<exists>r. validateEscalationProposal p input = validResult p DecisionEscalate r)"
  unfolding validateEscalationProposal_def by (simp only: split: if_split) blast

lemma automatable_output: "vaOutput (validateAutomatableProposal p input) = p"
  using automatable_shape [of p input] by auto

lemma escalation_output: "vaOutput (validateEscalationProposal p input) = p"
  using escalation_shape [of p input] by auto

lemma Validate_output [simp]: "vaOutput (ValidateProposal p input) = normalizeProposal p"
  unfolding ValidateProposal_def Let_def
  by (simp only: result_sels automatable_output escalation_output split: if_split) simp

text \<open>The semantic guard lets a proposal pass exactly when the evidence shows one of the indicators of its sub-cause.\<close>

lemma sub_cause_neq: "SubCauseBadDeploy \<noteq> SubCauseTransientFailure"
  by (simp add: SubCauseBadDeploy_def SubCauseTransientFailure_def)

lemma guard_transient:
  assumes "prSubCause p = SubCauseTransientFailure"
  shows "snd (validateSemanticConsistency p input) = [] \<longleftrightarrow> containsAny (evidenceText input) transientIndicators"
  unfolding validateSemanticConsistency_def Let_def assms
  by (simp only: simp_thms if_True if_False snd_conv list.simps(3) split: if_split)

lemma guard_bad_deploy:
  assumes "prSubCause p = SubCauseBadDeploy"
  shows "snd (validateSemanticConsistency p input) = [] \<longleftrightarrow>
     containsAny (evidenceText input) badDeployIndicators \<and> hasRecentDeploymentEvidence input"
  unfolding validateSemanticConsistency_def Let_def assms
  by (simp only: sub_cause_neq simp_thms if_True if_False snd_conv list.simps(3) split: if_split) blast

lemma automatable_decision:
  "vaDecision (validateAutomatableProposal p input) = (if vaValid (validateAutomatableProposal p input) then DecisionAutomate else DecisionFallbackMiss)"
  using automatable_shape [of p input] by auto

lemma escalation_decision:
  "vaDecision (validateEscalationProposal p input) = (if vaValid (validateEscalationProposal p input) then DecisionEscalate else DecisionFallbackMiss)"
  using escalation_shape [of p input] by auto

lemma validateRestart_None:
  "validateRestart p input = None \<longleftrightarrow>
     prSubCause p = SubCauseTransientFailure \<and> tgKind (prTarget p) = TargetKindPod \<and> tgName (prTarget p) = inPodName input"
  unfolding validateRestart_def by (simp only: simp_thms option.simps(3) split: if_split) blast

lemma validateRollout_None:
  "validateRollout p input = None \<longleftrightarrow> prSubCause p = SubCauseBadDeploy \<and> tgKind (prTarget p) = TargetKindDeployment \<and>
     TrimSpace (inOwnerDeployment input) \<noteq> [] \<and> tgName (prTarget p) = inOwnerDeployment input"
  unfolding validateRollout_def by (simp only: simp_thms option.simps(3) split: if_split) blast

lemma action_neq [simp]:
  "ActionRestartPod \<noteq> ActionRolloutUndo" "ActionRolloutUndo \<noteq> ActionRestartPod"
  "ActionRestartPod \<noteq> ActionEscalateToHuman" "ActionEscalateToHuman \<noteq> ActionRestartPod"
  "ActionRolloutUndo \<noteq> ActionEscalateToHuman" "ActionEscalateToHuman \<noteq> ActionRolloutUndo"
  by (simp_all add: action_defs)

lemma automatable_valid:
  "vaValid (validateAutomatableProposal p input) \<longleftrightarrow>
     snd (validateSemanticConsistency p input) = [] \<and>
     (prRecommendedAction p = ActionRestartPod \<and> validateRestart p input = None \<or>
      prRecommendedAction p = ActionRolloutUndo \<and> validateRollout p input = None)"
proof -
  obtain code reason where g: "validateSemanticConsistency p input = (code, reason)" by fastforce
  consider "prRecommendedAction p = ActionRestartPod" | "prRecommendedAction p = ActionRolloutUndo"
    | "prRecommendedAction p \<noteq> ActionRestartPod" "prRecommendedAction p \<noteq> ActionRolloutUndo" by blast
  then show ?thesis
  proof cases
    case 1
    show ?thesis
      unfolding validateAutomatableProposal_def allowedExecutableActions_def g prod.case snd_conv 1
      by (cases "validateRestart p input") (simp_all only: result_sels insert_iff simp_thms action_neq if_True if_False option.case option.simps(3) split: if_split prod.split)
  next
    case 2
    show ?thesis
      unfolding validateAutomatableProposal_def allowedExecutableActions_def g prod.case snd_conv 2
      by (cases "validateRollout p input") (simp_all only: result_sels insert_iff simp_thms action_neq if_True if_False option.case option.simps(3) split: if_split prod.split)
  next
    case 3
    then show ?thesis
      unfolding validateAutomatableProposal_def allowedExecutableActions_def by (simp only: result_sels insert_iff empty_iff simp_thms if_True)
  qed
qed

lemma escalation_valid:
  "vaValid (validateEscalationProposal p input) \<longleftrightarrow>
     prRecommendedAction p = ActionEscalateToHuman \<and> tgKind (prTarget p) = TargetKindPod \<and> tgName (prTarget p) = inPodName input"
  unfolding validateEscalationProposal_def
  by (simp only: result_sels simp_thms split: if_split) blast

lemma decision_neq [simp]:
  "DecisionAutomate \<noteq> DecisionEscalate" "DecisionEscalate \<noteq> DecisionAutomate" "DecisionAutomate \<noteq> DecisionFallbackMiss"
  "DecisionFallbackMiss \<noteq> DecisionAutomate" "DecisionEscalate \<noteq> DecisionFallbackMiss" "DecisionFallbackMiss \<noteq> DecisionEscalate"
  by (simp_all add: decision_defs)

definition wellFormed :: "Proposal \<Rightarrow> IncidentInput \<Rightarrow> bool" where
  "wellFormed p input \<longleftrightarrow> prSubCause p \<in> allowedSubCauses \<and> prRecommendedAction p \<in> allowedResponseActions \<and> tgKind (prTarget p) \<noteq> [] \<and>
     tgNamespace (prTarget p) \<noteq> [] \<and> tgName (prTarget p) \<noteq> [] \<and> prReasoning p \<noteq> [] \<and> tgNamespace (prTarget p) = inNamespace input"

lemma Validate_wellFormed:
  assumes "wellFormed (normalizeProposal p) input"
  shows "ValidateProposal p input =
     (if prSafeForAutomation p then validateAutomatableProposal (normalizeProposal p) input
      else validateEscalationProposal (normalizeProposal p) input)"
proof -
  have "prSafeForAutomation (normalizeProposal p) = prSafeForAutomation p" by (simp add: normalizeProposal_def)
  moreover have "inNamespace input \<noteq> []" using assms by (metis wellFormed_def)
  ultimately show ?thesis using assms unfolding ValidateProposal_def Let_def wellFormed_def
    by (simp only: simp_thms if_True if_False)
qed

lemma Validate_malformed: "\<not> wellFormed (normalizeProposal p) input \<Longrightarrow> \<not> vaValid (ValidateProposal p input) \<and> vaDecision (ValidateProposal p input) = DecisionFallbackMiss"
  unfolding ValidateProposal_def Let_def wellFormed_def
  by (simp only: result_sels simp_thms de_Morgan_conj split: if_split) blast

lemma normal_targets:
  "TrimSpace (tgName (prTarget (normalizeProposal p))) = tgName (prTarget (normalizeProposal p))"
  by (simp add: normalizeProposal_def)

lemma acceptable_automation:
  assumes "wellFormed p input" and "TrimSpace (tgName (prTarget p)) = tgName (prTarget p)" and "prSafeForAutomation p"
  shows "vaValid (validateAutomatableProposal p input) \<longleftrightarrow> supportedRestart p input \<or> supportedRollout p input"
proof -
  obtain k ns n where t: "prTarget p = \<lparr>tgKind = k, tgNamespace = ns, tgName = n\<rparr>" by (cases "prTarget p") auto
  have n: "n \<noteq> []" "TrimSpace n = n" "ns = inNamespace input" using assms(1,2) by (simp_all add: wellFormed_def t)
  have "prRecommendedAction p = ActionRestartPod \<and> snd (validateSemanticConsistency p input) = [] \<and> validateRestart p input = None
      \<longleftrightarrow> supportedRestart p input"
    unfolding validateRestart_None supportedRestart_def t
    using guard_transient [of p input] n(3) assms(3)
    by (auto simp: ActionRestartPod_def SubCauseTransientFailure_def TargetKindPod_def containsAny_iff)
  moreover have "prRecommendedAction p = ActionRolloutUndo \<and> snd (validateSemanticConsistency p input) = [] \<and> validateRollout p input = None
      \<longleftrightarrow> supportedRollout p input"
    unfolding validateRollout_None supportedRollout_def t
    using guard_bad_deploy [of p input] n assms(3)
    by (auto simp: ActionRolloutUndo_def SubCauseBadDeploy_def TargetKindDeployment_def containsAny_iff)
  ultimately show ?thesis unfolding automatable_valid by blast
qed

lemma acceptable_escalation:
  assumes "wellFormed p input" and "\<not> prSafeForAutomation p"
  shows "vaValid (validateEscalationProposal p input) \<longleftrightarrow> properEscalation p input"
proof -
  obtain k ns n where t: "prTarget p = \<lparr>tgKind = k, tgNamespace = ns, tgName = n\<rparr>" by (cases "prTarget p") auto
  then show ?thesis using assms unfolding escalation_valid properEscalation_def wellFormed_def
    by (auto simp: ActionEscalateToHuman_def TargetKindPod_def)
qed

lemma acceptable_wellFormed:
  assumes "acceptable p input"
  shows "wellFormed p input"
proof -
  have "SubCauseTransientFailure \<in> allowedSubCauses" "SubCauseBadDeploy \<in> allowedSubCauses" by (simp_all add: allowedSubCauses_def)
  moreover have "''restart_pod'' \<in> allowedResponseActions" "''rollout_undo'' \<in> allowedResponseActions" "''escalate_to_human'' \<in> allowedResponseActions"
    by (simp_all add: allowedResponseActions_def action_defs)
  ultimately show ?thesis
    using assms unfolding acceptable_def supportedRestart_def supportedRollout_def properEscalation_def wellFormed_def
      SubCauseTransientFailure_def SubCauseBadDeploy_def
    by (elim conjE disjE) simp_all
qed

lemma acceptable_parts:
  assumes "wellFormed p input" and "TrimSpace (tgName (prTarget p)) = tgName (prTarget p)"
  shows "acceptable p input \<longleftrightarrow> (if prSafeForAutomation p then vaValid (validateAutomatableProposal p input) else vaValid (validateEscalationProposal p input))"
proof (cases "prSafeForAutomation p")
  case True
  then have "\<not> properEscalation p input" by (simp add: properEscalation_def)
  with True assms acceptable_automation [OF assms True] show ?thesis by (auto simp: acceptable_def wellFormed_def)
next
  case False
  then have "\<not> supportedRestart p input" "\<not> supportedRollout p input" by (simp_all add: supportedRestart_def supportedRollout_def)
  with False assms acceptable_escalation [OF assms(1) False] show ?thesis by (auto simp: acceptable_def wellFormed_def)
qed

lemma Validate_valid: "vaValid (ValidateProposal p input) = acceptable (normalizeProposal p) input"
proof (cases "wellFormed (normalizeProposal p) input")
  case True
  have "prSafeForAutomation (normalizeProposal p) = prSafeForAutomation p" by (simp add: normalizeProposal_def)
  then show ?thesis unfolding acceptable_parts [OF True normal_targets] Validate_wellFormed [OF True] by simp
next
  case False
  with acceptable_wellFormed Validate_malformed [OF False] show ?thesis by blast
qed

lemma Validate_decision:
  "vaDecision (ValidateProposal p input) =
     (if \<not> vaValid (ValidateProposal p input) then DecisionFallbackMiss else if prSafeForAutomation p then DecisionAutomate else DecisionEscalate)"
proof (cases "wellFormed (normalizeProposal p) input")
  case True
  then show ?thesis unfolding Validate_wellFormed [OF True] by (simp add: automatable_decision escalation_decision)
next
  case False
  with Validate_malformed [OF False] show ?thesis by simp
qed

text \<open>
  C9: the validator implements its specification. A proposal is accepted exactly when, trimmed, it is acceptable: a restart
  of the incident's own Pod for a transient failure that the evidence supports, a rollback of the incident's own owning Deployment for a bad deployment
  that the evidence supports together with rollout evidence, or an escalation of the incident's own Pod; always with reasoning and nonempty
  names. The decision is automate for the first two, escalate for the third, and a fallback miss otherwise, and the output is the trimmed proposal.
\<close>

theorem validator_decides_acceptable:
  "vaValid (ValidateProposal p input) = acceptable (normalizeProposal p) input \<and>
   vaDecision (ValidateProposal p input) =
     (if \<not> acceptable (normalizeProposal p) input then ''fallback_miss'' else if prSafeForAutomation p then ''automate'' else ''escalate'') \<and>
   vaOutput (ValidateProposal p input) = normalizeProposal p"
  using Validate_valid [of p input] Validate_decision [of p input] by (simp add: decision_defs)

end
