(* ===== verification/Classification.thy ===== *)
theory Classification
  imports Float64 Validator
begin

text \<open>
  The classification service, \<^verbatim>\<open>internal/classifier/service.go\<close> with \<^verbatim>\<open>cost.go\<close> and \<^verbatim>\<open>config.go\<close>, and the rule-based classifier
  \<^verbatim>\<open>mock_classifier.go\<close>. A classifier is an interface: its metadata if it has any, its call and, for the
  providers that report token usage, the call with metadata. The service starts the call in a goroutine; whether its answer or the end of the context comes first
  in the \<^verbatim>\<open>select\<close> is the environment's choice, an argument (\<open>Some err\<close>: the context ended first, with that error). It is given what
  the goroutine does to the world, so that the world after a timeout may be one in which the abandoned call has happened, in part or as a whole, or not yet.

  Shown: whatever the classifier returns and however its call ends, a proposal that leaves the service marked safe
  for automation is supported by the incident's evidence and targets the incident's own resource; what the service
  falls back to; which proposals of the rule-based classifier the validator accepts.
\<close>

section \<open>Cost\<close>

text \<open>
  Prices and costs are \<^verbatim>\<open>float64\<close>. Go may fuse the last product with the sum on some architectures; the model rounds each operation.
\<close>

record TokenUsage =
  tuInputTokens :: int
  tuOutputTokens :: int

record ModelPricing =
  mpInputPerMillionUSD :: float64
  mpOutputPerMillionUSD :: float64

definition nonNegativeInt :: "int \<Rightarrow> int" where
  "nonNegativeInt value = (if value < 0 then 0 else value)"

definition nonNegativeFloat :: "float64 \<Rightarrow> float64" where
  "nonNegativeFloat value = (if float_less_zero value then Finite 0 else value)"

definition TotalTokens :: "TokenUsage \<Rightarrow> int" where
  "TotalTokens u = sint (word_of_int (nonNegativeInt (tuInputTokens u) + nonNegativeInt (tuOutputTokens u)) :: 64 word)"

definition EstimateCostUSD :: "TokenUsage \<Rightarrow> ModelPricing \<Rightarrow> float64" where
  "EstimateCostUSD usage pricing =
     (let inputCost = float_mul (float_div_const (float_of_int (nonNegativeInt (tuInputTokens usage))) 1000000)
            (nonNegativeFloat (mpInputPerMillionUSD pricing));
          outputCost = float_mul (float_div_const (float_of_int (nonNegativeInt (tuOutputTokens usage))) 1000000)
            (nonNegativeFloat (mpOutputPerMillionUSD pricing))
      in float_add inputCost outputCost)"

definition PricingForModel :: "string \<Rightarrow> ModelPricing option" where
  "PricingForModel model =
     (if TrimSpace model = ''claude-sonnet-5''
      then Some \<lparr>mpInputPerMillionUSD = float_of_int 2, mpOutputPerMillionUSD = float_of_int 10\<rparr> else None)"

section \<open>The service\<close>

record ClassifierCallMetadata =
  cmInputTokens :: int
  cmOutputTokens :: int
  cmTotalTokens :: int

definition zeroMetadata :: ClassifierCallMetadata where
  "zeroMetadata = \<lparr>cmInputTokens = 0, cmOutputTokens = 0, cmTotalTokens = 0\<rparr>"

record 'w Classifier =
  clMetadata :: "(string \<times> string) option"
  clClassify :: "IncidentInput \<Rightarrow> 'w \<Rightarrow> (Proposal \<times> error option) \<times> 'w"
  clClassifyWithMetadata :: "(IncidentInput \<Rightarrow> 'w \<Rightarrow> (Proposal \<times> ClassifierCallMetadata \<times> error option) \<times> 'w) option"

record 'w ClassificationService =
  csClassifier :: "'w Classifier option"
  csTimeout :: duration

record ClassificationOutcome =
  coProposal :: Proposal
  coOriginalProposal :: Proposal
  coValidation :: ValidationResult
  coFallbackUsed :: bool
  coFallbackReason :: string
  coFallbackReasonCode :: string
  coClassifierError :: "error option"
  coClassifierStartedAt :: time
  coClassifierCompletedAt :: time
  coClassifierDuration :: duration
  coClassifierProvider :: string
  coClassifierModel :: string
  coInputTokens :: int
  coOutputTokens :: int
  coTotalTokens :: int
  coEstimatedCostUSD :: float64
  coCostKnown :: bool

definition emptyProposal :: Proposal where
  "emptyProposal = \<lparr>prSubCause = [], prRecommendedAction = [], prTarget = \<lparr>tgKind = [], tgNamespace = [], tgName = []\<rparr>,
     prSafeForAutomation = False, prReasoning = []\<rparr>"

definition defaultClassificationTimeout :: duration where
  "defaultClassificationTimeout = 30 * Second"

definition errClassifierNotConfigured :: error where
  "errClassifierNotConfigured = Errorf ''classifier is not configured''"

definition NewClassificationService :: "'w Classifier option \<Rightarrow> duration \<Rightarrow> 'w ClassificationService" where
  "NewClassificationService c timeout = \<lparr>csClassifier = c, csTimeout = timeout\<rparr>"

text \<open>The receivers are pointers: \<open>None\<close> is a nil \<^verbatim>\<open>*ClassificationService\<close>.\<close>

definition Service_classifier :: "'w ClassificationService option \<Rightarrow> 'w Classifier option" where
  "Service_classifier s = (case s of None \<Rightarrow> None | Some svc \<Rightarrow> csClassifier svc)"

definition Service_timeout :: "'w ClassificationService option \<Rightarrow> duration" where
  "Service_timeout s = (case s of None \<Rightarrow> defaultClassificationTimeout
     | Some svc \<Rightarrow> if csTimeout svc \<le> 0 then defaultClassificationTimeout else csTimeout svc)"

definition classifyWithOptionalMetadata :: "'w Classifier \<Rightarrow> IncidentInput \<Rightarrow> 'w \<Rightarrow> (Proposal \<times> ClassifierCallMetadata \<times> error option) \<times> 'w" where
  "classifyWithOptionalMetadata c input w =
     (case clClassifyWithMetadata c of
        Some call \<Rightarrow> call input w
      | None \<Rightarrow> (case clClassify c input w of ((proposal, err), w1) \<Rightarrow> ((proposal, zeroMetadata, err), w1)))"

definition classifierFailureReason :: "error option \<Rightarrow> string" where
  "classifierFailureReason e =
     (case e of
        None \<Rightarrow> ''classifier result could not be used safely''
      | Some err \<Rightarrow>
        if errors_Is err DeadlineExceeded then ''classifier timeout: '' @ Error_text err
        else if errors_Is err Canceled then ''classifier canceled: '' @ Error_text err
        else ''classifier error: '' @ Error_text err)"

definition hasTransientFailureEvidence :: "IncidentInput \<Rightarrow> bool" where
  "hasTransientFailureEvidence input = containsAny (evidenceText input)
     [''connection refused'', ''failed to connect'', ''temporarily unavailable'', ''temporary network failure'', ''timeout'', ''network failure'']"

definition buildSafeFallback :: "IncidentInput \<Rightarrow> string \<Rightarrow> Proposal" where
  "buildSafeFallback input reason0 =
     (let trimmed = TrimSpace reason0;
          reason = (if trimmed = [] then ''classifier result could not be used safely'' else trimmed);
          target = \<lparr>tgKind = TargetKindPod, tgNamespace = inNamespace input, tgName = inPodName input\<rparr>
      in if hasTransientFailureEvidence input
         then \<lparr>prSubCause = SubCauseTransientFailure, prRecommendedAction = ActionRestartPod, prTarget = target, prSafeForAutomation = True,
           prReasoning = ''safe fallback selected restart_pod because incident evidence supports a transient failure: '' @ reason\<rparr>
         else \<lparr>prSubCause = SubCauseUnknown, prRecommendedAction = ActionEscalateToHuman, prTarget = target, prSafeForAutomation = False,
           prReasoning = ''safe fallback selected manual escalation: '' @ reason\<rparr>)"

definition classifierMetadata :: "'w Classifier option \<Rightarrow> string \<times> string" where
  "classifierMetadata c =
     (case c of
        None \<Rightarrow> (''unknown'', ''unknown'')
      | Some cl \<Rightarrow>
        (case clMetadata cl of
           None \<Rightarrow> (''unknown'', ''unknown'')
         | Some (providerName, modelName) \<Rightarrow>
           (if TrimSpace providerName \<noteq> [] then TrimSpace providerName else ''unknown'',
            if TrimSpace modelName \<noteq> [] then TrimSpace modelName else ''unknown'')))"

definition classifierDuration :: "time \<Rightarrow> time \<Rightarrow> duration" where
  "classifierDuration startedAt completedAt =
     (if time_IsZero startedAt \<or> time_IsZero completedAt \<or> time_Before completedAt startedAt then 0 else time_Sub completedAt startedAt)"

definition fallbackClassificationOutcome :: "IncidentInput \<Rightarrow> string \<Rightarrow> string \<Rightarrow> error option \<Rightarrow> time \<Rightarrow> time \<Rightarrow> string \<Rightarrow> string
    \<Rightarrow> ClassificationOutcome" where
  "fallbackClassificationOutcome input reason reasonCode classifierErr startedAt completedAt provider model =
     (let validation = ValidateProposal (buildSafeFallback input reason) input in
      \<lparr>coProposal = vaOutput validation, coOriginalProposal = emptyProposal, coValidation = validation, coFallbackUsed = True,
       coFallbackReason = reason, coFallbackReasonCode = reasonCode, coClassifierError = classifierErr,
       coClassifierStartedAt = startedAt, coClassifierCompletedAt = completedAt,
       coClassifierDuration = classifierDuration startedAt completedAt, coClassifierProvider = provider, coClassifierModel = model,
       coInputTokens = 0, coOutputTokens = 0, coTotalTokens = 0, coEstimatedCostUSD = Finite 0, coCostKnown = False\<rparr>)"

definition applyClassifierCallMetadata :: "ClassificationOutcome \<Rightarrow> ClassifierCallMetadata \<Rightarrow> string \<Rightarrow> ClassificationOutcome" where
  "applyClassifierCallMetadata outcome metadata model =
     (let usage = \<lparr>tuInputTokens = cmInputTokens metadata, tuOutputTokens = cmOutputTokens metadata\<rparr>;
          counted = outcome\<lparr>coInputTokens := nonNegativeInt (cmInputTokens metadata), coOutputTokens := nonNegativeInt (cmOutputTokens metadata),
            coTotalTokens := TotalTokens usage\<rparr>
      in case PricingForModel model of
          None \<Rightarrow> counted\<lparr>coEstimatedCostUSD := Finite 0, coCostKnown := False\<rparr>
        | Some pricing \<Rightarrow> counted\<lparr>coEstimatedCostUSD := EstimateCostUSD usage pricing, coCostKnown := True\<rparr>)"

text \<open>The branch of the \<^verbatim>\<open>select\<close> in which the classifier answered.\<close>

definition concludeCall :: "IncidentInput \<Rightarrow> Proposal \<times> ClassifierCallMetadata \<times> error option \<Rightarrow> time \<Rightarrow> time \<Rightarrow> string \<Rightarrow> string
    \<Rightarrow> ClassificationOutcome" where
  "concludeCall input answer startedAt completedAt provider model =
     (case answer of (proposal, metadata, err) \<Rightarrow>
        (case err of
           Some e \<Rightarrow>
             (applyClassifierCallMetadata
                (fallbackClassificationOutcome input (classifierFailureReason (Some e)) [] (Some e) startedAt completedAt provider model)
                metadata model)\<lparr>coOriginalProposal := proposal\<rparr>
         | None \<Rightarrow>
           (let validation = ValidateProposal proposal input in
            if vaDecision validation = DecisionFallbackMiss \<or> \<not> vaValid validation
            then let trimmed = TrimSpace (vaReason validation);
                     reason = (if trimmed = [] then ''classifier proposal failed validation'' else trimmed)
                 in (applyClassifierCallMetadata
                       (fallbackClassificationOutcome input reason (vaReasonCode validation) None startedAt completedAt provider model)
                       metadata model)\<lparr>coOriginalProposal := proposal\<rparr>
            else applyClassifierCallMetadata
                   \<lparr>coProposal = vaOutput validation, coOriginalProposal = proposal, coValidation = validation, coFallbackUsed = False,
                    coFallbackReason = [], coFallbackReasonCode = [], coClassifierError = None,
                    coClassifierStartedAt = startedAt, coClassifierCompletedAt = completedAt,
                    coClassifierDuration = classifierDuration startedAt completedAt, coClassifierProvider = provider,
                    coClassifierModel = model, coInputTokens = 0, coOutputTokens = 0, coTotalTokens = 0, coEstimatedCostUSD = Finite 0,
                    coCostKnown = False\<rparr> metadata model)))"

definition ClassifyAndValidate :: "('w \<Rightarrow> time \<times> 'w) \<Rightarrow> (duration \<Rightarrow> ('w \<Rightarrow> 'w) \<Rightarrow> 'w \<Rightarrow> error option \<times> 'w) \<Rightarrow> 'w ClassificationService option
    \<Rightarrow> IncidentInput \<Rightarrow> 'w \<Rightarrow> ClassificationOutcome \<times> 'w" where
  "ClassifyAndValidate timeNow contextDone s input w =
     (case classifierMetadata (Service_classifier s) of (provider, model) \<Rightarrow>
        (case Service_classifier s of
           None \<Rightarrow>
             (case timeNow w of (startedAt, w1) \<Rightarrow>
                (fallbackClassificationOutcome input (Error_text errClassifierNotConfigured) [] (Some errClassifierNotConfigured)
                   startedAt startedAt provider model, w1))
         | Some classifier \<Rightarrow>
             (case timeNow w of (startedAt, w1) \<Rightarrow>
                (case contextDone (Service_timeout s) (\<lambda>w. snd (classifyWithOptionalMetadata classifier input w)) w1 of
                   (Some err, w2) \<Rightarrow>
                     (case timeNow w2 of (completedAt, w3) \<Rightarrow>
                        (fallbackClassificationOutcome input (classifierFailureReason (Some err)) [] (Some err) startedAt completedAt provider model, w3))
                 | (None, w2) \<Rightarrow>
                     (case classifyWithOptionalMetadata classifier input w2 of (answer, w3) \<Rightarrow>
                        (case timeNow w3 of (completedAt, w4) \<Rightarrow>
                           (concludeCall input answer startedAt completedAt provider model, w4)))))))"

definition ClassifyIncident :: "('w \<Rightarrow> time \<times> 'w) \<Rightarrow> (duration \<Rightarrow> ('w \<Rightarrow> 'w) \<Rightarrow> 'w \<Rightarrow> error option \<times> 'w) \<Rightarrow> 'w ClassificationService option
    \<Rightarrow> IncidentInput \<Rightarrow> 'w \<Rightarrow> ClassificationOutcome \<times> 'w" where
  "ClassifyIncident timeNow contextDone s input w = ClassifyAndValidate timeNow contextDone s input w"

definition modelFromEnv :: "(string \<Rightarrow> string) \<Rightarrow> string \<Rightarrow> string \<Rightarrow> string" where
  "modelFromEnv getenv envName defaultModel = (if TrimSpace (getenv envName) \<noteq> [] then TrimSpace (getenv envName) else defaultModel)"

section \<open>The rule-based classifier\<close>

definition escalationProposal :: "IncidentInput \<Rightarrow> string \<Rightarrow> string \<Rightarrow> Proposal" where
  "escalationProposal input subCause reasoning =
     \<lparr>prSubCause = subCause, prRecommendedAction = ActionEscalateToHuman,
      prTarget = \<lparr>tgKind = TargetKindPod, tgNamespace = inNamespace input, tgName = inPodName input\<rparr>,
      prSafeForAutomation = False, prReasoning = reasoning\<rparr>"

definition rolloutProposal :: "IncidentInput \<Rightarrow> string \<Rightarrow> Proposal" where
  "rolloutProposal input reasoning =
     \<lparr>prSubCause = SubCauseBadDeploy, prRecommendedAction = ActionRolloutUndo,
      prTarget = \<lparr>tgKind = TargetKindDeployment, tgNamespace = inNamespace input, tgName = inOwnerDeployment input\<rparr>,
      prSafeForAutomation = True, prReasoning = reasoning\<rparr>"

text \<open>\<open>mockProposal\<close> is the \<^verbatim>\<open>switch\<close> of \<^verbatim>\<open>Classify\<close>, \<open>Mock_Classify\<close> the method with its check of the context.\<close>

definition mockProposal :: "IncidentInput \<Rightarrow> Proposal" where
  "mockProposal input =
     (let evidence = evidenceText input in
      if Contains evidence ''oomkilled'' \<or> Contains evidence ''out of memory''
      then escalationProposal input SubCauseOOMAdjacent ''The evidence indicates an out-of-memory termination that requires resource investigation.''
      else if Contains evidence ''configmap'' \<or> Contains evidence ''missing environment'' \<or> Contains evidence ''missing env'' \<or>
        Contains evidence ''invalid configuration''
      then escalationProposal input SubCauseBadConfig ''The failure requires a configuration change and is not safe for automatic remediation.''
      else if Contains evidence ''imagepullbackoff'' \<or> Contains evidence ''invalid image'' \<or> Contains evidence ''failed to pull image''
      then if TrimSpace (inOwnerDeployment input) = []
        then escalationProposal input SubCauseBadDeploy ''A bad deployment is suspected, but the owning Deployment could not be identified.''
        else rolloutProposal input ''The events indicate that a bad deployment introduced an invalid container image.''
      else if Contains evidence ''connection refused'' \<or> Contains evidence ''failed to connect'' \<or> Contains evidence ''temporarily unavailable'' \<or>
        Contains evidence ''timeout''
      then \<lparr>prSubCause = SubCauseTransientFailure, prRecommendedAction = ActionRestartPod,
        prTarget = \<lparr>tgKind = TargetKindPod, tgNamespace = inNamespace input, tgName = inPodName input\<rparr>,
        prSafeForAutomation = True, prReasoning = ''The evidence indicates a transient dependency or connectivity failure.''\<rparr>
      else if Contains evidence ''panic''
      then escalationProposal input SubCauseApplicationPanic ''The application panic may require a code-level fix and is not automatically remediated.''
      else if Contains evidence ''back-off restarting failed container'' \<and> hasRecentDeploymentEvidence input
      then if TrimSpace (inOwnerDeployment input) = []
        then escalationProposal input SubCauseBadDeploy ''The crash loop began after a rollout, but the owning Deployment could not be identified.''
        else rolloutProposal input ''The container began crash-looping immediately after a rollout, and no other cause is supported by the evidence.''
      else escalationProposal input SubCauseUnknown ''The available logs and events do not provide enough evidence for safe automation.'')"

definition Mock_Classify :: "error option \<Rightarrow> IncidentInput \<Rightarrow> Proposal \<times> error option" where
  "Mock_Classify ctxErr input = (case ctxErr of Some err \<Rightarrow> (emptyProposal, Some err) | None \<Rightarrow> (mockProposal input, None))"

definition MockClassifier :: "('w \<Rightarrow> error option) \<Rightarrow> 'w Classifier" where
  "MockClassifier ctxErr = \<lparr>clMetadata = Some (''mock'', ''mock''), clClassify = (\<lambda>input w. (Mock_Classify (ctxErr w) input, w)),
     clClassifyWithMetadata = None\<rparr>"

section \<open>What leaves the service\<close>

text \<open>Kubernetes names have no surrounding white space and are not empty.\<close>

definition plainNames :: "IncidentInput \<Rightarrow> bool" where
  "plainNames input \<longleftrightarrow> TrimSpace (inPodName input) = inPodName input \<and> inPodName input \<noteq> [] \<and>
     TrimSpace (inNamespace input) = inNamespace input \<and> inNamespace input \<noteq> []"

lemma TrimSpace_prefixed: "visible c \<Longrightarrow> TrimSpace (c # s) \<noteq> []"
  by (rule TrimSpace_visible_hd) auto

lemma trimmed_constants:
  "TrimSpace ActionRestartPod = ActionRestartPod" "TrimSpace ActionRolloutUndo = ActionRolloutUndo" "TrimSpace ActionEscalateToHuman = ActionEscalateToHuman"
  "TrimSpace TargetKindPod = TargetKindPod" "TrimSpace TargetKindDeployment = TargetKindDeployment"
  by (simp_all add: action_defs target_kind_defs TrimSpace_visible visible_def)

lemma trimmed_sub_causes: "c \<in> allowedSubCauses \<Longrightarrow> TrimSpace c = c"
  unfolding allowedSubCauses_def sub_cause_defs by (auto simp: TrimSpace_visible visible_def)

lemma sub_causes_allowed:
  "SubCauseTransientFailure \<in> allowedSubCauses" "SubCauseBadDeploy \<in> allowedSubCauses" "SubCauseBadConfig \<in> allowedSubCauses"
  "SubCauseApplicationPanic \<in> allowedSubCauses" "SubCauseOOMAdjacent \<in> allowedSubCauses" "SubCauseUnknown \<in> allowedSubCauses"
  by (simp_all add: allowedSubCauses_def)

text \<open>The three forms a proposal of the program's own can have, and when the validator accepts them.\<close>

lemma escalation_acceptable:
  assumes "plainNames input" and "c \<in> allowedSubCauses" and "TrimSpace reasoning \<noteq> []"
  shows "acceptable (normalizeProposal (escalationProposal input c reasoning)) input"
  using assms trimmed_sub_causes [OF assms(2)]
  unfolding acceptable_def properEscalation_def escalationProposal_def normalizeProposal_def plainNames_def
  by (simp add: trimmed_constants) (simp add: action_defs target_kind_defs)

definition restartProposal :: "IncidentInput \<Rightarrow> string \<Rightarrow> Proposal" where
  "restartProposal input reasoning =
     \<lparr>prSubCause = SubCauseTransientFailure, prRecommendedAction = ActionRestartPod,
      prTarget = \<lparr>tgKind = TargetKindPod, tgNamespace = inNamespace input, tgName = inPodName input\<rparr>,
      prSafeForAutomation = True, prReasoning = reasoning\<rparr>"

lemma restart_acceptable:
  assumes "plainNames input" and "containsAny (evidenceText input) transientIndicators" and "TrimSpace reasoning \<noteq> []"
  shows "acceptable (normalizeProposal (restartProposal input reasoning)) input"
  using assms trimmed_sub_causes [OF sub_causes_allowed(1)]
  unfolding acceptable_def supportedRestart_def restartProposal_def normalizeProposal_def plainNames_def containsAny_iff
  by (simp add: trimmed_constants) (simp add: action_defs target_kind_defs sub_cause_defs)

lemma fallback_forms:
  "\<exists>reasoning. TrimSpace reasoning \<noteq> [] \<and> buildSafeFallback input reason =
     (if hasTransientFailureEvidence input then restartProposal input reasoning else escalationProposal input SubCauseUnknown reasoning)"
proof -
  have "TrimSpace (''safe fallback selected restart_pod because incident evidence supports a transient failure: '' @ r) \<noteq> []"
    "TrimSpace (''safe fallback selected manual escalation: '' @ r) \<noteq> []" for r
    using TrimSpace_prefixed [of "CHR ''s''"] by (simp_all add: visible_def)
  then show ?thesis
    unfolding buildSafeFallback_def Let_def restartProposal_def escalationProposal_def by (simp only: split: if_split) blast
qed

lemma transient_evidence: "hasTransientFailureEvidence input = containsAny (evidenceText input) transientIndicators"
  by (simp add: hasTransientFailureEvidence_def transientIndicators_def)

lemma fallback_acceptable:
  assumes "plainNames input"
  shows "acceptable (normalizeProposal (buildSafeFallback input reason)) input"
proof -
  obtain reasoning where r: "TrimSpace reasoning \<noteq> []" "buildSafeFallback input reason =
      (if hasTransientFailureEvidence input then restartProposal input reasoning else escalationProposal input SubCauseUnknown reasoning)"
    using fallback_forms by blast
  show ?thesis
    using restart_acceptable [OF assms _ r(1)] escalation_acceptable [OF assms sub_causes_allowed(6) r(1)]
    unfolding r(2) transient_evidence by simp
qed

lemma apply_metadata_proposal [simp]:
  "coProposal (applyClassifierCallMetadata out md model) = coProposal out"
  "coFallbackUsed (applyClassifierCallMetadata out md model) = coFallbackUsed out"
  "coFallbackReasonCode (applyClassifierCallMetadata out md model) = coFallbackReasonCode out"
  "coClassifierError (applyClassifierCallMetadata out md model) = coClassifierError out"
  "coValidation (applyClassifierCallMetadata out md model) = coValidation out"
  by (simp_all add: applyClassifierCallMetadata_def Let_def split: option.splits)

lemma fallback_outcome_sel [simp]:
  "coProposal (fallbackClassificationOutcome input reason code err t1 t2 p m) = normalizeProposal (buildSafeFallback input reason)"
  "coFallbackUsed (fallbackClassificationOutcome input reason code err t1 t2 p m) = True"
  "coFallbackReasonCode (fallbackClassificationOutcome input reason code err t1 t2 p m) = code"
  "coClassifierError (fallbackClassificationOutcome input reason code err t1 t2 p m) = err"
  by (simp_all add: fallbackClassificationOutcome_def Let_def)

lemma concludeCall_proposal:
  "coProposal (concludeCall input (proposal, md, err) t1 t2 p m) =
     (if err = None \<and> vaValid (ValidateProposal proposal input) then normalizeProposal proposal
      else normalizeProposal (buildSafeFallback input
        (case err of Some e \<Rightarrow> classifierFailureReason (Some e)
         | None \<Rightarrow> if TrimSpace (vaReason (ValidateProposal proposal input)) = [] then ''classifier proposal failed validation''
             else TrimSpace (vaReason (ValidateProposal proposal input)))))"
  unfolding concludeCall_def prod.case
  by (cases err) (simp_all add: Let_def Validate_decision)

lemma concludeCall_acceptable:
  assumes "plainNames input"
  shows "acceptable (coProposal (concludeCall input answer t1 t2 p m)) input"
proof (cases answer)
  case (fields proposal md err)
  show ?thesis unfolding fields concludeCall_proposal
    using fallback_acceptable [OF assms] Validate_valid [of proposal input] by simp
qed

lemma classify_acceptable:
  assumes "plainNames input"
  shows "acceptable (coProposal (fst (ClassifyIncident timeNow contextDone s input w))) input"
  unfolding ClassifyIncident_def ClassifyAndValidate_def
  by (simp add: fallback_acceptable [OF assms] concludeCall_acceptable [OF assms] split: prod.splits option.splits)


section \<open>Properties of the service\<close>

text \<open>
  What a caller of the service relies on, as an interface: the proposal of every classification is acceptable for the incident it was made for.
\<close>

locale incident_classifier =
  fixes classify :: "IncidentInput \<Rightarrow> 'w \<Rightarrow> Proposal \<times> 'w"
  assumes proposals_acceptable: "plainNames input \<Longrightarrow> acceptable (fst (classify input w)) input"
begin

lemma safe_supported:
  assumes "plainNames input" and "prSafeForAutomation (fst (classify input w))"
  shows "supportedRestart (fst (classify input w)) input \<or> supportedRollout (fst (classify input w)) input"
  using proposals_acceptable [OF assms(1), of w] assms(2) by (auto simp: acceptable_def properEscalation_def)

lemma unsafe_escalates:
  assumes "plainNames input" and "\<not> prSafeForAutomation (fst (classify input w))"
  shows "properEscalation (fst (classify input w)) input"
  using proposals_acceptable [OF assms(1), of w] assms(2) by (auto simp: acceptable_def supportedRestart_def supportedRollout_def)

lemma safe_actions:
  assumes "plainNames input" and "prSafeForAutomation (fst (classify input w))"
  shows "prRecommendedAction (fst (classify input w)) \<in> allowedExecutableActions"
  using safe_supported [OF assms]
  by (auto simp: supportedRestart_def supportedRollout_def allowedExecutableActions_def action_defs)

end

text \<open>The proposal of the service as the controller reads it, \<^verbatim>\<open>classification.Proposal\<close>.\<close>

definition classifiedProposal :: "('w \<Rightarrow> time \<times> 'w) \<Rightarrow> (duration \<Rightarrow> ('w \<Rightarrow> 'w) \<Rightarrow> 'w \<Rightarrow> error option \<times> 'w) \<Rightarrow> 'w ClassificationService option
    \<Rightarrow> IncidentInput \<Rightarrow> 'w \<Rightarrow> Proposal \<times> 'w" where
  "classifiedProposal timeNow contextDone s input w =
     (case ClassifyIncident timeNow contextDone s input w :: ClassificationOutcome \<times> 'w of (out, w1) \<Rightarrow> (coProposal out, w1))"

lemma classifiedProposal_fst:
  "fst (classifiedProposal timeNow contextDone s input w) =
     coProposal (fst (ClassifyIncident timeNow contextDone s input w :: ClassificationOutcome \<times> 'w))"
  by (simp add: classifiedProposal_def split_beta)

interpretation cs: incident_classifier "classifiedProposal timeNow contextDone s"
  by unfold_locales (simp add: classifiedProposal_fst classify_acceptable)

text \<open>An incident with a transient failure in its log, and a classifier whose only answer is the zero proposal.\<close>

definition transientIncident :: IncidentInput where
  "transientIncident = \<lparr>inPodName = ''web-1'', inNamespace = ''shop'', inContainerName = ''web'', inRestartCount = 3, inOwnerDeployment = ''web'',
     inTimestamp = 5, inLogs = ''timeout'', inEvents = []\<rparr>"

definition silentClassifier :: "unit Classifier" where
  "silentClassifier = \<lparr>clMetadata = None, clClassify = (\<lambda>input w. ((emptyProposal, None), w)), clClassifyWithMetadata = None\<rparr>"

definition silentService :: "unit ClassificationService" where
  "silentService = NewClassificationService (Some silentClassifier) 0"

lemma transientIncident_plain: "plainNames transientIncident"
  by code_simp

lemma transientIncident_evidence: "hasTransientFailureEvidence transientIncident"
proof -
  have "evidenceText transientIncident = ''timeout ''" by code_simp
  moreover have "Contains ''timeout '' ''timeout''" by code_simp
  ultimately show ?thesis unfolding hasTransientFailureEvidence_def containsAny_iff by simp
qed

lemma emptyProposal_refused: "\<not> vaValid (ValidateProposal emptyProposal input)"
  unfolding Validate_valid acceptable_def by (simp add: normalizeProposal_def emptyProposal_def)

lemma silent_answer: "classifyWithOptionalMetadata silentClassifier input w = ((emptyProposal, zeroMetadata, None), w)"
  by (simp add: classifyWithOptionalMetadata_def silentClassifier_def)

text \<open>
  C10: whatever the classifier proposes and however its call ends (an answer, an error, a timeout, no classifier at all), a proposal that leaves
  the service marked safe for automation restarts the incident's own Pod for a transient failure the evidence shows or rolls back the incident's
  own Deployment for a bad deployment the evidence shows; every other proposal escalates the incident's Pod to a human.
\<close>

theorem service_proposals_supported:
  assumes "plainNames input"
  shows "let p = fst (classifiedProposal timeNow contextDone s input w) in
    if prSafeForAutomation p then supportedRestart p input \<or> supportedRollout p input else properEscalation p input"
  using cs.safe_supported [OF assms, of timeNow contextDone s w] cs.unsafe_escalates [OF assms, of timeNow contextDone s w]
  unfolding Let_def by simp

theorem service_proposals_supported_witness:
  "plainNames transientIncident \<and>
   (let p = fst (classifiedProposal (\<lambda>w. (7, w)) (\<lambda>d call w. (None, w)) (Some silentService) transientIncident ()) in
    if prSafeForAutomation p then supportedRestart p transientIncident \<or> supportedRollout p transientIncident
    else properEscalation p transientIncident)"
  using transientIncident_plain service_proposals_supported [OF transientIncident_plain] by (rule conjI)

lemma fallback_outcome_decision:
  shows "prSafeForAutomation (normalizeProposal (buildSafeFallback input reason)) = hasTransientFailureEvidence input"
    and "prRecommendedAction (normalizeProposal (buildSafeFallback input reason)) =
      (if hasTransientFailureEvidence input then ActionRestartPod else ActionEscalateToHuman)"
  by (simp_all add: buildSafeFallback_def Let_def normalizeProposal_def trimmed_constants)

text \<open>
  C36: what becomes of a proposal the validator refuses. The outcome records the refused proposal and the validator's reason code and reports no
  classifier error; the proposal handed on is the fallback, which still restarts the Pod automatically when the evidence has a transient failure
  and escalates to a human otherwise.
\<close>

theorem refused_proposal_fallback:
  fixes out :: "ClassificationOutcome"
  assumes "contextDone (Service_timeout (Some svc)) (\<lambda>w. snd (classifyWithOptionalMetadata c input w)) (snd (timeNow w)) = (None, w2)" and "csClassifier svc = Some c"
    and "classifyWithOptionalMetadata c input w2 = ((proposal, md, None), w3)" and "\<not> vaValid (ValidateProposal proposal input)"
    and "out = fst (ClassifyIncident timeNow contextDone (Some svc) input w)"
  shows "coFallbackUsed out \<and> coOriginalProposal out = proposal \<and> coClassifierError out = None \<and>
    coFallbackReasonCode out = vaReasonCode (ValidateProposal proposal input) \<and>
    prSafeForAutomation (coProposal out) = hasTransientFailureEvidence input \<and>
    prRecommendedAction (coProposal out) = (if hasTransientFailureEvidence input then ActionRestartPod else ActionEscalateToHuman)"
proof -
  obtain t1 w1 where t: "timeNow w = (t1, w1)" by fastforce
  obtain t2 w4 where t2: "timeNow w3 = (t2, w4)" by fastforce
  obtain p m where pm: "classifierMetadata (Some c) = (p, m)" by fastforce
  have out: "out = concludeCall input (proposal, md, None) t1 t2 p m"
    using assms(1-3,5) unfolding ClassifyIncident_def ClassifyAndValidate_def Service_classifier_def by (simp add: t t2 pm)
  have "coFallbackUsed out" "coOriginalProposal out = proposal" "coClassifierError out = None"
    "coFallbackReasonCode out = vaReasonCode (ValidateProposal proposal input)"
    using assms(4) unfolding out concludeCall_def by (simp_all add: Let_def)
  moreover have "\<exists>reason. coProposal out = normalizeProposal (buildSafeFallback input reason)"
    using assms(4) unfolding out concludeCall_proposal by auto
  ultimately show ?thesis using fallback_outcome_decision by auto
qed
theorem refused_proposal_fallback_witness:
  "let out = fst (ClassifyIncident (\<lambda>w. (7, w)) (\<lambda>d call w. (None, w)) (Some silentService) transientIncident ()) :: ClassificationOutcome in
   coFallbackUsed out \<and> coOriginalProposal out = emptyProposal \<and> prSafeForAutomation (coProposal out) \<and>
   prRecommendedAction (coProposal out) = ActionRestartPod"
  using refused_proposal_fallback [of "\<lambda>d call w. (None, w)" silentService silentClassifier transientIncident
      "\<lambda>w. (7, w)" "()" "()" emptyProposal zeroMetadata "()", OF _ _ _ emptyProposal_refused refl] transientIncident_evidence
  by (simp add: silent_answer silentService_def NewClassificationService_def Let_def)


lemma rollout_acceptable:
  assumes "plainNames input" and "TrimSpace (inOwnerDeployment input) = inOwnerDeployment input" and "inOwnerDeployment input \<noteq> []"
    and "containsAny (evidenceText input) badDeployIndicators" and "TrimSpace reasoning \<noteq> []"
  shows "acceptable (normalizeProposal (rolloutProposal input reasoning)) input \<longleftrightarrow> hasRecentDeploymentEvidence input"
  using assms trimmed_sub_causes [OF sub_causes_allowed(2)]
  unfolding acceptable_def supportedRollout_def supportedRestart_def properEscalation_def rolloutProposal_def normalizeProposal_def plainNames_def
    containsAny_iff
  by (simp add: trimmed_constants) (simp add: action_defs target_kind_defs sub_cause_defs)

lemma proposal_actions:
  "prRecommendedAction (escalationProposal input c r) = ActionEscalateToHuman"
  "prRecommendedAction (restartProposal input r) = ActionRestartPod"
  "prRecommendedAction (rolloutProposal input r) = ActionRolloutUndo"
  by (simp_all add: escalationProposal_def restartProposal_def rolloutProposal_def)

text \<open>The rule-based classifier answers with one of the three forms.\<close>

definition mockForm :: "IncidentInput \<Rightarrow> Proposal \<Rightarrow> bool" where
  "mockForm input q \<longleftrightarrow>
     (\<exists>c r. c \<in> allowedSubCauses \<and> TrimSpace r \<noteq> [] \<and> q = escalationProposal input c r) \<or>
     (\<exists>r. TrimSpace r \<noteq> [] \<and> containsAny (evidenceText input) transientIndicators \<and> q = restartProposal input r) \<or>
     (\<exists>r. TrimSpace r \<noteq> [] \<and> containsAny (evidenceText input) badDeployIndicators \<and> TrimSpace (inOwnerDeployment input) \<noteq> [] \<and>
        q = rolloutProposal input r)"

lemma mockForm_escalation: "c \<in> allowedSubCauses \<Longrightarrow> TrimSpace r \<noteq> [] \<Longrightarrow> mockForm input (escalationProposal input c r)"
  and mockForm_restart: "containsAny (evidenceText input) transientIndicators \<Longrightarrow> TrimSpace r \<noteq> [] \<Longrightarrow> mockForm input (restartProposal input r)"
  and mockForm_rollout: "containsAny (evidenceText input) badDeployIndicators \<Longrightarrow> TrimSpace (inOwnerDeployment input) \<noteq> [] \<Longrightarrow>
    TrimSpace r \<noteq> [] \<Longrightarrow> mockForm input (rolloutProposal input r)"
  unfolding mockForm_def by blast+

lemma mockForm_if: "(b \<Longrightarrow> mockForm input q) \<Longrightarrow> (\<not> b \<Longrightarrow> mockForm input q') \<Longrightarrow> mockForm input (if b then q else q')"
  by simp

lemma mock_reasons: "TrimSpace (CHR ''T'' # r) \<noteq> []" "TrimSpace (CHR ''A'' # r) \<noteq> []"
  by (simp_all add: TrimSpace_prefixed visible_def)

lemma mock_transient:
  "Contains e ''connection refused'' \<or> Contains e ''failed to connect'' \<or> Contains e ''temporarily unavailable'' \<or> Contains e ''timeout''
     \<Longrightarrow> containsAny e transientIndicators"
  by (auto simp: transientIndicators_def)

lemma mock_bad_image:
  "Contains e ''imagepullbackoff'' \<or> Contains e ''invalid image'' \<or> Contains e ''failed to pull image'' \<Longrightarrow> containsAny e badDeployIndicators"
  by (auto simp: badDeployIndicators_def)

lemma mock_crash_loop:
  "Contains e ''back-off restarting failed container'' \<and> b \<Longrightarrow> containsAny e badDeployIndicators"
  by (auto simp: badDeployIndicators_def)

lemma mock_forms: "mockForm input (mockProposal input)"
  unfolding mockProposal_def Let_def restartProposal_def [symmetric]
  by (intro mockForm_if mockForm_escalation mockForm_restart mockForm_rollout sub_causes_allowed mock_reasons)
    (assumption | erule mock_transient mock_bad_image mock_crash_loop)+

text \<open>
  C26: the rule-based classifier and the validator agree on what is evidence. For an incident with plain names, the validator accepts every
  proposal of the rule-based classifier except a rollback without rollout evidence (an image that cannot be pulled, with no recent deployment).
\<close>

theorem mock_accepted:
  assumes "plainNames input" and "TrimSpace (inOwnerDeployment input) = inOwnerDeployment input"
  shows "vaValid (ValidateProposal (mockProposal input) input) \<longleftrightarrow>
    prRecommendedAction (mockProposal input) \<noteq> ActionRolloutUndo \<or> hasRecentDeploymentEvidence input"
  using mock_forms [of input] unfolding mockForm_def
proof (elim disjE exE conjE)
  fix c r assume "c \<in> allowedSubCauses" "TrimSpace r \<noteq> []" "mockProposal input = escalationProposal input c r"
  then show ?thesis using escalation_acceptable [OF assms(1)] by (simp add: Validate_valid proposal_actions)
next
  fix r assume "TrimSpace r \<noteq> []" "containsAny (evidenceText input) transientIndicators" "mockProposal input = restartProposal input r"
  then show ?thesis using restart_acceptable [OF assms(1)] by (simp add: Validate_valid proposal_actions)
next
  fix r assume "TrimSpace r \<noteq> []" "containsAny (evidenceText input) badDeployIndicators" "TrimSpace (inOwnerDeployment input) \<noteq> []"
    "mockProposal input = rolloutProposal input r"
  then show ?thesis using rollout_acceptable [OF assms] assms(2) by (simp add: Validate_valid proposal_actions)
qed

lemma transientIncident_mock: "prRecommendedAction (mockProposal transientIncident) = ActionRestartPod"
proof -
  have e: "evidenceText transientIncident = ''timeout ''" by code_simp
  have "map (Contains ''timeout '') [''oomkilled'', ''out of memory'', ''configmap'', ''missing environment'', ''missing env'',
      ''invalid configuration'', ''imagepullbackoff'', ''invalid image'', ''failed to pull image'', ''timeout''] =
    [False, False, False, False, False, False, False, False, False, True]"
    by code_simp
  then show ?thesis unfolding mockProposal_def Let_def e by simp
qed

theorem mock_accepted_witness:
  "TrimSpace (inOwnerDeployment transientIncident) = inOwnerDeployment transientIncident \<and>
   vaValid (ValidateProposal (mockProposal transientIncident) transientIncident)"
proof -
  have t: "TrimSpace (inOwnerDeployment transientIncident) = inOwnerDeployment transientIncident" by code_simp
  show ?thesis using mock_accepted [OF transientIncident_plain t] t by (simp add: transientIncident_mock)
qed

section \<open>Tokens and cost\<close>

lemma nonNegativeInt_nonneg [simp]: "0 \<le> nonNegativeInt n"
  by (simp add: nonNegativeInt_def)

lemma nonNegativeFloat_nonneg: "\<not> float_less_zero (nonNegativeFloat x)"
  by (simp add: nonNegativeFloat_def)

lemma float_of_int_nonneg: "0 \<le> n \<Longrightarrow> \<not> float_less_zero (float_of_int n)"
  by (simp add: float_of_int_def roundFloat_nonneg)

lemma cost_nonneg: "\<not> float_less_zero (EstimateCostUSD usage pricing)"
  unfolding EstimateCostUSD_def Let_def
  by (intro float_add_nonneg float_mul_nonneg float_div_const_nonneg nonNegativeFloat_nonneg float_of_int_nonneg) simp_all

text \<open>The prices are small integers, which \<^verbatim>\<open>float64\<close> represents exactly.\<close>

lemma price_floats: "float_of_int 2 = Finite 2" "float_of_int 10 = Finite 10"
  by code_simp+

lemma token_cost:
  assumes "0 \<le> n" and "n < 2 ^ 63" and "1 \<le> price" and "price \<le> 2 ^ 10"
  shows "\<exists>c. float_mul (float_div_const (float_of_int n) 1000000) (Finite price) = Finite c \<and>
    approx 3 (of_int n / 1000000 * price) c"
proof -
  let ?q = "of_int n :: rat"
  have q: "0 \<le> ?q" "?q = 0 \<or> 1 \<le> ?q" "?q \<le> 2 ^ 63"
  proof -
    show "0 \<le> ?q" using assms(1) by simp
    show "?q = 0 \<or> 1 \<le> ?q" using assms(1) by (cases "n = 0") auto
    have "?q \<le> of_int (2 ^ 63)" using assms(2) by (subst of_int_le_iff) simp
    then show "?q \<le> 2 ^ 63" by simp
  qed
  obtain a where a: "float_of_int n = Finite a" "approx 1 ?q a"
    using roundFloat_approx [OF approx_exact [OF q(1)]] q unfolding float_of_int_def by auto
  have "approx 1 (?q / 1000000) (a / 1000000)" using approx_scale [OF a(2), of "1 / 1000000"] by simp
  then obtain b where b: "roundFloat (a / 1000000) = Finite b" "approx 2 (?q / 1000000) b"
    using roundFloat_approx [of 1 "?q / 1000000" "a / 1000000"] q by (auto simp: numeral_2_eq_2)
  have "approx 2 (?q / 1000000 * price) (b * price)" using approx_scale [OF b(2)] assms(3) by simp
  moreover have "?q / 1000000 * price = 0 \<or> 1 / 2 ^ 32 \<le> ?q / 1000000 * price"
  proof (cases "?q = 0")
    case False
    then have "1 / 1000000 * 1 \<le> ?q / 1000000 * price" using q(2) assms(3) by (intro mult_mono) auto
    then show ?thesis by simp
  qed simp
  moreover have "?q / 1000000 * price \<le> 2 ^ 63 * 2 ^ 10" using q assms(3,4) by (intro mult_mono) auto
  ultimately obtain c where "roundFloat (b * price) = Finite c" "approx 3 (?q / 1000000 * price) c"
    using roundFloat_approx [of 2 "?q / 1000000 * price" "b * price"] by (auto simp: numeral_3_eq_3 numeral_2_eq_2)
  with a b show ?thesis by auto
qed

text \<open>
  C35: how accurate an outcome's cost is. For a model with a known price, the tokens of a call count as 2 dollars per million for the input and 10 for the
  output, a negative count as none; the estimate, computed in \<^verbatim>\<open>float64\<close>, is a finite number that differs from the exact amount by at most a factor
  of \<open>2\<^sup>-\<^sup>5\<^sup>0\<close> of it. Whatever the prices are, NaN and infinities included, an estimate is never negative. The reported total is the sum of the two counts as long as that is a 64-bit integer.
\<close>

theorem cost_accurate:
  fixes outcome :: ClassificationOutcome
  assumes "PricingForModel model = Some pricing" and "cmInputTokens md < 2 ^ 63" and "cmOutputTokens md < 2 ^ 63"
    and "out = applyClassifierCallMetadata outcome md model"
    and "i = max 0 (cmInputTokens md)" and "j = max 0 (cmOutputTokens md)"
  shows "coCostKnown out \<and> (\<exists>c. coEstimatedCostUSD out = Finite c \<and>
      \<bar>c - (2 * of_int i + 10 * of_int j) / 1000000\<bar> \<le> (2 * of_int i + 10 * of_int j) / 1000000 / 2 ^ 50) \<and>
    coInputTokens out = i \<and> coOutputTokens out = j \<and> (i + j < 2 ^ 63 \<longrightarrow> coTotalTokens out = i + j) \<and>
    \<not> float_less_zero (EstimateCostUSD usage anyPricing)"
proof -
  have ij: "nonNegativeInt (cmInputTokens md) = i" "nonNegativeInt (cmOutputTokens md) = j" "0 \<le> i" "0 \<le> j" "i < 2 ^ 63" "j < 2 ^ 63"
    using assms(2,3,5,6) by (auto simp: nonNegativeInt_def max_def)
  let ?u = "\<lparr>tuInputTokens = cmInputTokens md, tuOutputTokens = cmOutputTokens md\<rparr>"
  have p: "pricing = \<lparr>mpInputPerMillionUSD = Finite 2, mpOutputPerMillionUSD = Finite 10\<rparr>"
    using assms(1) by (auto simp: PricingForModel_def price_floats split: if_splits)
  have out: "coCostKnown out" "coEstimatedCostUSD out = EstimateCostUSD ?u pricing" "coInputTokens out = i" "coOutputTokens out = j"
    "coTotalTokens out = TotalTokens ?u"
    using assms(1) by (simp_all add: assms(4) applyClassifierCallMetadata_def Let_def ij(1,2))
  have total: "TotalTokens ?u = i + j" if "i + j < 2 ^ 63"
    using that ij(3,4) unfolding TotalTokens_def by (simp add: ij(1,2) sint_sbintrunc' signed_take_bit_int_eq_self del: of_int_add)
  obtain a where a: "float_mul (float_div_const (float_of_int i) 1000000) (Finite 2) = Finite a" "approx 3 (of_int i / 1000000 * 2) a"
    using token_cost [OF ij(3,5), of 2] by auto
  obtain b where b: "float_mul (float_div_const (float_of_int j) 1000000) (Finite 10) = Finite b" "approx 3 (of_int j / 1000000 * 10) b"
    using token_cost [OF ij(4,6), of 10] by auto
  let ?q = "of_int i / 1000000 * 2 + of_int j / 1000000 * 10 :: rat"
  have "?q = 0 \<or> 1 / 2 ^ 32 \<le> ?q"
  proof (cases "i = 0 \<and> j = 0")
    case False
    with ij(3,4) have "1 \<le> i + j" by linarith
    then have "1 \<le> (of_int i + of_int j :: rat)" by (metis of_int_1_le_iff of_int_add)
    moreover have "0 \<le> (of_int i :: rat)" "0 \<le> (of_int j :: rat)" using ij(3,4) by simp_all
    ultimately show ?thesis by simp
  qed simp
  moreover have "?q \<le> 2 ^ 80"
  proof -
    have "(of_int i :: rat) \<le> of_int (2 ^ 63)" "(of_int j :: rat) \<le> of_int (2 ^ 63)" using ij(5,6) by (subst of_int_le_iff; simp)+
    then show ?thesis by simp
  qed
  ultimately obtain c where c: "roundFloat (a + b) = Finite c" "approx 4 ?q c"
    using roundFloat_approx [OF approx_add [OF a(2) b(2)]] by (auto simp: eval_nat_numeral)
  have "EstimateCostUSD ?u pricing = Finite c"
    using a(1) b(1) c(1) by (simp add: EstimateCostUSD_def Let_def p ij(1,2) nonNegativeFloat_def)
  then have "coEstimatedCostUSD out = Finite c" using out(2) by simp
  moreover have "?q = (2 * of_int i + 10 * of_int j) / 1000000" by (simp add: add_divide_distrib)
  note approx_four [OF c(2), unfolded this]
  ultimately show ?thesis using out(1,3-5) total cost_nonneg by metis
qed

theorem cost_accurate_witness:
  "\<exists>c. coEstimatedCostUSD (applyClassifierCallMetadata (fallbackClassificationOutcome transientIncident [] [] None 0 0 [] [])
      \<lparr>cmInputTokens = 1500, cmOutputTokens = - 5, cmTotalTokens = 0\<rparr> ''claude-sonnet-5'') = Finite c \<and> \<bar>c - 3 / 1000\<bar> \<le> 3 / 1000 / 2 ^ 50"
proof -
  obtain pricing where p: "PricingForModel ''claude-sonnet-5'' = Some pricing" by (simp add: PricingForModel_def TrimSpace_visible visible_def)
  show ?thesis
    using cost_accurate [OF p _ _ refl refl refl, of "\<lparr>cmInputTokens = 1500, cmOutputTokens = - 5, cmTotalTokens = 0\<rparr>"] by simp
qed

end
