(* ===== verification/Controller.thy ===== *)
theory Controller
  imports Evidence Incident Classification
begin

text \<open>
  The reconciler, \<^verbatim>\<open>internal/controller/pod_controller.go\<close>, with \<^verbatim>\<open>closeIncidentIfTerminal\<close> of
  \<^verbatim>\<open>incident.go\<close>: from a reconcile request to a dispatched remediation, and the goroutine that runs it.

  Everything a reconcile works with is an argument: the fields of \<^verbatim>\<open>PodReconciler\<close>, the wall clock, and the ledger. The ledger's methods are
  functions over the world, so that what other threads do between two calls is part of the world's behaviour; \<open>mutexLedger\<close> is the ledger
  of the theory \<^verbatim>\<open>Incident\<close> in a world that has one. Log lines are left out. \<^verbatim>\<open>Reconcile\<close> returns its error and, when it started a
  goroutine, what that closure captured (\<open>dispatch\<close>); \<open>runDispatch\<close> is the goroutine.
\<close>

section \<open>State\<close>

record 'w Ledger =
  lgBeginAttempt :: "string \<Rightarrow> int \<Rightarrow> time \<Rightarrow> 'w \<Rightarrow> (incidentRecord \<times> admission) result \<times> 'w"
  lgRecordAttempt :: "string \<Rightarrow> 'w \<Rightarrow> int \<times> 'w"
  lgEndAttempt :: "string \<Rightarrow> string \<Rightarrow> time \<Rightarrow> 'w \<Rightarrow> unit \<times> 'w"
  lgIncidentEvidence :: "string \<Rightarrow> 'w \<Rightarrow> (string \<times> string list \<times> bool) \<times> 'w"
  lgFreezeEvidence :: "string \<Rightarrow> string \<Rightarrow> string list \<Rightarrow> 'w \<Rightarrow> unit \<times> 'w"
  lgClosedIncident :: "string \<Rightarrow> 'w \<Rightarrow> incidentClosure option \<times> 'w"

type_synonym 'w IncidentClassifier = "IncidentInput \<Rightarrow> 'w \<Rightarrow> ClassificationOutcome \<times> 'w"

record 'w PodReconciler =
  rcReader :: "'w Reader"
  rcMachinery :: Apimachinery
  rcClassifier :: "'w IncidentClassifier option"
  rcActions :: "string \<rightharpoonup> 'w RemediationAction"
  rcEvidence :: "'w EvidenceCollector option"
  rcSnapshots :: "'w SnapshotStore option"
  rcVerifier :: "'w PodVerifier option"
  rcAudit :: "'w AuditWriter option"
  rcClock :: "'w Clock option"
  rcAuditMetadata :: AuditMetadata
  rcLedger :: "'w Ledger"
  rcTimeNow :: "'w \<Rightarrow> time \<times> 'w"

record 'w dispatch =
  dsService :: "'w Service"
  dsEvent :: DetectionEvent
  dsKey :: string
  dsPodRef :: string

text \<open>The ledger of one process: a component of the world that every call reads and writes as a whole, and a source of fresh identifiers.\<close>

definition mutexLedger :: "('w \<Rightarrow> incidents) \<Rightarrow> (incidents \<Rightarrow> 'w \<Rightarrow> 'w) \<Rightarrow> ('w \<Rightarrow> string \<times> 'w) \<Rightarrow> 'w Ledger" where
  "mutexLedger get put newUUID =
     \<lparr>lgBeginAttempt = (\<lambda>key generation now w. case newUUID w of (newID, w1) \<Rightarrow>
        (case beginAttempt newID key generation now (get w1) of
           Panics \<Rightarrow> (Panics, w1)
         | Returns (record, decision, m) \<Rightarrow> (Returns (record, decision), put m w1))),
      lgRecordAttempt = (\<lambda>key w. case recordAttempt key (get w) of (n, m) \<Rightarrow> (n, put m w)),
      lgEndAttempt = (\<lambda>key outcome now w. ((), put (endAttempt key outcome now (get w)) w)),
      lgIncidentEvidence = (\<lambda>key w. (incidentEvidence key (get w), w)),
      lgFreezeEvidence = (\<lambda>key logs events w. ((), put (freezeEvidence key logs events (get w)) w)),
      lgClosedIncident = (\<lambda>key w. (closedIncident key (get w), w))\<rparr>"

section \<open>Operations\<close>

fun firstDeployment :: "OwnerReference list \<Rightarrow> string option" where
  "firstDeployment [] = None"
| "firstDeployment (rsRef # refs) = (if orKind rsRef = kindDeployment then Some (orName rsRef) else firstDeployment refs)"

fun ownerOfRefs :: "'w Reader \<Rightarrow> string \<Rightarrow> OwnerReference list \<Rightarrow> 'w \<Rightarrow> (error + string) \<times> 'w" where
  "ownerOfRefs reader namespace [] w = (Inr [], w)"
| "ownerOfRefs reader namespace (ref # refs) w =
     (if orKind ref \<noteq> kindReplicaSet then ownerOfRefs reader namespace refs w
      else case GetReplicaSet reader (nsName namespace (orName ref)) w of
          (Inl err, w1) \<Rightarrow> (Inl err, w1)
        | (Inr rs, w1) \<Rightarrow> (case firstDeployment (OwnerReferences (rsMeta rs)) of
              Some name \<Rightarrow> (Inr name, w1)
            | None \<Rightarrow> ownerOfRefs reader namespace refs w1))"

definition ownerDeploymentName :: "'w Reader \<Rightarrow> Pod \<Rightarrow> 'w \<Rightarrow> (error + string) \<times> 'w" where
  "ownerDeploymentName reader pod w = ownerOfRefs reader (Namespace (podMeta pod)) (OwnerReferences (podMeta pod)) w"

definition closeIncidentIfTerminal :: "'w PodReconciler \<Rightarrow> string \<Rightarrow> string \<Rightarrow> 'w \<Rightarrow> 'w" where
  "closeIncidentIfTerminal r key podRef w =
     (case lgClosedIncident (rcLedger r) key w of
        (None, w1) \<Rightarrow> w1
      | (Some closure, w1) \<Rightarrow>
        if icOutcome closure = outcomeRecovered then w1
        else auditIncidentClosed (rcTimeNow r) (rcAudit r) (rcAuditMetadata r) podRef closure w1)"

text \<open>\<^verbatim>\<open>r.endAttempt(key, outcome, time.Now())\<close> and then \<^verbatim>\<open>r.closeIncidentIfTerminal\<close>: how each path that gave up a claim ends.\<close>

definition release :: "'w PodReconciler \<Rightarrow> string \<Rightarrow> string \<Rightarrow> string \<Rightarrow> 'w \<Rightarrow> 'w" where
  "release r key podRef outcome w =
     (case rcTimeNow r w of (now, w1) \<Rightarrow>
        (case lgEndAttempt (rcLedger r) key outcome now w1 of (_, w2) \<Rightarrow> closeIncidentIfTerminal r key podRef w2))"

definition incidentInputOf :: "DetectionEvent \<Rightarrow> string \<Rightarrow> string list \<Rightarrow> IncidentInput" where
  "incidentInputOf event logs events =
     \<lparr>inPodName = evPodName event, inNamespace = evNamespace event, inContainerName = evContainerName event,
      inRestartCount = evRestartCount event, inOwnerDeployment = evOwnerDeployment event, inTimestamp = evTimestamp event,
      inLogs = logs, inEvents = events\<rparr>"

definition serviceFor :: "'w PodReconciler \<Rightarrow> 'w RemediationAction \<Rightarrow> 'w Service" where
  "serviceFor r action = \<lparr>svSnapshots = rcSnapshots r, svVerifier = rcVerifier r, svAction = Some action, svAudit = rcAudit r,
     svClock = rcClock r, svMetadata = rcAuditMetadata r\<rparr>"

text \<open>Evidence is collected once per incident.\<close>

definition gatherEvidence :: "'w PodReconciler \<Rightarrow> string \<Rightarrow> Pod \<Rightarrow> DetectionEvent \<Rightarrow> 'w \<Rightarrow> (string \<times> string list) \<times> 'w" where
  "gatherEvidence r key pod event w =
     (case lgIncidentEvidence (rcLedger r) key w of ((logs, events, frozen), w1) \<Rightarrow>
        if frozen then ((logs, events), w1)
        else case Collect (rcTimeNow r) (rcEvidence r) (Some pod) (evContainerName event) (evOwnerDeployment event) w1 of
          ((logs, events), w2) \<Rightarrow>
            (case lgFreezeEvidence (rcLedger r) key logs events w2 of (_, w3) \<Rightarrow> ((logs, events), w3)))"

text \<open>From the proposal to the dispatch: the safety gate, the choice of the action, the attempt number.\<close>

definition actOnProposal :: "'w PodReconciler \<Rightarrow> string \<Rightarrow> string \<Rightarrow> DetectionEvent \<Rightarrow> Proposal \<Rightarrow> 'w \<Rightarrow> 'w dispatch option \<times> 'w" where
  "actOnProposal r key podRef event proposal w =
     (if ShouldEscalate (prSafeForAutomation proposal) None then (None, release r key podRef outcomeEscalated w)
      else case rcActions r (prRecommendedAction proposal) of
          None \<Rightarrow> (None, release r key podRef outcomeRejected w)
        | Some action \<Rightarrow>
          (case lgRecordAttempt (rcLedger r) key w of (n, w1) \<Rightarrow>
             (Some \<lparr>dsService = serviceFor r action, dsEvent = event\<lparr>evAttemptNumber := n\<rparr>, dsKey = key, dsPodRef = podRef\<rparr>, w1)))"

text \<open>An admitted attempt: classify the incident on its evidence.\<close>

definition pursue :: "'w PodReconciler \<Rightarrow> string \<Rightarrow> string \<Rightarrow> Pod \<Rightarrow> DetectionEvent \<Rightarrow> 'w \<Rightarrow> 'w dispatch option \<times> 'w" where
  "pursue r key podRef pod event w =
     (case rcClassifier r of
        None \<Rightarrow> (None, release r key podRef outcomeEscalated w)
      | Some classifyIncident \<Rightarrow>
        (case gatherEvidence r key pod event w of ((logs, events), w1) \<Rightarrow>
           (case classifyIncident (incidentInputOf event logs events) w1 of (classification, w2) \<Rightarrow>
              actOnProposal r key podRef event (coProposal classification) w2)))"

text \<open>The body of the loop for a container in CrashLoopBackOff; every path through it leaves the loop.\<close>

definition handleCrash :: "'w PodReconciler \<Rightarrow> Pod \<Rightarrow> ContainerStatus \<Rightarrow> 'w \<Rightarrow> 'w dispatch option result \<times> 'w" where
  "handleCrash r pod cs w =
     (case ownerDeploymentName (rcReader r) pod w of (owner, w1) \<Rightarrow>
      (case rcTimeNow r w1 of (now, w2) \<Rightarrow>
        let event = \<lparr>evPodName = Name (podMeta pod), evNamespace = Namespace (podMeta pod), evContainerName = csName cs,
              evRestartCount = csRestartCount cs, evOwnerDeployment = (case owner of Inl err \<Rightarrow> [] | Inr name \<Rightarrow> name), evTimestamp = now,
              evIncidentID = [], evAttemptNumber = 0\<rparr> in
        if evOwnerDeployment event = [] then (Returns None, w2)
        else
        (case deploymentGeneration (rcReader r) (evNamespace event) (evOwnerDeployment event) w2 of ((generation, genErr), w3) \<Rightarrow>
         let key = incidentKey (evNamespace event) (evOwnerDeployment event);
             podRef = evNamespace event @ ''/'' @ evPodName event in
         (case rcTimeNow r w3 of (now', w4) \<Rightarrow>
          (case lgBeginAttempt (rcLedger r) key generation now' w4 of
             (Panics, w5) \<Rightarrow> (Panics, w5)
           | (Returns (record, decision), w5) \<Rightarrow>
             (let w6 = (if decision = admitExhausted then closeIncidentIfTerminal r key podRef w5 else w5) in
              if decision \<noteq> admitProceed then (Returns None, w6)
              else (case pursue r key podRef pod (event\<lparr>evIncidentID := irId record\<rparr>) w6 of (d, w7) \<Rightarrow> (Returns d, w7))))))))"

fun reconcileStatuses :: "'w PodReconciler \<Rightarrow> Pod \<Rightarrow> ContainerStatus list \<Rightarrow> 'w \<Rightarrow> 'w dispatch option result \<times> 'w" where
  "reconcileStatuses r pod [] w = (Returns None, w)"
| "reconcileStatuses r pod (cs # rest) w =
     (if csWaiting cs = Some ''CrashLoopBackOff'' then handleCrash r pod cs w else reconcileStatuses r pod rest w)"

definition excludedNamespaces :: "string set" where
  "excludedNamespaces = {''kube-system'', ''kube-node-lease'', ''local-path-storage''}"

definition Reconcile :: "'w PodReconciler \<Rightarrow> NamespacedName \<Rightarrow> 'w \<Rightarrow> (error option \<times> 'w dispatch option) result \<times> 'w" where
  "Reconcile r req w =
     (if nnNamespace req \<in> excludedNamespaces then (Returns (None, None), w)
      else case GetPod (rcReader r) req w of
          (Inl err, w1) \<Rightarrow> (Returns (IgnoreNotFound (rcMachinery r) err, None), w1)
        | (Inr pod, w1) \<Rightarrow>
          (case reconcileStatuses r pod (podContainerStatuses pod) w1 of
             (Panics, w2) \<Rightarrow> (Panics, w2)
           | (Returns d, w2) \<Rightarrow> (Returns (None, d), w2)))"

text \<open>
  The goroutine. Its deferred function releases the claim with the attempt's result, which is empty after an error and after a panic; \<open>None\<close> is a
  remediation that never returns.
\<close>

definition runDispatch :: "'w PodReconciler \<Rightarrow> 'w dispatch \<Rightarrow> 'w \<Rightarrow> (unit result \<times> 'w) option" where
  "runDispatch r d w =
     (case Remediate (dsService d) (dsEvent d) w of
        None \<Rightarrow> None
      | Some (Panics, w1) \<Rightarrow> Some (Panics, release r (dsKey d) (dsPodRef d) [] w1)
      | Some (Returns (Inl err), w1) \<Rightarrow> Some (Returns (), release r (dsKey d) (dsPodRef d) [] w1)
      | Some (Returns (Inr outcome), w1) \<Rightarrow>
          Some (Returns (), release r (dsKey d) (dsPodRef d) (OutcomeResult_string (oResult outcome)) w1))"

end
