(* ===== verification/Attempts.thy ===== *)
theory Attempts
  imports Service
begin

text \<open>
  The protocol of a remediation attempt. \<open>attempt\<close> lists the call sequences
  \<^verbatim>\<open>Service.Remediate\<close> may show on its dependencies with the result each leads to; the code is shown
  to follow it for every behaviour of the dependencies, and the properties of attempts are read off
  it by cases. \<open>gives m P\<close> is the partial-correctness triple the refinement proof runs on: if \<open>m\<close>
  returns, its result satisfies \<open>P\<close>.
\<close>

section \<open>Call sequences\<close>

text \<open>The entries that reached the audit log, and the calls that belong to the action or come after it.\<close>

fun appended :: "call list \<Rightarrow> AuditEntry list" where
  "appended [] = []"
| "appended (CAppend e None # tr) = e # appended tr"
| "appended (_ # tr) = appended tr"

fun touches :: "call \<Rightarrow> bool" where
  "touches (CExecute ev r) = True"
| "touches (CRestore snap r) = True"
| "touches (CVerify t r) = True"
| "touches _ = False"

lemma appended_append [simp]: "appended (xs @ ys) = appended xs @ appended ys"
  by (induction xs rule: appended.induct) auto

section \<open>Rules for the calls\<close>

definition gives :: "('a, 'w) run \<Rightarrow> ((error + 'a) result \<Rightarrow> 'w \<Rightarrow> bool) \<Rightarrow> bool" where
  "gives m P \<longleftrightarrow> (\<forall>r w. m = Some (r, w) \<longrightarrow> P r w)"

lemma gives_Some [simp]: "gives (Some (r, w)) P \<longleftrightarrow> P r w"
  by (auto simp: gives_def)

lemma gives_andThen:
  assumes "gives m (\<lambda>r w. case r of Panics \<Rightarrow> P Panics w | Returns (Inl e) \<Rightarrow> P (Returns (Inl e)) w
      | Returns (Inr x) \<Rightarrow> gives (k x w) P)"
  shows "gives (andThen m k) P"
  using assms by (auto simp: gives_def andThen_Some split: result.splits sum.splits)

lemma gives_recordEntry:
  assumes "\<And>t w' err. P (Returns (Inl err)) (w', tr @ [CNow t, CAppend (auditEntry md nm ev t state res) (Some err)])"
    and "\<And>t w'. P (Returns (Inr (auditEntry md nm ev t state res, st\<lparr>alEntries := alEntries st @ [auditEntry md nm ev t state res]\<rparr>)))
         (w', tr @ [CNow t, CAppend (auditEntry md nm ev t state res) None])"
  shows "gives (recordEntry md (callClock ck) (callAudit au) nm ev st state res (w, tr)) P"
  using assms
  by (auto simp: gives_def recordEntry_def callClock_def callAudit_def called_def andThen_Some liftErr_def Let_def
      split: prod.splits option.splits)

lemma gives_transition:
  assumes "next \<in> allowedTransitions m"
    and "\<And>t w' err. P (Returns (Inl err)) (w', tr @ [CNow t, CAppend (auditEntry md nm ev t next res) (Some err)])"
    and "\<And>t w'. P (Returns (Inr (auditEntry md nm ev t next res,
          \<lparr>alMachine = \<lparr>current = next\<rparr>, alEntries = es @ [auditEntry md nm ev t next res]\<rparr>)))
         (w', tr @ [CNow t, CAppend (auditEntry md nm ev t next res) None])"
  shows "gives (transition md (callClock ck) (callAudit au) nm ev \<lparr>alMachine = \<lparr>current = m\<rparr>, alEntries = es\<rparr> next res (w, tr)) P"
  using assms by (auto simp: transition_def intro!: gives_recordEntry)

lemma gives_lift:
  assumes "\<And>w' e. P (Returns (Inl (Wrapf pre e []))) (w', tr @ [mk (Inl e)])"
    and "\<And>w' x. P (Returns (Inr x)) (w', tr @ [mk (Inr x)])"
  shows "gives (wrapErr pre (lift (called mk f (w, tr)))) P"
  using assms by (auto simp: gives_def wrapErr_def lift_def called_def split: prod.splits sum.splits)

lemma gives_liftErr:
  assumes "\<And>w' e. P (Returns (Inl (Wrapf pre e []))) (w', tr @ [mk (Some e)])"
    and "\<And>w'. P (Returns (Inr ())) (w', tr @ [mk None])"
  shows "gives (wrapErr pre (liftErr (called mk f (w, tr)))) P"
  using assms by (auto simp: gives_def wrapErr_def liftErr_def called_def split: prod.splits option.splits)

lemma gives_liftExec:
  assumes "\<And>w' e. P (Returns (Inl (Wrapf pre e []))) (w', tr @ [mk (Returns (Some e))])"
    and "\<And>w'. P (Returns (Inr ())) (w', tr @ [mk (Returns None)])"
    and "\<And>w'. P Panics (w', tr @ [mk Panics])"
  shows "gives (wrapErr pre (liftExec (called mk f (w, tr)))) P"
  using assms by (auto simp: gives_def wrapErr_def liftErr_def liftExec_def called_def split: prod.splits option.splits result.splits)

lemma gives_verify:
  assumes "\<And>w' e. P (Returns (Inl (Wrapf pre e []))) (w', tr @ [CVerify t (Inl e)])"
    and "\<And>w' x. P (Returns (Inr x)) (w', tr @ [CVerify t (Inr x)])"
  shows "gives (wrapErr pre (Option.bind (pvVerify (callVerifier vf) t (w, tr)) lift)) P"
  using assms by (auto simp: gives_def wrapErr_def lift_def callVerifier_def split: bind_splits prod.splits option.splits result.splits sum.splits)

lemma callSnapshots_sel [simp]:
  "Capture (callSnapshots d) ref = called (CCapture ref) (Capture d ref)"
  "Restore (callSnapshots d) snap = called (CRestore snap) (Restore d snap)"
  by (simp_all add: callSnapshots_def)

lemma callVerifier_sel [simp]:
  "pvCapturePreActionPodUIDs (callVerifier d) t = called (CCaptureUIDs t) (pvCapturePreActionPodUIDs d t)"
  by (simp add: callVerifier_def)

lemma callAction_sel [simp]:
  "raName (callAction d) = raName d"
  "raExecute (callAction d) ev = called (CExecute ev) (raExecute d ev)"
  by (simp_all add: callAction_def)

lemmas gives_rules = gives_andThen gives_recordEntry gives_transition gives_lift gives_liftErr gives_liftExec gives_verify

section \<open>The protocol\<close>

abbreviation prepared :: "AuditMetadata \<Rightarrow> string \<Rightarrow> DetectionEvent \<Rightarrow> time \<Rightarrow> time \<Rightarrow> time \<Rightarrow> DeploymentSnapshot \<Rightarrow> PodUIDSet \<Rightarrow> call list" where
  "prepared md nm ev t1 t2 t3 snap uids \<equiv>
     [CNow t1, CAppend (auditEntry md nm ev t1 StateDetected ''received'') None,
      CCapture (deploymentRefOf ev) (Inr snap),
      CNow t2, CAppend (auditEntry md nm ev t2 StateSnapshotted ''captured'') None,
      CNow t3, CAppend (auditEntry md nm ev t3 StateRemediating ''started'') None,
      CCaptureUIDs (verificationTargetOf ev None) (Inr uids)]"

lemma auditEntry_sel [simp]:
  "aeState (auditEntry md nm ev t state res) = state"
  "aeTimestamp (auditEntry md nm ev t state res) = t"
  "aeIncidentID (auditEntry md nm ev t state res) = evIncidentID ev"
  "aeAttemptNumber (auditEntry md nm ev t state res) = evAttemptNumber ev"
  "aeAction (auditEntry md nm ev t state res) = nm"
  by (simp_all add: auditEntry_def)

lemma prepareAttempt_gives:
  assumes "\<And>err w' new. \<forall>c \<in> set new. \<not> touches c \<Longrightarrow>
       prefix (map aeState (appended new)) [StateDetected, StateSnapshotted, StateRemediating] \<Longrightarrow>
       P (Returns (Inl err)) (w', tr @ new)"
   and "\<And>snap uids t1 t2 t3 w'. P (Returns (Inr (snap, uids, \<lparr>alMachine = \<lparr>current = StateRemediating\<rparr>,
        alEntries = appended (prepared md nm ev t1 t2 t3 snap uids)\<rparr>)))
        (w', tr @ prepared md nm ev t1 t2 t3 snap uids)"
  shows "gives (prepareAttempt md (callSnapshots sn) (callVerifier vf) (callAudit au) (callClock ck) nm ev (w, tr)) P"
  unfolding prepareAttempt_def Let_def NewStateMachine_def
  using assms(2)
  by (auto intro!: gives_rules assms(1))

abbreviation audited :: "AuditMetadata \<Rightarrow> string \<Rightarrow> DetectionEvent \<Rightarrow> time \<Rightarrow> State \<Rightarrow> string \<Rightarrow> call list" where
  "audited md nm ev t state res \<equiv> [CNow t, CAppend (auditEntry md nm ev t state res) None]"

abbreviation unaudited :: "AuditMetadata \<Rightarrow> string \<Rightarrow> DetectionEvent \<Rightarrow> time \<Rightarrow> State \<Rightarrow> string \<Rightarrow> error \<Rightarrow> call list" where
  "unaudited md nm ev t state res err \<equiv> [CNow t, CAppend (auditEntry md nm ev t state res) (Some err)]"

text \<open>
  How an attempt ends once its verification returned: every audit append and the restore may fail, and
  the first failure ends it.
\<close>

inductive concluded :: "AuditMetadata \<Rightarrow> string \<Rightarrow> DetectionEvent \<Rightarrow> DeploymentSnapshot \<Rightarrow> VerificationResult \<Rightarrow> AuditEntry list
    \<Rightarrow> call list \<Rightarrow> error + Outcome \<Rightarrow> bool"
  for md nm ev snap res es where
  recovered: "vrRecovered res \<Longrightarrow>
     tr = audited md nm ev t1 StateRecovered ''recovered'' @ audited md nm ev t2 StateLogged ''recovered'' \<Longrightarrow>
     concluded md nm ev snap res es tr (Inr (Service_outcome ev OutcomeRecovered t1 (es @ appended tr)))"
| recovered_unaudited: "vrRecovered res \<Longrightarrow>
     concluded md nm ev snap res es (unaudited md nm ev t1 StateRecovered ''recovered'' err) (Inl err)"
| recovered_unlogged: "vrRecovered res \<Longrightarrow>
     concluded md nm ev snap res es (audited md nm ev t1 StateRecovered ''recovered'' @ unaudited md nm ev t2 StateLogged ''recovered'' err) (Inl err)"
| rolledBack: "\<not> vrRecovered res \<Longrightarrow>
     tr = audited md nm ev t1 StateRollingBack (vrReason res) @ CRestore snap None #
          audited md nm ev t2 StateRolledBack ''restored'' @ audited md nm ev t3 StateLogged ''rolled_back'' \<Longrightarrow>
     concluded md nm ev snap res es tr (Inr (Service_outcome ev OutcomeRolledBack t2 (es @ appended tr)))"
| rollback_unaudited: "\<not> vrRecovered res \<Longrightarrow>
     concluded md nm ev snap res es (unaudited md nm ev t1 StateRollingBack (vrReason res) err) (Inl err)"
| restore_failed: "\<not> vrRecovered res \<Longrightarrow>
     concluded md nm ev snap res es (audited md nm ev t1 StateRollingBack (vrReason res) @ [CRestore snap (Some err)])
       (Inl (Wrapf ''restore pre-remediation snapshot: '' err []))"
| restored_unaudited: "\<not> vrRecovered res \<Longrightarrow>
     concluded md nm ev snap res es (audited md nm ev t1 StateRollingBack (vrReason res) @ CRestore snap None #
          unaudited md nm ev t2 StateRolledBack ''restored'' err) (Inl err)"
| restored_unlogged: "\<not> vrRecovered res \<Longrightarrow>
     concluded md nm ev snap res es (audited md nm ev t1 StateRollingBack (vrReason res) @ CRestore snap None #
          audited md nm ev t2 StateRolledBack ''restored'' @ unaudited md nm ev t3 StateLogged ''rolled_back'' err) (Inl err)"


lemmas concluded_rules =
  concluded.recovered [OF _ refl, simplified] concluded.rolledBack [OF _ refl, simplified]
  concluded.recovered_unaudited concluded.recovered_unlogged [simplified]
  concluded.rollback_unaudited concluded.restore_failed [simplified]
  concluded.restored_unaudited [simplified] concluded.restored_unlogged [simplified]

lemma concludeAttempt_gives:
  assumes "\<And>new r w'. concluded md nm ev snap res es new r \<Longrightarrow> P (Returns r) (w', tr @ new)"
  shows "gives (concludeAttempt md (callClock ck) (callAudit au) (callSnapshots sn) nm ev snap res
      \<lparr>alMachine = \<lparr>current = StateVerifying\<rparr>, alEntries = es\<rparr> (w, tr)) P"
  unfolding concludeAttempt_def Let_def
  by (auto intro!: gives_rules assms concluded_rules)

text \<open>
  The whole attempt: \<open>early\<close> covers every failure before the action, the other rules name the point
  at which the attempt ended.
\<close>

inductive attempt :: "AuditMetadata \<Rightarrow> string \<Rightarrow> DetectionEvent \<Rightarrow> call list \<Rightarrow> (error + Outcome) result \<Rightarrow> bool"
  for md nm ev where
  early: "\<forall>c \<in> set tr. \<not> touches c \<Longrightarrow> prefix (map aeState (appended tr)) [StateDetected, StateSnapshotted, StateRemediating] \<Longrightarrow>
     attempt md nm ev tr (Returns (Inl err))"
| action_panics: "attempt md nm ev (prepared md nm ev t1 t2 t3 snap uids @ [CExecute ev Panics]) Panics"
| action_fails: "attempt md nm ev (prepared md nm ev t1 t2 t3 snap uids @ [CExecute ev (Returns (Some err))])
     (Returns (Inl (Wrapf ''execute injected remediation action: '' err [])))"
| verifying_unaudited: "attempt md nm ev (prepared md nm ev t1 t2 t3 snap uids @ CExecute ev (Returns None) #
     unaudited md nm ev t4 StateVerifying ''started'' err) (Returns (Inl err))"
| verify_fails: "attempt md nm ev (prepared md nm ev t1 t2 t3 snap uids @ CExecute ev (Returns None) #
     audited md nm ev t4 StateVerifying ''started'' @ [CVerify (verificationTargetOf ev (Some uids)) (Inl err)])
     (Returns (Inl (Wrapf ''verify remediation: '' err [])))"
| verified: "acted = prepared md nm ev t1 t2 t3 snap uids @ CExecute ev (Returns None) # audited md nm ev t4 StateVerifying ''started'' @
       [CVerify (verificationTargetOf ev (Some uids)) (Inr res)] \<Longrightarrow>
     concluded md nm ev snap res (appended acted) tr r \<Longrightarrow>
     attempt md nm ev (acted @ tr) (Returns r)"

lemmas attempt_rules = attempt.action_panics attempt.action_fails attempt.verifying_unaudited attempt.verify_fails

lemma runAttempt_gives:
  "gives (runAttempt md (callSnapshots sn) (callVerifier vf) (callAction ac) (callAudit au) (callClock ck) ev (w, []))
     (\<lambda>r w. attempt md (raName ac) ev (snd w) r)"
proof -
  let ?nm = "raName ac"
  have act: "gives (andThen (actAndVerify md (callVerifier vf) (callAction ac) (callAudit au) (callClock ck) ev uids
        \<lparr>alMachine = \<lparr>current = StateRemediating\<rparr>, alEntries = appended (prepared md ?nm ev t1 t2 t3 snap uids)\<rparr> (w', prepared md ?nm ev t1 t2 t3 snap uids))
        (\<lambda>(verification, st) w. concludeAttempt md (callClock ck) (callAudit au) (callSnapshots sn) ?nm ev snap verification st w))
      (\<lambda>r w. attempt md ?nm ev (snd w) r)" for snap uids t1 t2 t3 w'
    unfolding actAndVerify_def
    by (auto intro!: gives_rules concludeAttempt_gives attempt_rules [simplified] attempt.verified [OF refl, simplified])
  show ?thesis
    unfolding runAttempt_def
    by (auto intro!: gives_andThen prepareAttempt_gives attempt.early act [simplified])
qed

section \<open>Recording is invisible\<close>

text \<open>Recording the calls changes neither the result of an attempt nor the world it leaves.\<close>

definition unlogged :: "('a, 'w \<times> 'l) run \<Rightarrow> ('a, 'w) run" where
  "unlogged m = map_option (map_prod id fst) m"

lemma unlogged_andThen:
  assumes "unlogged m = m'" "\<And>x w l. unlogged (k x (w, l)) = k' x w"
  shows "unlogged (andThen m k) = andThen m' k'"
  using assms by (auto simp: unlogged_def andThen_def split: option.splits prod.splits result.splits sum.splits)

lemma unlogged_lift:
  "unlogged (Some (r, (w, l))) = Some (r, w)"
  "unlogged (wrapErr pre m) = wrapErr pre (unlogged m)"
  "unlogged (lift (called mk f (w, l'))) = lift (f w)"
  "unlogged (liftErr (called mkE g (w, l'))) = liftErr (g w)"
  "unlogged (liftExec (called mkX h (w, l'))) = liftExec (h w)"
  "unlogged (Option.bind (pvVerify (callVerifier vf) t (w, l')) lift) = Option.bind (pvVerify vf t w) lift"
  by (auto simp: unlogged_def wrapErr_def lift_def liftErr_def liftExec_def called_def callVerifier_def
      split: option.splits prod.splits result.splits sum.splits bind_splits)

lemma unlogged_recordEntry:
  "unlogged (recordEntry md (callClock ck) (callAudit au) nm ev st state res (w, l)) = recordEntry md ck au nm ev st state res w"
  by (auto simp: recordEntry_def callClock_def callAudit_def called_def Let_def unlogged_lift liftErr_def unlogged_def andThen_def
      split: prod.splits option.splits result.splits sum.splits)

lemma unlogged_transition:
  "unlogged (transition md (callClock ck) (callAudit au) nm ev st next res (w, l)) = transition md ck au nm ev st next res w"
  by (auto simp: transition_def unlogged_recordEntry unlogged_lift split: prod.splits option.splits)

lemmas unlogged_rules = unlogged_andThen unlogged_lift unlogged_recordEntry unlogged_transition

lemma unlogged_prepareAttempt:
  "unlogged (prepareAttempt md (callSnapshots sn) (callVerifier vf) (callAudit au) (callClock ck) nm ev (w, l)) = prepareAttempt md sn vf au ck nm ev w"
  unfolding prepareAttempt_def Let_def
  by (intro unlogged_andThen unlogged_recordEntry) (auto simp: unlogged_rules(2-) intro!: unlogged_andThen)

lemma unlogged_actAndVerify:
  "unlogged (actAndVerify md (callVerifier vf) (callAction ac) (callAudit au) (callClock ck) ev uids st (w, l)) = actAndVerify md vf ac au ck ev uids st w"
  unfolding actAndVerify_def
  by (intro unlogged_andThen) (auto simp: unlogged_rules(2-) intro!: unlogged_andThen)

lemma unlogged_concludeAttempt:
  "unlogged (concludeAttempt md (callClock ck) (callAudit au) (callSnapshots sn) nm ev snap res st (w, l)) = concludeAttempt md ck au sn nm ev snap res st w"
  unfolding concludeAttempt_def Let_def
  by (cases "vrRecovered res") (auto simp: unlogged_rules(2-) intro!: unlogged_andThen)

lemma unlogged_runAttempt:
  "unlogged (runAttempt md (callSnapshots sn) (callVerifier vf) (callAction ac) (callAudit au) (callClock ck) ev (w, l))
   = runAttempt md sn vf ac au ck ev w"
  unfolding runAttempt_def callAction_sel
  by (rule unlogged_andThen, rule unlogged_prepareAttempt, clarsimp, rule unlogged_andThen, rule unlogged_actAndVerify,
      clarsimp simp: unlogged_concludeAttempt)

lemma traceService_validate [simp]: "Service_validate (traceService s) = Service_validate s"
  by (simp add: Service_validate_def traceService_def)

lemma Remediate_cases:
  obtains (refused) err where "\<And>w. Remediate s ev w = Some (Returns (Inl err), w)"
      "\<And>w. Remediate (traceService s) ev w = Some (Returns (Inl err), w)"
  | (runs) sn vf ac au ck where "svAction s = Some ac" "validateDetectionEvent ev = None" "Service_validate s = None"
      "\<And>w. Remediate s ev w = runAttempt (svMetadata s) sn vf ac au ck ev w"
      "\<And>w. Remediate (traceService s) ev w =
         runAttempt (svMetadata s) (callSnapshots sn) (callVerifier vf) (callAction ac) (callAudit au) (callClock ck) ev w"
proof (cases "Service_validate s")
  case None
  then obtain sn vf ac au ck where deps: "svSnapshots s = Some sn" "svVerifier s = Some vf" "svAction s = Some ac"
      "svAudit s = Some au" "svClock s = Some ck"
    by (auto simp: Service_validate_def split: if_splits)
  show ?thesis
  proof (cases "validateDetectionEvent ev")
    case None': None
    show ?thesis
      by (rule runs [of ac sn vf au ck]) (simp_all add: Remediate_def None None' deps, simp add: traceService_def deps)
  next
    case (Some err)
    then show ?thesis using None by (intro refused [of err]) (simp_all add: Remediate_def)
  qed
next
  case (Some err)
  then show ?thesis by (intro refused [of err]) (simp_all add: Remediate_def)
qed

lemma Remediate_unlogged: "unlogged (Remediate (traceService s) ev (w, l)) = Remediate s ev w"
  by (rule Remediate_cases [of s ev]) (simp_all add: unlogged_lift unlogged_runAttempt)

lemma Remediate_gives:
  assumes "Remediate (traceService s) ev (w, []) = Some (r, (w', tr))"
  shows "attempt (svMetadata s) (case svAction s of Some a \<Rightarrow> raName a | None \<Rightarrow> []) ev tr r"
proof (cases rule: Remediate_cases [of s ev])
  case (refused err)
  then show ?thesis using assms by (auto intro: attempt.early)
next
  case (runs sn vf ac au ck)
  then show ?thesis using assms runAttempt_gives [of "svMetadata s" sn vf ac au ck ev w] by (simp add: gives_def)
qed


section \<open>Reading the protocol\<close>

fun is_execute :: "call \<Rightarrow> bool" where
  "is_execute (CExecute ev r) = True"
| "is_execute _ = False"

fun is_restore :: "call \<Rightarrow> bool" where
  "is_restore (CRestore snap r) = True"
| "is_restore _ = False"

abbreviation actionName :: "'w Service \<Rightarrow> string" where
  "actionName s \<equiv> (case svAction s of Some a \<Rightarrow> raName a | None \<Rightarrow> [])"

lemma concluded_quiet: "concluded md nm ev snap res es tr r \<Longrightarrow> c \<in> set tr \<Longrightarrow> \<not> is_execute c"
  by (induction rule: concluded.induct) auto

lemma touches_execute: "is_execute c \<Longrightarrow> touches c"
  by (cases c) auto

lemma attempt_execute:
  assumes "attempt md nm ev tr r" and "tr = pre @ CExecute e x # post"
  shows "e = ev \<and> (\<exists>t1 t2 t3 snap uids. pre = prepared md nm ev t1 t2 t3 snap uids) \<and> (\<forall>c \<in> set post. \<not> is_execute c)"
  using assms
proof (induction rule: attempt.induct)
  case (verified acted t1 t2 t3 snap uids t4 res tr r)
  let ?p = "prepared md nm ev t1 t2 t3 snap uids"
  obtain tl where tl: "acted @ tr = ?p @ CExecute ev (Returns None) # tl" "\<forall>c \<in> set tl. \<not> is_execute c"
    using verified(1) concluded_quiet [OF verified(2)] by auto
  have "\<forall>c \<in> set ?p. \<not> is_execute c" by simp
  with tl verified(3) show ?case
    by (auto simp: append_eq_append_conv2 append_eq_Cons_conv Cons_eq_append_conv)
qed (auto simp: Cons_eq_append_conv append_eq_Cons_conv dest: touches_execute)


lemma concluded_restore:
  "concluded md nm ev snap res es tr r \<Longrightarrow> CRestore snap' x \<in> set tr \<Longrightarrow> snap' = snap \<and> \<not> vrRecovered res"
  by (induction rule: concluded.induct) auto

lemma attempt_restore:
  assumes "attempt md nm ev tr r" and "CRestore snap x \<in> set tr"
  shows "\<exists>acted uids res rest. tr = acted @ CVerify (verificationTargetOf ev (Some uids)) (Inr res) # rest \<and>
     \<not> vrRecovered res \<and> CCapture (deploymentRefOf ev) (Inr snap) \<in> set acted \<and> CExecute ev (Returns None) \<in> set acted \<and>
     CRestore snap x \<in> set rest"
  using assms
proof (induction rule: attempt.induct)
  case (verified acted t1 t2 t3 snap' uids t4 res tr r)
  let ?a = "prepared md nm ev t1 t2 t3 snap' uids @ CExecute ev (Returns None) # audited md nm ev t4 StateVerifying ''started''"
  from verified have "CRestore snap x \<in> set tr" by auto
  with verified concluded_restore [OF verified(2)] show ?case
    by (intro exI [of _ ?a] exI [of _ uids] exI [of _ res] exI [of _ tr]) auto
qed auto

lemma concluded_states:
  assumes "concluded md nm ev snap res es tr r"
  shows "prefix (map aeState (appended tr)) (if vrRecovered res then [StateRecovered, StateLogged] else [StateRollingBack, StateRolledBack, StateLogged])"
  using assms by (induction rule: concluded.induct) auto

lemma attempt_states:
  assumes "attempt md nm ev tr r"
  shows "prefix (map aeState (appended tr)) (StateDetected # recoveryPath) \<or>
         prefix (map aeState (appended tr)) (StateDetected # rollbackPath)"
  using assms
proof (induction rule: attempt.induct)
  case (early tr err)
  then show ?case unfolding recoveryPath_def by (auto simp: prefix_Cons)
next
  case (verified acted t1 t2 t3 snap uids t4 res tr r)
  then show ?case
    using concluded_states [OF verified(2)] by (auto simp: recoveryPath_def rollbackPath_def split: if_splits)
qed (auto simp: recoveryPath_def rollbackPath_def)

lemma concluded_outcome:
  assumes "concluded md nm ev snap res es tr (Inr out)"
  shows "oAuditEntries out = es @ appended tr \<and> oResult out = (if vrRecovered res then OutcomeRecovered else OutcomeRolledBack) \<and>
    map aeState (appended tr) = (if vrRecovered res then [StateRecovered, StateLogged] else [StateRollingBack, StateRolledBack, StateLogged]) \<and>
    (\<exists>e \<in> set (appended tr). aeState e = (if vrRecovered res then StateRecovered else StateRolledBack) \<and>
       oMTTR out = time_Sub (aeTimestamp e) (evTimestamp ev)) \<and>
    (\<forall>snap'. CRestore snap' None \<in> set tr \<longleftrightarrow> \<not> vrRecovered res \<and> snap' = snap)"
  using assms by cases (auto simp: Service_outcome_def)

definition terminalState :: "OutcomeResult \<Rightarrow> State" where
  "terminalState res = (case res of OutcomeRecovered \<Rightarrow> StateRecovered | OutcomeRolledBack \<Rightarrow> StateRolledBack)"

lemma attempt_outcome:
  assumes "attempt md nm ev tr (Returns (Inr out))"
  shows "oAuditEntries out = appended tr \<and>
    map aeState (appended tr) = StateDetected # (if oResult out = OutcomeRecovered then recoveryPath else rollbackPath) \<and>
    (\<exists>e \<in> set (appended tr). aeState e = terminalState (oResult out) \<and> oMTTR out = time_Sub (aeTimestamp e) (evTimestamp ev)) \<and>
    (\<exists>snap uids res. CCapture (deploymentRefOf ev) (Inr snap) \<in> set tr \<and> CExecute ev (Returns None) \<in> set tr \<and>
       CVerify (verificationTargetOf ev (Some uids)) (Inr res) \<in> set tr \<and>
       (vrRecovered res \<longleftrightarrow> oResult out = OutcomeRecovered) \<and>
       (CRestore snap None \<in> set tr \<longleftrightarrow> oResult out = OutcomeRolledBack))"
  using assms
proof cases
  case (verified acted t1 t2 t3 snap uids t4 res tr')
  from concluded_outcome [OF verified(3)] verified(1,2) show ?thesis
    by (fastforce simp: recoveryPath_def rollbackPath_def terminalState_def split: if_splits)
qed

lemma concluded_entries: "concluded md nm ev snap res es tr r \<Longrightarrow> e \<in> set (appended tr) \<Longrightarrow>
    aeIncidentID e = evIncidentID ev \<and> aeAttemptNumber e = evAttemptNumber ev \<and> aeAction e = nm"
  by (induction rule: concluded.induct) auto

lemma attempt_outcome_entries:
  assumes "attempt md nm ev tr (Returns (Inr out))" and "e \<in> set (appended tr)"
  shows "aeIncidentID e = evIncidentID ev \<and> aeAttemptNumber e = evAttemptNumber ev \<and> aeAction e = nm"
  using assms by cases (auto dest: concluded_entries)

lemma attempt_verify_error:
  assumes "attempt md nm ev tr r" and "CVerify t (Inl err) \<in> set tr"
  shows "CExecute ev (Returns None) \<in> set tr \<and> (\<forall>c \<in> set tr. \<not> is_restore c) \<and> r = Returns (Inl (Wrapf ''verify remediation: '' err []))"
proof -
  have "CVerify t (Inl err) \<notin> set tr" if "concluded md nm ev snap res es tr r" for snap res es tr r
    using that by (induction rule: concluded.induct) auto
  with assms show ?thesis by (induction rule: attempt.induct) auto
qed
end
