(* ===== verification/Actions.thy ===== *)
theory Actions
  imports Service
begin

text \<open>
  The two remediation actions, \<^verbatim>\<open>internal/actions/actions.go\<close> and \<^verbatim>\<open>remediation_action.go\<close>. Shown: the
  only write of a restart is the deletion of the Pod the event names; the only write of a rollback is an
  update of the Deployment the event names that changes its template alone, to the template of
  a ReplicaSet the Deployment controls whose revision is the greatest below the current one.
\<close>

section \<open>The actions\<close>

definition revisionAnnotation :: string where
  "revisionAnnotation = ''deployment.kubernetes.io/revision''"

definition RestartPod :: "Apimachinery \<Rightarrow> 'w Client \<Rightarrow> DetectionEvent \<Rightarrow> 'w \<Rightarrow> error option \<times> 'w" where
  "RestartPod am c event w =
     (case GetPod (clientReader c) (nsName (evNamespace event) (evPodName event)) w of
        (Inl err, w1) \<Rightarrow> (IgnoreNotFound am err, w1)
      | (Inr pod, w1) \<Rightarrow>
        (case DeletePod c pod w1 of
           (Some err, w2) \<Rightarrow> (IgnoreNotFound am err, w2)
         | (None, w2) \<Rightarrow> (None, w2)))"

type_synonym candidate = "ReplicaSet \<times> int"

text \<open>
  The loop that collects the prior revisions: \<open>None\<close> is \<^verbatim>\<open>continue\<close>.
\<close>

definition candidateOf :: "Apimachinery \<Rightarrow> Deployment \<Rightarrow> int \<Rightarrow> ReplicaSet \<Rightarrow> candidate option" where
  "candidateOf am deploy currentRevision rs =
     (if \<not> IsControlledBy am (rsMeta rs) (depMeta deploy) then None
      else case Annotations (rsMeta rs) revisionAnnotation of
          None \<Rightarrow> None
        | Some revStr \<Rightarrow>
            (case Atoi revStr of (revision, err) \<Rightarrow>
               if err \<noteq> None \<or> revision \<ge> currentRevision then None else Some (rs, revision)))"

text \<open>\<^verbatim>\<open>int\<close> is 64 bits wide, so the comparator's subtraction wraps.\<close>

definition subInt :: "int \<Rightarrow> int \<Rightarrow> int" where
  "subInt a b = sint (word_of_int (a - b) :: 64 word)"

definition byRevision :: "candidate \<Rightarrow> candidate \<Rightarrow> int" where
  "byRevision a b = subInt (snd b) (snd a)"

text \<open>
  \<^verbatim>\<open>deploy.Spec.Selector\<close> is a pointer the code follows without a check: \<open>Panics\<close> when it is nil.
\<close>

definition RolloutUndo :: "Apimachinery \<Rightarrow> 'w Client \<Rightarrow> DetectionEvent \<Rightarrow> 'w \<Rightarrow> error option result \<times> 'w" where
  "RolloutUndo am c event w =
     (if evOwnerDeployment event = [] then (Returns (Some (Errorf ''rollout undo: event has no owner deployment'')), w)
      else case GetDeployment (clientReader c) (nsName (evNamespace event) (evOwnerDeployment event)) w of
          (Inl err, w1) \<Rightarrow> (Returns (Some (Wrapf ''rollout undo: fetching deployment: '' err [])), w1)
        | (Inr deploy, w1) \<Rightarrow>
          (case Selector (depSpec deploy) of
             None \<Rightarrow> (Panics, w1)
           | Some selector \<Rightarrow>
             (case ListReplicaSets (clientReader c) (evNamespace event) (MatchingLabels (MatchLabels selector)) w1 of
                (Inl err, w2) \<Rightarrow> (Returns (Some (Wrapf ''rollout undo: listing replicasets: '' err [])), w2)
              | (Inr items, w2) \<Rightarrow>
                let currentRevision = fst (Atoi (annotation (depMeta deploy) revisionAnnotation));
                    prior = List.map_filter (candidateOf am deploy currentRevision) items
                in if prior = [] then (Returns (Some (Errorf ''rollout undo: no prior revision available'')), w2)
                   else let target = fst (hd (SortFunc byRevision prior)) in
                     (case UpdateDeployment c (deploy\<lparr>depSpec := (depSpec deploy)\<lparr>Template := rsTemplate target\<rparr>\<rparr>) w2 of
                        (err, w3) \<Rightarrow> (Returns err, w3)))))"

definition RestartPodAction :: "Apimachinery \<Rightarrow> 'w Client \<Rightarrow> 'w RemediationAction" where
  "RestartPodAction am c = \<lparr>raName = ''restart_pod'',
     raExecute = (\<lambda>event w. case RestartPod am c event w of (err, w1) \<Rightarrow> (Returns err, w1))\<rparr>"

definition RolloutUndoAction :: "Apimachinery \<Rightarrow> 'w Client \<Rightarrow> 'w RemediationAction" where
  "RolloutUndoAction am c = \<lparr>raName = ''rollout_undo'', raExecute = RolloutUndo am c\<rparr>"

section \<open>What they write\<close>

text \<open>The comparator sorts by descending revision when revisions are not negative.\<close>

lemma subInt_exact: "- (2 ^ 63) \<le> a - b \<Longrightarrow> a - b < 2 ^ 63 \<Longrightarrow> subInt a b = a - b"
  by (simp add: subInt_def sint_sbintrunc' signed_take_bit_int_eq_self del: of_int_diff)

lemma byRevision_order:
  assumes "\<And>x. x \<in> A \<Longrightarrow> 0 \<le> snd x \<and> snd x < 2 ^ 63"
  shows "cmp_order byRevision A"
proof -
  have eq: "byRevision a b = snd b - snd a" if "a \<in> A" "b \<in> A" for a b
    using assms [OF that(1)] assms [OF that(2)] by (auto simp: byRevision_def intro!: subInt_exact)
  show ?thesis unfolding cmp_order_def by (auto simp: eq)
qed

lemma candidateOf_Some:
  "candidateOf am deploy cur rs = Some (rs', n) \<longleftrightarrow>
     rs' = rs \<and> IsControlledBy am (rsMeta rs) (depMeta deploy) \<and>
     (\<exists>s. Annotations (rsMeta rs) revisionAnnotation = Some s \<and> Atoi s = (n, None)) \<and> n < cur"
  by (auto simp: candidateOf_def split: option.splits prod.splits)

lemma in_map_filter: "y \<in> set (List.map_filter f xs) \<longleftrightarrow> (\<exists>x \<in> set xs. f x = Some y)"
  by (force simp: map_filter_def)

lemma greatest_candidate:
  assumes "prior \<noteq> []" and "\<forall>x \<in> set prior. 0 \<le> snd x" and "\<forall>x \<in> set prior. snd x < 2 ^ 63" and "y \<in> set prior"
  shows "snd y \<le> snd (hd (SortFunc byRevision prior))"
proof -
  let ?m = "hd (SortFunc byRevision prior)"
  have m: "?m \<in> set prior" using assms(1) by (rule go_sort.sort_hd_mem)
  have "byRevision ?m y \<le> 0"
    using assms by (intro go_sort.sort_hd_least byRevision_order) auto
  moreover have "byRevision ?m y = snd y - snd ?m"
    using assms(2,3) bspec [OF assms(2) m] bspec [OF assms(2) assms(4)] bspec [OF assms(3) m] bspec [OF assms(3) assms(4)]
    by (auto simp: byRevision_def intro!: subInt_exact)
  ultimately show ?thesis by simp
qed

text \<open>
  C17: what a rollback may change. Whatever the API server answers, \<^verbatim>\<open>RolloutUndo\<close> writes nothing, or writes
  exactly once: an update of the Deployment the event names, as it was just read, with only the Pod
  template replaced. The template is that of a listed ReplicaSet the Deployment controls, whose
  revision annotation is a number below the Deployment's current revision. When the annotated revisions of
  the candidates are not negative, as Kubernetes numbers them, no candidate has a greater revision.
\<close>

theorem rollout_undo_write:
  assumes "RolloutUndo am (traceClient c) event (w, []) = (r, (w', tr))" and "writes tr \<noteq> []"
  shows "\<exists>deploy w1 selector items w2 rs n cands.
    GetDeployment (clientReader c) (nsName (evNamespace event) (evOwnerDeployment event)) w = (Inr deploy, w1) \<and>
    Selector (depSpec deploy) = Some selector \<and>
    ListReplicaSets (clientReader c) (evNamespace event) (MatchingLabels (MatchLabels selector)) w1 = (Inr items, w2) \<and>
    writes tr = [EUpdateDeployment (deploy\<lparr>depSpec := (depSpec deploy)\<lparr>Template := rsTemplate rs\<rparr>\<rparr>)] \<and>
    cands = List.map_filter (candidateOf am deploy (fst (Atoi (annotation (depMeta deploy) revisionAnnotation)))) items \<and>
    (rs, n) \<in> set cands \<and> rs \<in> set items \<and> IsControlledBy am (rsMeta rs) (depMeta deploy) \<and>
    n < fst (Atoi (annotation (depMeta deploy) revisionAnnotation)) \<and>
    ((\<forall>x \<in> set cands. 0 \<le> snd x) \<longrightarrow> (\<forall>x \<in> set cands. snd x \<le> n))"
proof -
  from assms obtain deploy w1 selector items w2 where r:
    "GetDeployment (clientReader c) (nsName (evNamespace event) (evOwnerDeployment event)) w = (Inr deploy, w1)"
    "Selector (depSpec deploy) = Some selector"
    "ListReplicaSets (clientReader c) (evNamespace event) (MatchingLabels (MatchLabels selector)) w1 = (Inr items, w2)"
    and ne: "List.map_filter (candidateOf am deploy (fst (Atoi (annotation (depMeta deploy) revisionAnnotation)))) items \<noteq> []"
    and wr: "writes tr = [EUpdateDeployment (deploy\<lparr>depSpec := (depSpec deploy)\<lparr>Template := rsTemplate (fst (hd (SortFunc byRevision
       (List.map_filter (candidateOf am deploy (fst (Atoi (annotation (depMeta deploy) revisionAnnotation)))) items))))\<rparr>\<rparr>)]"
    by (auto simp: RolloutUndo_def Let_def logged_eq split: if_splits prod.splits sum.splits option.splits)
  let ?cur = "fst (Atoi (annotation (depMeta deploy) revisionAnnotation))"
  let ?cands = "List.map_filter (candidateOf am deploy ?cur) items"
  obtain rs n where hd: "hd (SortFunc byRevision ?cands) = (rs, n)" by fastforce
  with ne have mem: "(rs, n) \<in> set ?cands" using go_sort.sort_hd_mem by metis
  then have rs: "candidateOf am deploy ?cur rs = Some (rs, n)" "rs \<in> set items"
    by (auto simp: in_map_filter candidateOf_Some)
  have lt: "\<forall>x \<in> set ?cands. snd x < 2 ^ 63"
    using Atoi_range by (fastforce simp: in_map_filter candidateOf_Some intro: less_le_trans)
  have "\<forall>x \<in> set ?cands. snd x \<le> n" if "\<forall>x \<in> set ?cands. 0 \<le> snd x"
    using greatest_candidate [OF ne that lt] hd by simp
  with r wr hd mem rs show ?thesis
    unfolding candidateOf_Some by (intro exI conjI) (auto simp: candidateOf_Some)
qed

text \<open>A Deployment at revision 3 whose ReplicaSets carry the revisions 1, 2 and 3.\<close>

definition revisioned :: "string \<Rightarrow> ObjectMeta \<Rightarrow> ObjectMeta" where
  "revisioned n m = m\<lparr>Annotations := [revisionAnnotation \<mapsto> n]\<rparr>"

definition exampleReplicaSet :: "string \<Rightarrow> string \<Rightarrow> ReplicaSet" where
  "exampleReplicaSet n template = \<lparr>rsMeta = revisioned n (exampleMeta (''checkout-rs'' @ n) (''rs-'' @ n)
     [exampleOwner ''Deployment'' ''checkout'' ''dep-1'']), rsTemplate = template\<rparr>"

definition rolledOutCluster :: cluster where
  "rolledOutCluster = healedCluster\<lparr>
     clDeployments := [\<lparr>depMeta = revisioned ''3'' (exampleMeta ''checkout'' ''dep-1'' []),
       depSpec = \<lparr>Selector = Some \<lparr>MatchLabels = Map.empty, MatchExpressions = []\<rparr>, Template = ''v3'', specRest = []\<rparr>\<rparr>],
     clReplicaSets := [exampleReplicaSet ''1'' ''v1'', exampleReplicaSet ''2'' ''v2'', exampleReplicaSet ''3'' ''v3'']\<rparr>"

definition exampleEvent :: DetectionEvent where
  "exampleEvent = \<lparr>evPodName = ''checkout-1'', evNamespace = ''shop'', evContainerName = ''app'', evRestartCount = 3,
     evOwnerDeployment = ''checkout'', evTimestamp = 90, evIncidentID = ''i-1'', evAttemptNumber = 1\<rparr>"

lemma rolledOut_writes:
  "(case RolloutUndo stdMachinery (traceClient clusterClient) exampleEvent (rolledOutCluster, []) of
      (r, (w', tr)) \<Rightarrow> map (\<lambda>e. case e of EUpdateDeployment d \<Rightarrow> Template (depSpec d) | _ \<Rightarrow> []) (writes tr)) = [''v2'']"
  by code_simp

theorem rollout_undo_write_witness:
  "\<exists>r w' tr rs. RolloutUndo stdMachinery (traceClient clusterClient) exampleEvent (rolledOutCluster, []) = (r, (w', tr)) \<and>
     rs \<in> set (clReplicaSets rolledOutCluster) \<and> rsTemplate rs = ''v2''"
proof -
  obtain r w' tr where r: "RolloutUndo stdMachinery (traceClient clusterClient) exampleEvent (rolledOutCluster, []) = (r, (w', tr))"
    by (metis prod.collapse)
  with rolledOut_writes have t: "map (\<lambda>e. case e of EUpdateDeployment d \<Rightarrow> Template (depSpec d) | _ \<Rightarrow> []) (writes tr) = [''v2'']"
    by simp
  then have "writes tr \<noteq> []" by auto
  from rollout_undo_write [OF r this] obtain deploy w1 items w2 rs and selector :: LabelSelector where
    "GetDeployment (clientReader clusterClient) (nsName (evNamespace exampleEvent) (evOwnerDeployment exampleEvent)) rolledOutCluster = (Inr deploy, w1)"
    "ListReplicaSets (clientReader clusterClient) (evNamespace exampleEvent) (MatchingLabels (MatchLabels selector)) w1 = (Inr items, w2)"
    "writes tr = [EUpdateDeployment (deploy\<lparr>depSpec := (depSpec deploy)\<lparr>Template := rsTemplate rs\<rparr>\<rparr>)]" "rs \<in> set items"
    by blast
  with t have "rsTemplate rs = ''v2''" "rs \<in> set (clReplicaSets rolledOutCluster)"
    by (auto simp: clusterClient_def clusterReader_def)
  with r show ?thesis by blast
qed

text \<open>
  C33: what a restart may change. Whatever the API server answers, the writes of \<^verbatim>\<open>RestartPod\<close> are none,
  or the deletion of the Pod that a get under the event's own namespace and Pod name returned. It
  reports no error when the Pod is not found, at the get or at the deletion.
\<close>

theorem restart_pod_write:
  assumes "RestartPod am (traceClient c) event (w, []) = (r, (w', tr))"
  shows "(writes tr = [] \<or>
      (\<exists>pod w1. GetPod (clientReader c) (nsName (evNamespace event) (evPodName event)) w = (Inr pod, w1) \<and> writes tr = [EDeletePod pod])) \<and>
    (\<forall>err. r = Some err \<longrightarrow> (\<exists>e. IgnoreNotFound am e = Some err)) \<and>
    RestartPod am c event w = (r, w')"
  using assms
  by (auto simp: RestartPod_def logged_eq logged_def split: prod.splits sum.splits option.splits)

definition crashedPod :: Pod where
  "crashedPod = \<lparr>podMeta = exampleMeta ''checkout-1'' ''uid-1'' [exampleOwner ''ReplicaSet'' ''checkout-rs'' ''rs-1''],
     podContainers = [''app''], podConditions = [],
     podContainerStatuses = [\<lparr>csName = ''app'', csRestartCount = 3, csWaiting = Some ''CrashLoopBackOff''\<rparr>]\<rparr>"

definition crashedCluster :: cluster where
  "crashedCluster = healedCluster\<lparr>clPods := crashedPod # clPods healedCluster\<rparr>"

theorem restart_pod_write_witness:
  "\<exists>w' tr. RestartPod stdMachinery (traceClient clusterClient) exampleEvent (crashedCluster, []) = (None, (w', tr)) \<and>
     writes tr = [EDeletePod crashedPod] \<and> RestartPod stdMachinery clusterClient exampleEvent crashedCluster = (None, w')"
proof -
  obtain w' tr where r: "RestartPod stdMachinery (traceClient clusterClient) exampleEvent (crashedCluster, []) = (None, (w', tr))"
    and "writes tr = [EDeletePod crashedPod]"
    by (simp add: RestartPod_def logged_def clusterClient_def clusterReader_def find_obj_def crashedCluster_def crashedPod_def
        exampleMeta_def exampleEvent_def)
  with restart_pod_write [OF r] show ?thesis by blast
qed

end
