(* ===== verification/Remediation.thy ===== *)
theory Remediation
  imports Attempts Actions
begin

text \<open>
  The service as the controller builds it (\<^verbatim>\<open>internal/controller/pod_controller.go\<close>, with the dependencies
  \<^verbatim>\<open>cmd/main.go\<close> gives the reconciler), and the properties of its attempts, read off the protocol of
  \<^verbatim>\<open>Attempts\<close>. \<open>Remediate (traceService s) ev (w, []) = Some (r, (w', tr))\<close> reads: the attempt on \<open>ev\<close>
  from world \<open>w\<close> made the calls \<open>tr\<close> on its dependencies, ended in \<open>r\<close> and left \<open>w'\<close>.
\<close>

section \<open>The service of the manager\<close>

definition managerService :: "Apimachinery \<Rightarrow> 'w Client \<Rightarrow> 'w Clock \<Rightarrow> 'w AuditWriter \<Rightarrow> AuditMetadata
    \<Rightarrow> 'w RemediationAction \<Rightarrow> 'w Service" where
  "managerService am c clock audit md action =
     \<lparr>svSnapshots = Some (KubeSnapshots am \<lparr>ssClient = Some c\<rparr>),
      svVerifier = Some (verifierSeam (NewVerifier am clock (clientReader c))),
      svAction = Some action, svAudit = Some audit, svClock = Some clock, svMetadata = md\<rparr>"

text \<open>The example services: a stdout audit log, the concrete cluster, each of the two actions.\<close>

definition stdoutAudit :: "cluster AuditWriter" where
  "stdoutAudit = JSONLWriter exampleMarshalTime (Some (NewJSONLAuditWriter (\<lambda>s w. (None, w))))"

definition exampleMetadata :: AuditMetadata where
  "exampleMetadata = \<lparr>Workload = ''W1'', ArmLabel = ''enabled''\<rparr>"

text \<open>
  A cluster in which only the crash-looping Pod runs, and whose ReplicaSet controller creates the
  replacement \<open>checkout-2\<close> when a Pod is deleted.
\<close>

definition replacingClient :: "cluster Client" where
  "replacingClient = clusterClient\<lparr>DeletePod := (\<lambda>p c. case DeletePod clusterClient p c of
     (e, c1) \<Rightarrow> (e, c1\<lparr>clPods := clPods healedCluster @ clPods c1\<rparr>))\<rparr>"

definition crashLoopCluster :: cluster where
  "crashLoopCluster = healedCluster\<lparr>clPods := [crashedPod]\<rparr>"

definition exampleService :: "cluster Client \<Rightarrow> cluster Service" where
  "exampleService c = managerService stdMachinery c clusterClock stdoutAudit exampleMetadata (RestartPodAction stdMachinery c)"

lemma restart_recovers:
  "(case Remediate (traceService (exampleService replacingClient)) exampleEvent (crashLoopCluster, []) of
      Some (Returns (Inr out), (w', tr)) \<Rightarrow> oResult out = OutcomeRecovered | _ \<Rightarrow> False)"
  by code_simp

lemma restart_rolls_back:
  "(case Remediate (traceService (exampleService clusterClient)) exampleEvent (crashLoopCluster, []) of
      Some (Returns (Inr out), (w', tr)) \<Rightarrow> oResult out = OutcomeRolledBack | _ \<Rightarrow> False)"
  by code_simp

lemma recovered_run:
  obtains out w' tr where
    "Remediate (traceService (exampleService replacingClient)) exampleEvent (crashLoopCluster, []) = Some (Returns (Inr out), (w', tr))"
    "oResult out = OutcomeRecovered"
  using restart_recovers by (auto split: option.splits prod.splits result.splits sum.splits)

lemma rolledBack_run:
  obtains out w' tr where
    "Remediate (traceService (exampleService clusterClient)) exampleEvent (crashLoopCluster, []) = Some (Returns (Inr out), (w', tr))"
    "oResult out = OutcomeRolledBack"
  using restart_rolls_back by (auto split: option.splits prod.splits result.splits sum.splits)

section \<open>Properties of attempts\<close>

text \<open>
  C3: the action runs at most once, and only behind its safety net. Whatever the dependencies answer and
  however the attempt ends, each execution of the action is on the attempt's own event, is the only one, and
  everything before it is exactly: the DETECTED entry appended, the Deployment's snapshot captured, the SNAPSHOTTED and
  REMEDIATING entries appended, the UIDs of the Deployment's Pods recorded, each of them successfully.
\<close>

theorem action_behind_snapshot:
  assumes "Remediate (traceService s) ev (w, []) = Some (r, (w', tr))" and "tr = pre @ CExecute e x # post"
  shows "e = ev \<and> (\<forall>c \<in> set (pre @ post). \<not> is_execute c) \<and>
    (\<exists>t1 t2 t3 snap uids. pre =
       [CNow t1, CAppend (auditEntry (svMetadata s) (actionName s) ev t1 StateDetected ''received'') None,
        CCapture (deploymentRefOf ev) (Inr snap),
        CNow t2, CAppend (auditEntry (svMetadata s) (actionName s) ev t2 StateSnapshotted ''captured'') None,
        CNow t3, CAppend (auditEntry (svMetadata s) (actionName s) ev t3 StateRemediating ''started'') None,
        CCaptureUIDs (verificationTargetOf ev None) (Inr uids)]) \<and>
    Remediate s ev w = Some (r, w')"
proof -
  have "Remediate s ev w = Some (r, w')"
    using Remediate_unlogged [of s ev w "[]"] assms(1) by (simp add: unlogged_def)
  with attempt_execute [OF Remediate_gives [OF assms(1)] assms(2)] show ?thesis by auto
qed

theorem action_behind_snapshot_witness:
  "\<exists>out w' tr pre x post. Remediate (traceService (exampleService replacingClient)) exampleEvent (crashLoopCluster, []) = Some (Returns (Inr out), (w', tr)) \<and>
     tr = pre @ CExecute exampleEvent x # post \<and> length pre = 8"
proof (rule recovered_run)
  fix out w' tr
  assume run: "Remediate (traceService (exampleService replacingClient)) exampleEvent (crashLoopCluster, []) = Some (Returns (Inr out), (w', tr))"
  from attempt_outcome [OF Remediate_gives [OF run]] have "CExecute exampleEvent (Returns None) \<in> set tr" by blast
  then obtain pre post where "tr = pre @ CExecute exampleEvent (Returns None) # post" by (auto dest: split_list)
  moreover from action_behind_snapshot [OF run this] have "length pre = 8" by force
  ultimately show ?thesis using run by blast
qed

text \<open>
  C6: a snapshot is restored only after a failed verification. Whatever the dependencies answer, a restore is
  of the very snapshot the attempt captured from the event's Deployment, comes after the action ran without error and after
  the verifier reported that the Deployment has not recovered; an attempt whose verification reported recovery restores nothing.
\<close>

theorem restore_after_failed_verification:
  assumes "Remediate (traceService s) ev (w, []) = Some (r, (w', tr))" and "CRestore snap x \<in> set tr"
  shows "\<exists>acted uids res rest. tr = acted @ CVerify (verificationTargetOf ev (Some uids)) (Inr res) # rest \<and>
     \<not> vrRecovered res \<and> CCapture (deploymentRefOf ev) (Inr snap) \<in> set acted \<and>
     CExecute ev (Returns None) \<in> set acted \<and> CRestore snap x \<in> set rest"
  using attempt_restore [OF Remediate_gives [OF assms(1)] assms(2)] .

theorem restore_after_failed_verification_witness:
  "\<exists>out w' tr snap uids res. Remediate (traceService (exampleService clusterClient)) exampleEvent (crashLoopCluster, []) = Some (Returns (Inr out), (w', tr)) \<and>
     CRestore snap None \<in> set tr \<and> CVerify (verificationTargetOf exampleEvent (Some uids)) (Inr res) \<in> set tr \<and> \<not> vrRecovered res"
proof (rule rolledBack_run)
  fix out w' tr
  assume run: "Remediate (traceService (exampleService clusterClient)) exampleEvent (crashLoopCluster, []) = Some (Returns (Inr out), (w', tr))"
    and "oResult out = OutcomeRolledBack"
  with attempt_outcome [OF Remediate_gives [OF run]] obtain snap where "CRestore snap None \<in> set tr" by blast
  moreover from restore_after_failed_verification [OF run this] obtain uids res where
    "CVerify (verificationTargetOf exampleEvent (Some uids)) (Inr res) \<in> set tr" "\<not> vrRecovered res" by force
  ultimately show ?thesis using run by blast
qed

text \<open>
  C20: what an outcome records. When an attempt returns an outcome, its audit entries are exactly the entries the
  audit log took, in order, all of the event's incident and attempt; their states are the full recovery path or the full
  rollback path; the outcome is recovered exactly when the verifier said so and rolled back exactly when the
  captured snapshot was restored; and the recovery time runs from the event's timestamp to the timestamp of the RECOVERED or
  ROLLED\_BACK entry.
\<close>

theorem outcome_records:
  assumes "Remediate (traceService s) ev (w, []) = Some (Returns (Inr out), (w', tr))"
  shows "oAuditEntries out = appended tr \<and>
    (\<forall>e \<in> set (appended tr). aeIncidentID e = evIncidentID ev \<and> aeAttemptNumber e = evAttemptNumber ev \<and> aeAction e = actionName s) \<and>
    map aeState (appended tr) = StateDetected # (if oResult out = OutcomeRecovered then recoveryPath else rollbackPath) \<and>
    (\<exists>e \<in> set (appended tr). aeState e = terminalState (oResult out) \<and> oMTTR out = time_Sub (aeTimestamp e) (evTimestamp ev)) \<and>
    (\<exists>snap uids res. CCapture (deploymentRefOf ev) (Inr snap) \<in> set tr \<and>
       CVerify (verificationTargetOf ev (Some uids)) (Inr res) \<in> set tr \<and>
       (vrRecovered res \<longleftrightarrow> oResult out = OutcomeRecovered) \<and>
       (CRestore snap None \<in> set tr \<longleftrightarrow> oResult out = OutcomeRolledBack))"
  using attempt_outcome [OF Remediate_gives [OF assms]] attempt_outcome_entries [OF Remediate_gives [OF assms]] by blast

theorem outcome_records_witness:
  "\<exists>out w' tr. Remediate (traceService (exampleService clusterClient)) exampleEvent (crashLoopCluster, []) = Some (Returns (Inr out), (w', tr)) \<and>
     oAuditEntries out = appended tr \<and> map aeState (oAuditEntries out) = StateDetected # rollbackPath"
proof (rule rolledBack_run)
  fix out w' tr
  assume run: "Remediate (traceService (exampleService clusterClient)) exampleEvent (crashLoopCluster, []) = Some (Returns (Inr out), (w', tr))"
    and "oResult out = OutcomeRolledBack"
  with outcome_records [OF run] show ?thesis by (intro exI conjI) auto
qed

text \<open>
  C21: the audit log never shows a lifecycle that is not one. However an attempt ends, errors, a panic and failed
  appends included, the states of the entries that reached the log are a prefix of DETECTED followed by the recovery
  path, or of DETECTED followed by the rollback path.
\<close>

theorem audited_lifecycle:
  assumes "Remediate (traceService s) ev (w, []) = Some (r, (w', tr))"
  shows "prefix (map aeState (appended tr)) (StateDetected # recoveryPath) \<or>
         prefix (map aeState (appended tr)) (StateDetected # rollbackPath)"
  using attempt_states [OF Remediate_gives [OF assms]] .

theorem audited_lifecycle_witness:
  "\<exists>out w' tr. Remediate (traceService (exampleService replacingClient)) exampleEvent (crashLoopCluster, []) = Some (Returns (Inr out), (w', tr)) \<and>
     (prefix (map aeState (appended tr)) (StateDetected # recoveryPath) \<or> prefix (map aeState (appended tr)) (StateDetected # rollbackPath))"
proof (rule recovered_run)
  fix out w' tr
  assume run: "Remediate (traceService (exampleService replacingClient)) exampleEvent (crashLoopCluster, []) = Some (Returns (Inr out), (w', tr))"
  with audited_lifecycle [OF run] show ?thesis by (intro exI conjI)
qed

text \<open>
  C39: a verification error leaves the action in place. When the verifier itself fails, for instance because the API server does
  not answer it, the attempt ends with that error: the action had run without error, and nothing is restored.
\<close>

theorem verification_error_keeps_action:
  assumes "Remediate (traceService s) ev (w, []) = Some (r, (w', tr))" and "CVerify t (Inl err) \<in> set tr"
  shows "CExecute ev (Returns None) \<in> set tr \<and> (\<forall>c \<in> set tr. \<not> is_restore c) \<and> r = Returns (Inl (Wrapf ''verify remediation: '' err []))"
  using attempt_verify_error [OF Remediate_gives [OF assms(1)] assms(2)] .

text \<open>The Deployment disappears from the cluster together with the deleted Pod, so that it cannot be resolved.\<close>

definition vanishingClient :: "cluster Client" where
  "vanishingClient = clusterClient\<lparr>DeletePod := (\<lambda>p c. (None, c\<lparr>clPods := [], clDeployments := []\<rparr>))\<rparr>"

fun verify_failed :: "call \<Rightarrow> bool" where
  "verify_failed (CVerify t (Inl err)) = True"
| "verify_failed _ = False"

lemma verify_failedE: "verify_failed c \<Longrightarrow> \<exists>t err. c = CVerify t (Inl err)"
  by (cases c rule: verify_failed.cases) auto

lemma vanishing_verify_error:
  "(case Remediate (traceService (exampleService vanishingClient)) exampleEvent (crashLoopCluster, []) of
      Some (r, (w', tr)) \<Rightarrow> list_ex verify_failed tr | _ \<Rightarrow> False)"
  by code_simp

theorem verification_error_keeps_action_witness:
  "\<exists>err w' tr. Remediate (traceService (exampleService vanishingClient)) exampleEvent (crashLoopCluster, [])
       = Some (Returns (Inl (Wrapf ''verify remediation: '' err [])), (w', tr)) \<and>
     CExecute exampleEvent (Returns None) \<in> set tr \<and> filter is_restore tr = []"
proof -
  obtain r w' tr t err where run: "Remediate (traceService (exampleService vanishingClient)) exampleEvent (crashLoopCluster, []) = Some (r, (w', tr))"
    and v: "CVerify t (Inl err) \<in> set tr"
    using vanishing_verify_error by (fastforce simp: list_ex_iff dest: verify_failedE split: option.splits prod.splits)
  note keeps = verification_error_keeps_action [OF run v]
  then have "filter is_restore tr = []" by (simp add: filter_empty_conv)
  with keeps run show ?thesis by blast
qed

end
