(* ===== verification/LedgerCalls.thy ===== *)
theory LedgerCalls
  imports Controller Concurrency Remediation
begin

text \<open>
  The reconciler refines the threads of \<^verbatim>\<open>Concurrency\<close>. A run of \<^verbatim>\<open>Reconcile\<close> and of the goroutine it started is
  recorded as the list of its ledger calls with their answers; whatever the dependencies and the ledger answer, the list is a \<open>script\<close>, the
  sequence of calls of one thread of the step relation. Any interleaving of any number of such runs on one ledger is then an
  execution of the step relation, so every invariant shown there is one of the program.
\<close>

section \<open>Calls and scripts\<close>

datatype lcall =
    LBegin string int time incidentRecord admission
  | LPanic string int time
  | LEvidence string string "string list" bool
  | LFreeze string string "string list"
  | LRecord string int
  | LEnd string string time
  | LClosed string "incidentClosure option"

text \<open>The calls that take a thread from one phase to another. Reading a closure changes nothing and may come at any time.\<close>

inductive script :: "phase \<Rightarrow> lcall list \<Rightarrow> phase \<Rightarrow> bool" where
  script_done: "script p [] p"
| script_closed: "script p cs p' \<Longrightarrow> script p (LClosed key x # cs) p'"
| script_admitted: "script (Claimed key (irId r) now) cs p' \<Longrightarrow> script Idle (LBegin key g now r admitProceed # cs) p'"
| script_refused: "d \<noteq> admitProceed \<Longrightarrow> script Idle cs p' \<Longrightarrow> script Idle (LBegin key g now r d # cs) p'"
| script_panicked: "script Idle [LPanic key g now] Idle"
| script_evidence: "script (if frozen then Ready key i c else Collecting key i c) cs p' \<Longrightarrow>
    script (Claimed key i c) (LEvidence key logs events frozen # cs) p'"
| script_freeze: "script (Ready key i c) cs p' \<Longrightarrow> script (Collecting key i c) (LFreeze key logs events # cs) p'"
| script_claimed_end: "outcome \<in> {outcomeEscalated, outcomeRejected} \<Longrightarrow> script Idle cs p' \<Longrightarrow> script (Claimed key i c) (LEnd key outcome now # cs) p'"
| script_ready_end: "outcome \<in> {outcomeEscalated, outcomeRejected} \<Longrightarrow> script Idle cs p' \<Longrightarrow> script (Ready key i c) (LEnd key outcome now # cs) p'"
| script_record: "script (Running key i n) cs p' \<Longrightarrow> script (Ready key i c) (LRecord key n # cs) p'"
| script_finish: "outcome \<in> attemptOutcomes \<Longrightarrow> script Idle cs p' \<Longrightarrow> script (Running key i n) (LEnd key outcome now # cs) p'"

text \<open>No thread makes another call after it panicked, so a script goes on after one that did not.\<close>

lemma script_append:
  assumes "script p cs p'" and "script p' ds p''" and "p' \<noteq> Idle \<or> ds = []"
  shows "script p (cs @ ds) p''"
  using assms by (induction p cs p' rule: script.induct) (auto intro: script.intros elim: script.cases)

section \<open>Recording the calls\<close>

text \<open>The other dependencies in a world that carries the recorded list along.\<close>

definition beside :: "('w \<Rightarrow> 'a \<times> 'w) \<Rightarrow> 'w \<times> 't \<Rightarrow> 'a \<times> 'w \<times> 't" where
  "beside f s = (case f (fst s) of (a, w') \<Rightarrow> (a, w', snd s))"

definition noted :: "('a \<Rightarrow> lcall) \<Rightarrow> ('w \<Rightarrow> 'a \<times> 'w) \<Rightarrow> 'w \<times> lcall list \<Rightarrow> 'a \<times> 'w \<times> lcall list" where
  "noted mk f s = (case f (fst s) of (a, w') \<Rightarrow> (a, w', snd s @ [mk a]))"

lemma beside_keeps [simp]: "snd (snd (beside f s)) = snd s"
  by (simp add: beside_def split_beta)

lemma noted_adds [simp]: "snd (snd (noted mk f s)) = snd s @ [mk (fst (noted mk f s))]"
  by (simp add: noted_def split_beta)

definition besideReader :: "'w Reader \<Rightarrow> ('w \<times> 't) Reader" where
  "besideReader r = \<lparr>GetPod = (\<lambda>nn. beside (GetPod r nn)), GetDeployment = (\<lambda>nn. beside (GetDeployment r nn)),
     GetReplicaSet = (\<lambda>nn. beside (GetReplicaSet r nn)), ListReplicaSets = (\<lambda>ns sel. beside (ListReplicaSets r ns sel)),
     ListPods = (\<lambda>ns sel. beside (ListPods r ns sel))\<rparr>"

definition besideCollector :: "'w EvidenceCollector \<Rightarrow> ('w \<times> 't) EvidenceCollector" where
  "besideCollector c = \<lparr>ecLogs = map_option (\<lambda>l. \<lparr>Tail = (\<lambda>ns p cn prev n. beside (Tail l ns p cn prev n))\<rparr>) (ecLogs c),
     ecEvents = map_option (\<lambda>l. \<lparr>ListFor = (\<lambda>ns n. beside (ListFor l ns n))\<rparr>) (ecEvents c), ecNow = map_option beside (ecNow c)\<rparr>"

definition besideAction :: "'w RemediationAction \<Rightarrow> ('w \<times> 't) RemediationAction" where
  "besideAction a = \<lparr>raName = raName a, raExecute = (\<lambda>ev. beside (raExecute a ev))\<rparr>"

definition besideSnapshots :: "'w SnapshotStore \<Rightarrow> ('w \<times> 't) SnapshotStore" where
  "besideSnapshots s = \<lparr>Capture = (\<lambda>ref. beside (Capture s ref)), Restore = (\<lambda>snap. beside (Restore s snap))\<rparr>"

definition besideVerifier :: "'w PodVerifier \<Rightarrow> ('w \<times> 't) PodVerifier" where
  "besideVerifier v = \<lparr>pvCapturePreActionPodUIDs = (\<lambda>t. beside (pvCapturePreActionPodUIDs v t)),
     pvVerify = (\<lambda>t s. map_option (\<lambda>(res, w'). (res, w', snd s)) (pvVerify v t (fst s)))\<rparr>"

definition besideAudit :: "'w AuditWriter \<Rightarrow> ('w \<times> 't) AuditWriter" where
  "besideAudit a = \<lparr>Append = (\<lambda>e. beside (Append a e))\<rparr>"

definition besideClock :: "'w Clock \<Rightarrow> ('w \<times> 't) Clock" where
  "besideClock c = \<lparr>clkNow = beside (clkNow c), clkAfter = (\<lambda>d. beside (clkAfter c d))\<rparr>"

fun beginCall :: "string \<Rightarrow> int \<Rightarrow> time \<Rightarrow> (incidentRecord \<times> admission) result \<Rightarrow> lcall" where
  "beginCall key g now (Returns (r, d)) = LBegin key g now r d"
| "beginCall key g now Panics = LPanic key g now"

definition traceLedger :: "'w Ledger \<Rightarrow> ('w \<times> lcall list) Ledger" where
  "traceLedger l =
     \<lparr>lgBeginAttempt = (\<lambda>key g now. noted (beginCall key g now) (lgBeginAttempt l key g now)),
      lgRecordAttempt = (\<lambda>key. noted (LRecord key) (lgRecordAttempt l key)),
      lgEndAttempt = (\<lambda>key outcome now. noted (\<lambda>_. LEnd key outcome now) (lgEndAttempt l key outcome now)),
      lgIncidentEvidence = (\<lambda>key. noted (\<lambda>(logs, events, frozen). LEvidence key logs events frozen) (lgIncidentEvidence l key)),
      lgFreezeEvidence = (\<lambda>key logs events. noted (\<lambda>_. LFreeze key logs events) (lgFreezeEvidence l key logs events)),
      lgClosedIncident = (\<lambda>key. noted (LClosed key) (lgClosedIncident l key))\<rparr>"

definition traceReconciler :: "'w PodReconciler \<Rightarrow> ('w \<times> lcall list) PodReconciler" where
  "traceReconciler r =
     \<lparr>rcReader = besideReader (rcReader r), rcMachinery = rcMachinery r,
      rcClassifier = map_option (\<lambda>c input. beside (c input)) (rcClassifier r),
      rcActions = (\<lambda>n. map_option besideAction (rcActions r n)), rcEvidence = map_option besideCollector (rcEvidence r),
      rcSnapshots = map_option besideSnapshots (rcSnapshots r), rcVerifier = map_option besideVerifier (rcVerifier r),
      rcAudit = map_option besideAudit (rcAudit r), rcClock = map_option besideClock (rcClock r),
      rcAuditMetadata = rcAuditMetadata r, rcLedger = traceLedger (rcLedger r), rcTimeNow = beside (rcTimeNow r)\<rparr>"

section \<open>Attempts leave the list alone\<close>

text \<open>\<open>leaves calls w m\<close>: if the run \<open>m\<close> ends, the list is that of \<open>w\<close>. It goes through the constructs of \<^verbatim>\<open>Remediate\<close>.\<close>

definition leaves :: "('w \<Rightarrow> 'c) \<Rightarrow> 'c \<Rightarrow> ('a, 'w) run \<Rightarrow> bool" where
  "leaves calls c m \<longleftrightarrow> (\<forall>res w'. m = Some (res, w') \<longrightarrow> calls w' = c)"

named_theorems leaves_intros

lemma leaves_andThen [leaves_intros]:
  "leaves calls c m \<Longrightarrow> (\<And>x w. calls w = c \<Longrightarrow> leaves calls c (k x w)) \<Longrightarrow> leaves calls c (andThen m k)"
  unfolding leaves_def by (auto simp: andThen_Some)

lemma leaves_return [leaves_intros]: "calls w = c \<Longrightarrow> leaves calls c (Some (x, w))"
  by (simp add: leaves_def)

lemma leaves_lift [leaves_intros]: "(\<And>x w'. m = (x, w') \<Longrightarrow> calls w' = c) \<Longrightarrow> leaves calls c (lift m)"
  by (cases m) (simp add: leaves_def lift_def)

lemma leaves_liftErr [leaves_intros]: "(\<And>x w'. m = (x, w') \<Longrightarrow> calls w' = c) \<Longrightarrow> leaves calls c (liftErr m)"
  by (cases m) (simp add: leaves_def liftErr_def)

lemma leaves_liftExec [leaves_intros]: "(\<And>x w'. m = (x, w') \<Longrightarrow> calls w' = c) \<Longrightarrow> leaves calls c (liftExec m)"
  by (cases m) (auto simp: leaves_def liftExec_def liftErr_def split: result.splits)

lemma leaves_wrapErr [leaves_intros]: "leaves calls c m \<Longrightarrow> leaves calls c (wrapErr pre m)"
  unfolding leaves_def wrapErr_def by (auto split: option.splits prod.splits result.splits sum.splits)

lemma leaves_bind_lift [leaves_intros]: "(\<And>x w'. m = Some (x, w') \<Longrightarrow> calls w' = c) \<Longrightarrow> leaves calls c (Option.bind m lift)"
  by (cases m) (auto simp: leaves_def lift_def)

lemma recordEntry_leaves:
  assumes "calls w = c" and "\<And>w n w'. clkNow clock w = (n, w') \<Longrightarrow> calls w' = calls w"
    and "\<And>e w x w'. Append audit e w = (x, w') \<Longrightarrow> calls w' = calls w"
  shows "leaves calls c (recordEntry md clock audit action event st state res w)"
proof -
  obtain t w1 where t: "clkNow clock w = (t, w1)" by fastforce
  show ?thesis
    unfolding recordEntry_def t prod.case Let_def by (intro leaves_intros) (use assms t in auto)
qed

lemma transition_leaves:
  assumes "calls w = c" and "\<And>w n w'. clkNow clock w = (n, w') \<Longrightarrow> calls w' = calls w"
    and "\<And>e w x w'. Append audit e w = (x, w') \<Longrightarrow> calls w' = calls w"
  shows "leaves calls c (transition md clock audit action event st next res w)"
  unfolding transition_def using assms
  by (auto split: prod.splits option.splits intro: leaves_return recordEntry_leaves)

lemma Remediate_leaves:
  assumes clock: "\<And>clk w n w'. svClock s = Some clk \<Longrightarrow> clkNow clk w = (n, w') \<Longrightarrow> calls w' = calls w"
    and audit: "\<And>aw e w x w'. svAudit s = Some aw \<Longrightarrow> Append aw e w = (x, w') \<Longrightarrow> calls w' = calls w"
    and capture: "\<And>ss ref w x w'. svSnapshots s = Some ss \<Longrightarrow> Capture ss ref w = (x, w') \<Longrightarrow> calls w' = calls w"
    and restore: "\<And>ss snap w x w'. svSnapshots s = Some ss \<Longrightarrow> Restore ss snap w = (x, w') \<Longrightarrow> calls w' = calls w"
    and uids: "\<And>v t w x w'. svVerifier s = Some v \<Longrightarrow> pvCapturePreActionPodUIDs v t w = (x, w') \<Longrightarrow> calls w' = calls w"
    and verify: "\<And>v t w x w'. svVerifier s = Some v \<Longrightarrow> pvVerify v t w = Some (x, w') \<Longrightarrow> calls w' = calls w"
    and execute: "\<And>a ev w x w'. svAction s = Some a \<Longrightarrow> raExecute a ev w = (x, w') \<Longrightarrow> calls w' = calls w"
  shows "leaves calls (calls w) (Remediate s event w)"
proof -
  have "leaves calls (calls w) (runAttempt (svMetadata s) ss v a aw clk event w)"
    if d: "svSnapshots s = Some ss" "svVerifier s = Some v" "svAction s = Some a" "svAudit s = Some aw" "svClock s = Some clk" for ss v a aw clk
  proof -
    note laws = clock [OF d(5)] audit [OF d(4)] capture [OF d(1)] restore [OF d(1)] uids [OF d(2)] verify [OF d(2)] execute [OF d(3)]
    note steps = leaves_intros recordEntry_leaves [OF _ clock [OF d(5)] audit [OF d(4)]] transition_leaves [OF _ clock [OF d(5)] audit [OF d(4)]]
    have "leaves calls c (prepareAttempt (svMetadata s) ss v aw clk (raName a) event w)" if "calls w = c" for w c
      unfolding prepareAttempt_def Let_def using laws that by (auto intro!: steps)
    moreover have "leaves calls c (actAndVerify (svMetadata s) v a aw clk event u st w)" if "calls w = c" for u st w c
      unfolding actAndVerify_def using laws that by (auto intro!: steps)
    moreover have "leaves calls c (concludeAttempt (svMetadata s) clk aw ss (raName a) event snap res st w)" if "calls w = c" for snap res st w c
      unfolding concludeAttempt_def Let_def by (cases "vrRecovered res") (use laws that in \<open>auto intro!: steps\<close>)
    ultimately show ?thesis unfolding runAttempt_def by (auto intro!: leaves_andThen)
  qed
  then show ?thesis unfolding Remediate_def
    by (auto intro: leaves_return split: option.splits)
qed

section \<open>Runs of the reconciler\<close>

text \<open>
  What recording relies on: every dependency but the ledger leaves the recorded list alone, and each ledger call adds itself.
\<close>

locale observed_reconciler =
  fixes calls :: "'w \<Rightarrow> lcall list" and r :: "'w PodReconciler"
  assumes pod: "GetPod (rcReader r) nn w = (xp, w') \<Longrightarrow> calls w' = calls w"
    and deployment: "GetDeployment (rcReader r) nn w = (xd, w') \<Longrightarrow> calls w' = calls w"
    and replicaSet: "GetReplicaSet (rcReader r) nn w = (xr, w') \<Longrightarrow> calls w' = calls w"
    and timeNow: "rcTimeNow r w = (now, w') \<Longrightarrow> calls w' = calls w"
    and classify: "rcClassifier r = Some c \<Longrightarrow> c input w = (xc, w') \<Longrightarrow> calls w' = calls w"
    and tail: "rcEvidence r = Some e \<Longrightarrow> ecLogs e = Some l \<Longrightarrow> Tail l ns p cn prev n w = (xl, w') \<Longrightarrow> calls w' = calls w"
    and listFor: "rcEvidence r = Some e \<Longrightarrow> ecEvents e = Some l' \<Longrightarrow> ListFor l' ns p w = (xe, w') \<Longrightarrow> calls w' = calls w"
    and eventNow: "rcEvidence r = Some e \<Longrightarrow> ecNow e = Some enow \<Longrightarrow> enow w = (now, w') \<Longrightarrow> calls w' = calls w"
    and execute: "rcActions r a = Some action \<Longrightarrow> raExecute action ev w = (xa, w') \<Longrightarrow> calls w' = calls w"
    and capture: "rcSnapshots r = Some ss \<Longrightarrow> Capture ss ref w = (xs, w') \<Longrightarrow> calls w' = calls w"
    and restore: "rcSnapshots r = Some ss \<Longrightarrow> Restore ss snap w = (err, w') \<Longrightarrow> calls w' = calls w"
    and uids: "rcVerifier r = Some v \<Longrightarrow> pvCapturePreActionPodUIDs v t w = (xu, w') \<Longrightarrow> calls w' = calls w"
    and verify: "rcVerifier r = Some v \<Longrightarrow> pvVerify v t w = Some (res, w') \<Longrightarrow> calls w' = calls w"
    and append: "rcAudit r = Some aw \<Longrightarrow> Append aw entry w = (err, w') \<Longrightarrow> calls w' = calls w"
    and clockNow: "rcClock r = Some clk \<Longrightarrow> clkNow clk w = (now, w') \<Longrightarrow> calls w' = calls w"
    and begin_call: "lgBeginAttempt (rcLedger r) key g time w = (x, w') \<Longrightarrow> calls w' = calls w @ [beginCall key g time x]"
    and record_call: "lgRecordAttempt (rcLedger r) key w = (k, w') \<Longrightarrow> calls w' = calls w @ [LRecord key k]"
    and end_call: "lgEndAttempt (rcLedger r) key outcome time w = (u, w') \<Longrightarrow> calls w' = calls w @ [LEnd key outcome time]"
    and evidence_call: "lgIncidentEvidence (rcLedger r) key w = ((logs, events, frozen), w') \<Longrightarrow> calls w' = calls w @ [LEvidence key logs events frozen]"
    and freeze_call: "lgFreezeEvidence (rcLedger r) key logs events w = (u, w') \<Longrightarrow> calls w' = calls w @ [LFreeze key logs events]"
    and closed_call: "lgClosedIncident (rcLedger r) key w = (cl, w') \<Longrightarrow> calls w' = calls w @ [LClosed key cl]"
begin

lemma owner_calls: "ownerOfRefs (rcReader r) ns refs w = (x, w') \<Longrightarrow> calls w' = calls w"
  by (induction refs arbitrary: w) (auto split: if_splits prod.splits sum.splits option.splits dest!: replicaSet)

lemma generation_calls: "deploymentGeneration (rcReader r) ns n w = (x, w') \<Longrightarrow> calls w' = calls w"
  by (auto simp: deploymentGeneration_def split: prod.splits sum.splits dest: deployment)

lemma collectLogs_calls:
  assumes e: "rcEvidence r = Some e" and run: "collectLogs e pd cn w = (x, w')"
  shows "calls w' = calls w"
  using run by (auto simp: collectLogs_def Let_def split: option.splits prod.splits sum.splits if_splits) (metis tail [OF e])+

lemma collectNames_calls:
  assumes e: "rcEvidence r = Some e" "ecEvents e = Some l"
  shows "collectNames l ns t names st w = (x, w') \<Longrightarrow> calls w' = calls w"
  by (induction names arbitrary: st w) (auto split: prod.splits sum.splits dest!: listFor [OF e])

lemma collectEvents_calls:
  assumes e: "rcEvidence r = Some e" and run: "collectEvents (rcTimeNow r) e pd owner w = (x, w')"
  shows "calls w' = calls w"
  using run
  by (auto simp: collectEvents_def Collector_now_def split: option.splits prod.splits) (metis timeNow eventNow [OF e] collectNames_calls [OF e])+

lemma Collect_calls: "Collect (rcTimeNow r) (rcEvidence r) (Some pd) cn owner w = (x, w') \<Longrightarrow> calls w' = calls w"
  by (auto simp: Collect_def split: option.splits prod.splits) (metis collectLogs_calls collectEvents_calls)

lemma closed_calls: "\<exists>x. calls (closeIncidentIfTerminal r key podRef w) = calls w @ [LClosed key x]"
  by (auto simp: closeIncidentIfTerminal_def auditIncidentClosed_def split: prod.splits option.splits dest!: closed_call timeNow)
    (metis append prod.collapse)

lemma release_calls: "\<exists>now x. calls (release r key podRef outcome w) = calls w @ [LEnd key outcome now, LClosed key x]"
proof -
  obtain now w1 where n: "rcTimeNow r w = (now, w1)" by fastforce
  obtain w2 where e: "lgEndAttempt (rcLedger r) key outcome now w1 = ((), w2)" by (metis surj_pair unit.exhaust)
  show ?thesis using closed_calls [of key podRef w2] timeNow [OF n] end_call [OF e] by (auto simp: release_def n e)
qed

lemma gather_calls:
  assumes "gatherEvidence r key pd event w = (x, w')"
  shows "\<exists>cs. calls w' = calls w @ cs \<and> script (Claimed key i c) cs (Ready key i c)"
proof -
  obtain logs events frozen w1 where g: "lgIncidentEvidence (rcLedger r) key w = ((logs, events, frozen), w1)" by (metis prod_cases3 surj_pair)
  note g1 = evidence_call [OF g]
  show ?thesis
  proof (cases frozen)
    case True
    with assms g1 have "calls w' = calls w @ [LEvidence key logs events True]" by (simp add: gatherEvidence_def g)
    moreover have "script (Claimed key i c) [LEvidence key logs events True] (Ready key i c)" by (rule script_evidence) (simp add: script_done)
    ultimately show ?thesis by blast
  next
    case False
    obtain logs' events' w2 where c: "Collect (rcTimeNow r) (rcEvidence r) (Some pd) (evContainerName event) (evOwnerDeployment event) w1 = ((logs', events'), w2)"
      by (metis surj_pair)
    obtain w3 where f: "lgFreezeEvidence (rcLedger r) key logs' events' w2 = ((), w3)" by (metis surj_pair unit.exhaust)
    have "calls w' = calls w @ [LEvidence key logs events False, LFreeze key logs' events']"
      using assms False g1 Collect_calls [OF c] freeze_call [OF f] by (simp add: gatherEvidence_def g c f)
    moreover have "script (Claimed key i c') [LEvidence key logs events False, LFreeze key logs' events'] (Ready key i c')" for c'
      by (rule script_evidence) (simp add: script_done script_freeze)
    ultimately show ?thesis by blast
  qed
qed

lemma give_up_script:
  assumes "outcome \<in> {outcomeEscalated, outcomeRejected}" and "p = Claimed key i c \<or> p = Ready key i c"
  shows "\<exists>cs. calls (release r key podRef outcome w) = calls w @ cs \<and> script p cs Idle"
proof -
  obtain now x where "calls (release r key podRef outcome w) = calls w @ [LEnd key outcome now, LClosed key x]" using release_calls by blast
  moreover have "script p [LEnd key outcome now, LClosed key x] Idle"
    using assms by (auto intro!: script_claimed_end script_ready_end script_closed script_done)
  ultimately show ?thesis by blast
qed

text \<open>Where a thread is when its reconcile returned: it runs the dispatched attempt, or it is idle.\<close>

lemma act_script:
  assumes "actOnProposal r key podRef event proposal w = (d, w')"
  shows "\<exists>cs p. calls w' = calls w @ cs \<and> script (Ready key i c) cs p \<and>
    (case d of None \<Rightarrow> p = Idle | Some ds \<Rightarrow> dsKey ds = key \<and> p = Running key i (evAttemptNumber (dsEvent ds)) \<and>
       (\<exists>n action. rcActions r n = Some action \<and> dsService ds = serviceFor r action))"
proof (cases "rcActions r (prRecommendedAction proposal)")
  case None
  then have "\<exists>outcome \<in> {outcomeEscalated, outcomeRejected}. w' = release r key podRef outcome w \<and> d = None"
    using assms by (auto simp: actOnProposal_def split: if_splits)
  then show ?thesis using give_up_script [of _ "Ready key i c" key i c podRef w] by fastforce
next
  case (Some action)
  obtain n w1 where n: "lgRecordAttempt (rcLedger r) key w = (n, w1)" by fastforce
  show ?thesis
  proof (cases "prSafeForAutomation proposal")
    case True
    then have "w' = w1" "d = Some \<lparr>dsService = serviceFor r action, dsEvent = event\<lparr>evAttemptNumber := n\<rparr>, dsKey = key, dsPodRef = podRef\<rparr>"
      using assms Some n by (simp_all add: actOnProposal_def ShouldEscalate_def)
    moreover have "script (Ready key i c) [LRecord key n] (Running key i n)" by (simp add: script_record script_done)
    ultimately show ?thesis using record_call [OF n] Some by fastforce
  next
    case False
    then have "w' = release r key podRef outcomeEscalated w" "d = None" using assms by (simp_all add: actOnProposal_def ShouldEscalate_def)
    then show ?thesis using give_up_script [of outcomeEscalated "Ready key i c" key i c podRef w] by fastforce
  qed
qed

lemma pursue_script:
  assumes "pursue r key podRef pd event w = (d, w')"
  shows "\<exists>cs p. calls w' = calls w @ cs \<and> script (Claimed key i c) cs p \<and>
    (case d of None \<Rightarrow> p = Idle | Some ds \<Rightarrow> dsKey ds = key \<and> p = Running key i (evAttemptNumber (dsEvent ds)) \<and>
       (\<exists>n action. rcActions r n = Some action \<and> dsService ds = serviceFor r action))"
proof (cases "rcClassifier r")
  case None
  with assms have "w' = release r key podRef outcomeEscalated w" "d = None" by (simp_all add: pursue_def)
  then show ?thesis using give_up_script [of outcomeEscalated "Claimed key i c" key i c podRef w] by fastforce
next
  case (Some classifyIncident)
  obtain logs events w1 where g: "gatherEvidence r key pd event w = ((logs, events), w1)" by (metis surj_pair)
  obtain cl w2 where cl: "classifyIncident (incidentInputOf event logs events) w1 = (cl, w2)" by fastforce
  have a: "actOnProposal r key podRef event (coProposal cl) w2 = (d, w')" using assms Some by (simp add: pursue_def g cl)
  obtain cs1 where 1: "calls w1 = calls w @ cs1" "script (Claimed key i c) cs1 (Ready key i c)" using gather_calls [OF g] by blast
  obtain cs2 p where 2: "calls w' = calls w2 @ cs2" "script (Ready key i c) cs2 p"
    "case d of None \<Rightarrow> p = Idle | Some ds \<Rightarrow> dsKey ds = key \<and> p = Running key i (evAttemptNumber (dsEvent ds)) \<and>
       (\<exists>n action. rcActions r n = Some action \<and> dsService ds = serviceFor r action)"
    using act_script [OF a] by blast
  have "calls w' = calls w @ cs1 @ cs2" using 1(1) 2(1) classify [OF Some cl] by simp
  moreover have "script (Claimed key i c) (cs1 @ cs2) p" by (rule script_append [OF 1(2) 2(2)]) simp
  ultimately show ?thesis using 2(3) by blast
qed

lemma handleCrash_script:
  assumes "handleCrash r pd cs w = (res, w')"
  shows "\<exists>tr p. calls w' = calls w @ tr \<and> script Idle tr p \<and>
    (case res of Returns (Some ds) \<Rightarrow> (\<exists>i. p = Running (dsKey ds) i (evAttemptNumber (dsEvent ds))) \<and>
       (\<exists>n action. rcActions r n = Some action \<and> dsService ds = serviceFor r action) | _ \<Rightarrow> p = Idle)"
proof -
  obtain owner w1 where o: "ownerDeploymentName (rcReader r) pd w = (owner, w1)" by fastforce
  obtain t w2 where t: "rcTimeNow r w1 = (t, w2)" by fastforce
  define ev where "ev = \<lparr>evPodName = Name (podMeta pd), evNamespace = Namespace (podMeta pd), evContainerName = csName cs,
    evRestartCount = csRestartCount cs, evOwnerDeployment = (case owner of Inl err \<Rightarrow> [] | Inr name \<Rightarrow> name), evTimestamp = t,
    evIncidentID = [], evAttemptNumber = 0\<rparr>"
  have c2: "calls w2 = calls w" using owner_calls o timeNow [OF t] by (auto simp: ownerDeploymentName_def)
  note hc = assms [unfolded handleCrash_def o t prod.case Let_def, folded ev_def]
  show ?thesis
  proof (cases "evOwnerDeployment ev = []")
    case True
    then show ?thesis using hc c2 script_done by fastforce
  next
    case False
    obtain g genErr w3 where g: "deploymentGeneration (rcReader r) (evNamespace ev) (evOwnerDeployment ev) w2 = ((g, genErr), w3)" by (metis surj_pair)
    obtain t' w4 where t': "rcTimeNow r w3 = (t', w4)" by fastforce
    define key where "key = incidentKey (evNamespace ev) (evOwnerDeployment ev)"
    define podRef where "podRef = evNamespace ev @ ''/'' @ evPodName ev"
    obtain b w5 where b: "lgBeginAttempt (rcLedger r) key g t' w4 = (b, w5)" by fastforce
    have c5: "calls w5 = calls w @ [beginCall key g t' b]" using begin_call [OF b] timeNow [OF t'] generation_calls [OF g] c2 by simp
    note hc' = hc [unfolded g t' prod.case if_not_P [OF False], folded key_def podRef_def, unfolded b prod.case]
    show ?thesis
    proof (cases b)
      case Panics
      then have "w' = w5" "res = Panics" using hc' by simp_all
      then show ?thesis using c5 Panics script_panicked by fastforce
    next
      case (Returns rd)
      obtain rec d where rd: "rd = (rec, d)" by fastforce
      note begun = c5 [unfolded Returns rd beginCall.simps]
      show ?thesis
      proof (cases "d = admitProceed")
        case True
        then obtain dsp where p: "pursue r key podRef pd (ev\<lparr>evIncidentID := irId rec\<rparr>) w5 = (dsp, w')" and res: "res = Returns dsp"
          using hc' Returns rd by (auto split: prod.splits)
        obtain tr q where tr: "calls w' = calls w5 @ tr" "script (Claimed key (irId rec) t') tr q"
          "case dsp of None \<Rightarrow> q = Idle | Some ds \<Rightarrow> dsKey ds = key \<and> q = Running key (irId rec) (evAttemptNumber (dsEvent ds)) \<and>
             (\<exists>n action. rcActions r n = Some action \<and> dsService ds = serviceFor r action)"
          using pursue_script [OF p] by blast
        have "script Idle (LBegin key g t' rec d # tr) q" using True tr(2) by (simp add: script_admitted)
        moreover have "calls w' = calls w @ LBegin key g t' rec d # tr" using tr(1) begun by simp
        ultimately show ?thesis using tr(3) res by (cases dsp) fastforce+
      next
        case False
        then have "res = Returns None" "w' = w5 \<or> w' = closeIncidentIfTerminal r key podRef w5"
          using hc' Returns rd by (auto split: if_splits)
        moreover have "\<exists>x. calls (closeIncidentIfTerminal r key podRef w5) = calls w @ [LBegin key g t' rec d, LClosed key x]"
          using closed_calls [of key podRef w5] begun by auto
        moreover have "script Idle [LBegin key g t' rec d] Idle" "script Idle [LBegin key g t' rec d, LClosed key x] Idle" for x
          using False by (auto intro: script_refused script_closed script_done)
        ultimately show ?thesis using begun by fastforce
      qed
    qed
  qed
qed

lemma statuses_script:
  "reconcileStatuses r pd css w = (res, w') \<Longrightarrow> \<exists>tr p. calls w' = calls w @ tr \<and> script Idle tr p \<and>
    (case res of Returns (Some ds) \<Rightarrow> (\<exists>i. p = Running (dsKey ds) i (evAttemptNumber (dsEvent ds))) \<and>
       (\<exists>n action. rcActions r n = Some action \<and> dsService ds = serviceFor r action) | _ \<Rightarrow> p = Idle)"
proof (induction css)
  case Nil
  then show ?case using script_done by fastforce
next
  case (Cons cs css)
  then show ?case using handleCrash_script [of pd cs w res w'] by (simp split: if_splits)
qed

lemma Reconcile_script:
  assumes "Reconcile r req w = (res, w')"
  shows "\<exists>tr p. calls w' = calls w @ tr \<and> script Idle tr p \<and>
    (case res of Returns (err, Some ds) \<Rightarrow> (\<exists>i. p = Running (dsKey ds) i (evAttemptNumber (dsEvent ds))) \<and>
       (\<exists>n action. rcActions r n = Some action \<and> dsService ds = serviceFor r action) | _ \<Rightarrow> p = Idle)"
proof (cases "nnNamespace req \<in> excludedNamespaces")
  case True
  then show ?thesis using assms script_done by (fastforce simp: Reconcile_def)
next
  case False
  obtain x w1 where g: "GetPod (rcReader r) req w = (x, w1)" by fastforce
  show ?thesis
  proof (cases x)
    case (Inl err)
    then show ?thesis using assms False script_done pod [OF g] by (fastforce simp: Reconcile_def g)
  next
    case (Inr pd)
    obtain rs w2 where s: "reconcileStatuses r pd (podContainerStatuses pd) w1 = (rs, w2)" by fastforce
    have "w' = w2" "res = (case rs of Panics \<Rightarrow> Panics | Returns d \<Rightarrow> Returns (None, d))"
      using assms False Inr by (simp_all add: Reconcile_def g s split: result.splits)
    then show ?thesis using statuses_script [OF s] pod [OF g] by (cases rs) auto
  qed
qed

lemma runDispatch_script:
  assumes "runDispatch r d w = Some (res, w')" and "rcActions r a = Some action" and "dsService d = serviceFor r action"
  shows "\<exists>tr. calls w' = calls w @ tr \<and> script (Running (dsKey d) i n) tr Idle"
proof -
  obtain out w1 where rem: "Remediate (dsService d) (dsEvent d) w = Some (out, w1)"
    using assms(1) by (auto simp: runDispatch_def split: option.splits)
  have "leaves calls (calls w) (Remediate (serviceFor r action) (dsEvent d) w)"
    by (rule Remediate_leaves)
      (auto simp: serviceFor_def dest: clockNow append capture restore uids verify execute [OF assms(2)])
  with rem assms(3) have c: "calls w1 = calls w" by (simp add: leaves_def)
  obtain outcome where o: "w' = release r (dsKey d) (dsPodRef d) outcome w1" "outcome \<in> attemptOutcomes"
  proof (cases out)
    case Panics
    then show ?thesis using assms(1) rem that [of "[]"] by (simp add: runDispatch_def attemptOutcomes_def)
  next
    case (Returns x)
    then show ?thesis
    proof (cases x)
      case (Inr oc)
      have "OutcomeResult_string (oResult oc) \<in> attemptOutcomes" by (cases "oResult oc") (simp_all add: attemptOutcomes_def)
      with Inr Returns show ?thesis using assms(1) rem that by (auto simp: runDispatch_def)
    qed (use assms(1) rem that [of "[]"] in \<open>simp add: runDispatch_def attemptOutcomes_def\<close>)
  qed
  obtain now x where "calls w' = calls w1 @ [LEnd (dsKey d) outcome now, LClosed (dsKey d) x]" using release_calls o(1) by blast
  moreover have "script (Running (dsKey d) i n) [LEnd (dsKey d) outcome now, LClosed (dsKey d) x] Idle"
    using o(2) by (auto intro: script_finish script_closed script_done)
  ultimately show ?thesis using c by auto
qed

end

interpretation traced: observed_reconciler snd "traceReconciler r"
  by unfold_locales
    (auto simp: traceReconciler_def besideReader_def besideCollector_def besideAction_def besideSnapshots_def besideVerifier_def besideAudit_def
      besideClock_def traceLedger_def beside_def noted_def split: prod.splits)

section \<open>Interleavings\<close>

text \<open>A run of a reconcile, with the goroutine it may have started run to its end, in whatever world that finds: its ledger calls.\<close>

inductive run_calls :: "'w PodReconciler \<Rightarrow> lcall list \<Rightarrow> bool" for r where
  reconciled: "Reconcile (traceReconciler r) req (w, []) = (res, (w', cs)) \<Longrightarrow> run_calls r cs"
| remediated: "Reconcile (traceReconciler r) req (w, []) = (Returns (err, Some d), (w', cs)) \<Longrightarrow>
    runDispatch (traceReconciler r) d (w1, []) = Some (res, (w2, cs')) \<Longrightarrow> run_calls r (cs @ cs')"

lemma run_calls_script: "run_calls r cs \<Longrightarrow> \<exists>p. script Idle cs p"
proof (induction rule: run_calls.induct)
  case (reconciled req w res w' cs)
  from traced.Reconcile_script [OF reconciled] show ?case by auto
next
  case (remediated req w err d w' cs w1 res w2 cs')
  from traced.Reconcile_script [OF remediated(1)] obtain i n action where
    1: "script Idle cs (Running (dsKey d) i (evAttemptNumber (dsEvent d)))"
    and a: "rcActions (traceReconciler r) n = Some action" "dsService d = serviceFor (traceReconciler r) action"
    by auto
  from traced.runDispatch_script [OF remediated(2) a] have "script (Running (dsKey d) i (evAttemptNumber (dsEvent d))) cs' Idle" by auto
  with script_append [OF 1] show ?case by blast
qed

text \<open>What a call does to the shared ledger, with the answer it was recorded with.\<close>

fun performs :: "string \<Rightarrow> lcall \<Rightarrow> incidents \<Rightarrow> incidents \<Rightarrow> bool" where
  "performs newID (LBegin key g now r d) m m' \<longleftrightarrow> beginAttempt newID key g now m = Returns (r, d, m')"
| "performs newID (LPanic key g now) m m' \<longleftrightarrow> beginAttempt newID key g now m = Panics \<and> m' = m"
| "performs newID (LEvidence key logs events frozen) m m' \<longleftrightarrow> incidentEvidence key m = (logs, events, frozen) \<and> m' = m"
| "performs newID (LFreeze key logs events) m m' \<longleftrightarrow> m' = freezeEvidence key logs events m"
| "performs newID (LRecord key n) m m' \<longleftrightarrow> recordAttempt key m = (n, m')"
| "performs newID (LEnd key outcome now) m m' \<longleftrightarrow> m' = endAttempt key outcome now m"
| "performs newID (LClosed key x) m m' \<longleftrightarrow> closedIncident key m = x \<and> m' = m"

fun takesID :: "lcall \<Rightarrow> bool" where
  "takesID (LBegin key g now r d) = True"
| "takesID _ = False"

text \<open>
  Threads with their recorded calls, interleaved in any order on one ledger that starts empty: the ledger, the identifiers handed out, and what is left of
  each thread's calls.
\<close>

inductive interleaved :: "(nat \<Rightarrow> lcall list) \<Rightarrow> incidents \<Rightarrow> string set \<Rightarrow> (nat \<Rightarrow> lcall list) \<Rightarrow> bool" for T where
  start: "interleaved T Map.empty {} T"
| call: "interleaved T m U todo \<Longrightarrow> todo t = c # cs \<Longrightarrow> newID \<notin> U \<Longrightarrow> performs newID c m m' \<Longrightarrow>
    interleaved T m' (if takesID c then insert newID U else U) (todo(t := cs))"

lemma begin_returns:
  assumes "reachable s"
  shows "beginAttempt newID key g now (ledger s) \<noteq> Panics"
proof -
  have "0 \<le> irAttemptCount r0" if "ledger s key = Some r0" for r0
    using reachable_structure [OF assms] that unfolding records_ok_def by blast
  moreover have "claimRecord key now m r0 \<noteq> Panics" if "0 \<le> irAttemptCount r0" for m r0 using claimRecord_eq [OF that] by (simp split: if_splits)
  ultimately show ?thesis unfolding beginAttempt_live by (auto split: option.splits dest: liveRecord_Some)
qed

text \<open>The next call of a script, performed on the ledger of a reachable state, is a step of its thread.\<close>

lemma script_step:
  assumes s: "reachable s" and sc: "script (threads s t) (c # cs) p'" and new: "newID \<notin> usedIds s" and p: "performs newID c (ledger s) m'"
  shows "\<exists>s' q. reachable s' \<and> ledger s' = m' \<and> usedIds s' = (if takesID c then insert newID (usedIds s) else usedIds s) \<and>
    threads s' = (threads s)(t := q) \<and> script q cs p'"
proof -
  have by_step: ?thesis if "step s s'" "ledger s' = m'" "usedIds s' = (if takesID c then insert newID (usedIds s) else usedIds s)"
      "threads s' = (threads s)(t := q)" "script q cs p'" for s' q
    using that reachable_step [OF s] by blast
  show ?thesis using sc
  proof (cases rule: script.cases)
    case (script_closed key x)
    then show ?thesis using s p by (intro exI [of _ s] exI [of _ "threads s t"]) auto
  next
    case (script_admitted key r now g)
    then show ?thesis using by_step [OF step.admit [OF script_admitted(1) new]] p by auto
  next
    case (script_refused d key g now r)
    then have "beginAttempt newID key g now (ledger s) = Returns (r, d, m')" using p by simp
    from step.refuse [OF script_refused(1) new this script_refused(3)] show ?thesis
      using script_refused by (intro by_step [where q = "threads s t"]) auto
  next
    case (script_panicked key g now)
    then show ?thesis using begin_returns [OF s] p by auto
  next
    case (script_evidence frozen key i cl logs events)
    then have ev: "incidentEvidence key (ledger s) = (logs, events, frozen)" "m' = ledger s" using p by simp_all
    with script_evidence show ?thesis
      by (intro by_step [OF step.evidence [OF script_evidence(1) ev(1)], where q = "if frozen then Ready key i cl else Collecting key i cl"])
        simp_all
  next
    case (script_freeze key i cl logs events)
    then show ?thesis using by_step [OF step.freeze [OF script_freeze(1)]] p by auto
  next
    case (script_claimed_end outcome key i cl now)
    then show ?thesis using by_step [OF step.giveUp [of s t key i cl outcome now]] p by auto
  next
    case (script_ready_end outcome key i cl now)
    then show ?thesis using by_step [OF step.giveUp [of s t key i cl outcome now]] p by auto
  next
    case (script_record key i n cl)
    then show ?thesis using by_step [OF step.dispatch [OF script_record(1)]] p by auto
  next
    case (script_finish outcome key i n now)
    then show ?thesis using by_step [OF step.finish [OF script_finish(1)]] p by auto
  qed
qed

lemma interleaved_simulation:
  assumes "interleaved T m U todo" and "\<And>t. \<exists>p. script Idle (T t) p"
  shows "\<exists>s. reachable s \<and> ledger s = m \<and> usedIds s = U \<and> (\<forall>t. \<exists>p. script (threads s t) (todo t) p)"
  using assms(1)
proof (induction rule: interleaved.induct)
  case start
  show ?case using reachable_init assms(2) by (intro exI [of _ initialSystem]) (simp add: initialSystem_def)
next
  case (call m U todo t c cs newID m')
  then obtain s p where s: "reachable s" "ledger s = m" "usedIds s = U" "\<And>t. \<exists>p. script (threads s t) (todo t) p"
    and "script (threads s t) (c # cs) p" by metis
  with script_step [of s t c cs p newID m'] call.hyps(3,4) obtain s' q where
    "reachable s'" "ledger s' = m'" "usedIds s' = (if takesID c then insert newID U else U)" "threads s' = (threads s)(t := q)" "script q cs p"
    by auto
  with s(4) show ?case by (intro exI [of _ s']) auto
qed

text \<open>
  C4: the controller refines the threads of the concurrency model. However the dependencies of any number of reconciles and of the remediations
  they started behave, and however their ledger calls interleave on the shared ledger, the ledger is always that of a reachable state of the step
  relation, in which each thread is at a phase from which the rest of its calls is a script.
\<close>

theorem controller_refines_threads:
  assumes "\<And>t. T t = [] \<or> run_calls (R t) (T t)" and "interleaved T m U todo"
  shows "\<exists>s. reachable s \<and> ledger s = m \<and> usedIds s = U \<and> (\<forall>t. \<exists>p. script (threads s t) (todo t) p)"
proof (rule interleaved_simulation [OF assms(2)])
  show "\<exists>p. script Idle (T t) p" for t using assms(1) [of t] run_calls_script [of "R t" "T t"] script_done [of Idle] by metis
qed

text \<open>A reconciler without a classifier, on the crash-looping Pod of the example cluster and a ledger that answers as an empty one does.\<close>

definition escalatingReconciler :: "cluster PodReconciler" where
  "escalatingReconciler =
     \<lparr>rcReader = clusterReader, rcMachinery = stdMachinery, rcClassifier = None, rcActions = Map.empty, rcEvidence = None, rcSnapshots = None,
      rcVerifier = None, rcAudit = None, rcClock = None, rcAuditMetadata = exampleMetadata,
      rcLedger = \<lparr>lgBeginAttempt = (\<lambda>key g now w. (Returns ((freshRecord ''i-1'' g now)\<lparr>irInFlight := True\<rparr>, admitProceed), w)),
        lgRecordAttempt = (\<lambda>key w. (1, w)), lgEndAttempt = (\<lambda>key outcome now w. ((), w)), lgIncidentEvidence = (\<lambda>key w. (([], [], False), w)),
        lgFreezeEvidence = (\<lambda>key logs events w. ((), w)),
        lgClosedIncident = (\<lambda>key w. (Some \<lparr>icId = ''i-1'', icOutcome = outcomeEscalated, icAttempts = 0\<rparr>, w))\<rparr>,
      rcTimeNow = (\<lambda>w. (clNow w, w))\<rparr>"

definition escalationCalls :: "lcall list" where
  "escalationCalls = [LBegin ''shop/checkout'' 1 100 ((freshRecord ''i-1'' 1 100)\<lparr>irInFlight := True\<rparr>) admitProceed,
     LEnd ''shop/checkout'' outcomeEscalated 100, LClosed ''shop/checkout'' (Some \<lparr>icId = ''i-1'', icOutcome = outcomeEscalated, icAttempts = 0\<rparr>)]"

lemma escalation_run: "run_calls escalatingReconciler escalationCalls"
proof -
  have "snd (snd (Reconcile (traceReconciler escalatingReconciler) (nsName ''shop'' ''checkout-1'') (crashLoopCluster, []))) = escalationCalls"
    by code_simp
  then show ?thesis by (metis prod.collapse reconciled)
qed

abbreviation escalatedLedger :: incidents where
  "escalatedLedger \<equiv> endAttempt ''shop/checkout'' outcomeEscalated 100 [''shop/checkout'' \<mapsto> (freshRecord ''i-1'' 1 100)\<lparr>irInFlight := True\<rparr>]"

lemma escalation_threads: "((\<lambda>_. [])(0 := escalationCalls)) t = [] \<or> run_calls escalatingReconciler (((\<lambda>_. [])(0 := escalationCalls)) t)"
  using escalation_run by simp

lemma escalation_interleaved:
  "interleaved ((\<lambda>_. [])(0 := escalationCalls)) escalatedLedger {''i-1''} ((\<lambda>_. [])(0 := tl (tl escalationCalls)))"
proof -
  let ?k = "''shop/checkout''" and ?T = "(\<lambda>_. [])(0 := escalationCalls)"
  let ?r = "(freshRecord ''i-1'' 1 100)\<lparr>irInFlight := True\<rparr>"
  have b: "beginAttempt ''i-1'' ?k 1 100 Map.empty = Returns (?r, admitProceed, [?k \<mapsto> ?r])"
    by (simp add: beginAttempt_live liveRecord_def claimRecord_eq MaxAttempts_def)
  have "interleaved ?T [?k \<mapsto> ?r] {''i-1''} ((\<lambda>_. [])(0 := tl escalationCalls))"
    using interleaved.call [OF interleaved.start [of ?T], of 0 "hd escalationCalls" "tl escalationCalls" "''i-1''" "[?k \<mapsto> ?r]"] b
    by (simp add: escalationCalls_def)
  from interleaved.call [OF this, of 0 "hd (tl escalationCalls)" "tl (tl escalationCalls)" "''i-2''"] show ?thesis
    by (simp add: escalationCalls_def)
qed

theorem controller_refines_threads_witness:
  "\<exists>s r. reachable s \<and> ledger s ''shop/checkout'' = Some r \<and> irTerminalOutcome r = outcomeEscalated"
proof -
  obtain s where "reachable s" "ledger s = escalatedLedger"
    using controller_refines_threads [OF escalation_threads escalation_interleaved] by blast
  then show ?thesis by (auto simp: endAttempt_def outcomeEscalated_def)
qed

text \<open>
  C13: what holds of the ledger of the program. However the reconciles and remediations behave and interleave, every record counts between 0
  and 3 attempts, a finished incident has no attempt in flight, two Deployments never share an incident, and every admission request returns.
\<close>

theorem program_ledger:
  assumes "\<And>t. T t = [] \<or> run_calls (R t) (T t)" and "interleaved T m U todo"
  shows "(\<forall>key r. m key = Some r \<longrightarrow> 0 \<le> irAttemptCount r \<and> irAttemptCount r \<le> 3 \<and> (irTerminalOutcome r \<noteq> [] \<longrightarrow> \<not> irInFlight r)) \<and>
    (\<forall>k k' r r'. m k = Some r \<longrightarrow> m k' = Some r' \<longrightarrow> irId r = irId r' \<longrightarrow> k = k') \<and> (\<forall>newID key g now. beginAttempt newID key g now m \<noteq> Panics)"
proof -
  have "\<exists>p. script Idle (T t) p" for t using assms(1) [of t] run_calls_script [of "R t" "T t"] script_done [of Idle] by metis
  from interleaved_simulation [OF assms(2) this] obtain s where s: "reachable s" "ledger s = m" by blast
  with reachable_structure [OF s(1)] begin_returns [OF s(1)] show ?thesis unfolding records_ok_def MaxAttempts_def by metis
qed

theorem program_ledger_witness: "beginAttempt ''i-2'' ''shop/checkout'' 7 100 escalatedLedger \<noteq> Panics"
  using program_ledger [OF escalation_threads escalation_interleaved] by blast

end
