(* ===== verification/Prompt.thy ===== *)
theory Prompt
  imports Validator Json AuditLog
begin

text \<open>
  The prompts of the language-model classifiers, \<^verbatim>\<open>internal/classifier/prompt.go\<close>, and the JSON schema of the answer
  (\<^verbatim>\<open>proposalJSONSchema\<close> in \<^verbatim>\<open>claude.go\<close>), with the printing of JSON values by \<^verbatim>\<open>json.Marshal\<close> and \<^verbatim>\<open>json.MarshalIndent\<close>.

  Shown: evidence cannot add a line to the user prompt. That the schema allows exactly the vocabulary the validator can
  accept is in \<^verbatim>\<open>Providers\<close>.
\<close>

section \<open>JSON values\<close>

text \<open>
  \<open>JObject\<close> is a struct, whose fields keep their order, \<open>JMap\<close> a Go map, whose keys are sorted; \<open>JRaw\<close> is text that a \<^verbatim>\<open>Marshaler\<close>
  produced.
\<close>

datatype json = JString string | JInt int | JBool bool | JNull | JRaw string | JArray "json list" | JObject "(string \<times> json) list" | JMap "(string \<times> json) list"

fun marshal :: "json \<Rightarrow> string" where
  "marshal (JString s) = json_string s"
| "marshal (JInt i) = Itoa i"
| "marshal (JBool b) = (if b then ''true'' else ''false'')"
| "marshal JNull = ''null''"
| "marshal (JRaw s) = s"
| "marshal (JArray vs) = ''['' @ Join (map marshal vs) '','' @ '']''"
| "marshal (JObject fs) = json_object (map (\<lambda>(k, v). (k, marshal v)) fs)"
| "marshal (JMap fs) = json_object (sort_key fst (map (\<lambda>(k, v). (k, marshal v)) fs))"

text \<open>\<^verbatim>\<open>MarshalIndent(v, "", "  ")\<close> at a nesting depth.\<close>

definition newlineAt :: "nat \<Rightarrow> string" where
  "newlineAt depth = LF # concat (replicate depth ''  '')"

definition bracketed :: "nat \<Rightarrow> string \<Rightarrow> string \<Rightarrow> string list \<Rightarrow> string" where
  "bracketed depth l r items =
     (if items = [] then l @ r else l @ newlineAt (depth + 1) @ Join items ('','' @ newlineAt (depth + 1)) @ newlineAt depth @ r)"

fun marshalIndent :: "nat \<Rightarrow> json \<Rightarrow> string" where
  "marshalIndent depth (JArray vs) = bracketed depth ''['' '']'' (map (marshalIndent (depth + 1)) vs)"
| "marshalIndent depth (JObject fs) =
     bracketed depth ''{'' ''}'' (map (\<lambda>(k, v). json_string k @ '': '' @ marshalIndent (depth + 1) v) fs)"
| "marshalIndent depth (JMap fs) =
     bracketed depth ''{'' ''}'' (map snd (sort_key fst (map (\<lambda>(k, v). (k, json_string k @ '': '' @ marshalIndent (depth + 1) v)) fs)))"
| "marshalIndent depth v = marshal v"

section \<open>Prompts\<close>

definition systemPromptLines :: "string list" where
  \<open>systemPromptLines =
     [[],
      ''You are a Kubernetes CrashLoopBackOff triage classifier.'',
      [],
      ''Your job is NOT to freely choose or invent a fix.'',
      [],
      ''Your job is to:'',
      ''1. classify the most likely CrashLoopBackOff sub-cause;'',
      ''2. decide whether the incident is safe for automatic remediation;'',
      ''3. propose an action only within the defined safety boundary.'',
      [],
      ''Return JSON only with exactly these fields:'',
      ''{'',
      ''  "sub_cause": "...",'',
      ''  "recommended_action": "...",'',
      ''  "target": {'',
      ''    "kind": "...",'',
      ''    "namespace": "...",'',
      ''    "name": "..."'',
      ''  },'',
      ''  "safe_for_automation": true,'',
      ''  "reasoning": "..."'',
      ''}'',
      [],
      ''Allowed sub-causes:'',
      ''- transient_failure'',
      ''- bad_deploy'',
      ''- bad_config'',
      ''- application_panic'',
      ''- oom_adjacent'',
      ''- unknown'',
      [],
      ''Executable allowlisted actions:'',
      ''- restart_pod'',
      ''- rollout_undo'',
      [],
      ''Decision rules:'',
      [],
      ''1. transient_failure:'',
      ''   - safe_for_automation must be true'',
      ''   - recommended_action must be restart_pod'',
      ''   - target must be the affected Pod'',
      ''   - target.kind MUST be "Pod"'',
      ''   - target.namespace MUST exactly equal the incident namespace'',
      ''   - target.name MUST exactly equal the incident pod_name'',
      [],
      ''2. bad_deploy:'',
      ''   - safe_for_automation must be true'',
      ''   - recommended_action must be rollout_undo'',
      ''   - target must be the owning Deployment'',
      ''   - target.kind MUST be "Deployment"'',
      ''   - target.namespace MUST exactly equal the incident namespace'',
      ''   - target.name MUST exactly equal owner_deployment'',
      [],
      ''3. bad_config:'',
      ''   - safe_for_automation must be false'',
      ''   - recommended_action must be escalate_to_human'',
      ''   - do not propose an automatic configuration change'',
      [],
      ''4. oom_adjacent:'',
      ''   - safe_for_automation must be false'',
      ''   - recommended_action must be escalate_to_human'',
      ''   - do not automatically change CPU or memory limits'',
      [],
      ''5. application_panic:'',
      ''   - safe_for_automation must be false unless the evidence clearly'',
      ''     shows a transient external dependency failure'',
      ''   - when uncertain, escalate_to_human'',
      [],
      ''6. unknown or insufficient evidence:'',
      ''   - safe_for_automation must be false'',
      ''   - recommended_action must be escalate_to_human'',
      [],
      ''For escalate_to_human:'',
      ''- target should identify the affected Pod using its exact namespace and pod_name'',
      [],
      ''Never return an empty target field.'',
      ''Never invent Kubernetes resources.'',
      ''Never propose deleting namespaces, changing RBAC, modifying persistent data,'',
      ''scaling to zero, changing resource limits, or editing configuration.'',
      []]\<close>

definition BuildSystemPrompt :: string where
  "BuildSystemPrompt = Join systemPromptLines [LF]"

text \<open>
  The incident as JSON: the fields of the embedded detection event, then the evidence. \<open>timeText\<close> is what \<^verbatim>\<open>time.Time\<close> marshals to; an empty
  \<^verbatim>\<open>Events\<close> is \<^verbatim>\<open>null\<close> when the slice is nil (\<open>nilEvents\<close>).
\<close>

definition incidentJSON :: "bool \<Rightarrow> string \<Rightarrow> IncidentInput \<Rightarrow> json" where
  "incidentJSON nilEvents timeText input =
     JObject [(''pod_name'', JString (inPodName input)), (''namespace'', JString (inNamespace input)),
       (''container_name'', JString (inContainerName input)), (''restart_count'', JInt (inRestartCount input)),
       (''owner_deployment'', JString (inOwnerDeployment input)), (''timestamp'', JRaw timeText), (''logs'', JString (inLogs input)),
       (''events'', if inEvents input = [] \<and> nilEvents then JNull else JArray (map JString (inEvents input)))]"

definition userPromptText :: "string \<Rightarrow> IncidentInput \<Rightarrow> string" where
  "userPromptText data input = Join
     [''Classify the following Kubernetes incident.'', [], ''Incident evidence:'', data, [], ''Canonical resource identifiers:'', [],
      ''Affected Pod:'', ''- namespace: '' @ inNamespace input, ''- name: '' @ inPodName input, [],
      ''Owning Deployment:'', ''- namespace: '' @ inNamespace input, ''- name: '' @ inOwnerDeployment input, [],
      ''If recommended_action is restart_pod, copy the exact affected Pod identifiers into target.'',
      ''If recommended_action is rollout_undo, copy the exact owning Deployment identifiers into target.'',
      ''Do not invent resource names.''] [LF]"

definition BuildUserPrompt :: "(time \<Rightarrow> error + string) \<Rightarrow> bool \<Rightarrow> IncidentInput \<Rightarrow> error + string" where
  "BuildUserPrompt marshalTime nilEvents input =
     (case marshalTime (inTimestamp input) of
        Inl err \<Rightarrow> Inl (Wrapf ''marshal incident input: '' err [])
      | Inr timeText \<Rightarrow> Inr (userPromptText (marshalIndent 0 (incidentJSON nilEvents timeText input)) input))"

section \<open>The schema of the answer\<close>

definition enumOf :: "string list \<Rightarrow> string \<times> json" where
  "enumOf vs = (''enum'', JArray (map JString vs))"

definition stringType :: "string \<times> json" where
  "stringType = (''type'', JString ''string'')"

definition proposalJSONSchema :: json where
  "proposalJSONSchema = JMap
     [(''type'', JString ''object''), (''additionalProperties'', JBool False),
      (''properties'', JMap
        [(''sub_cause'', JMap [stringType, enumOf [SubCauseTransientFailure, SubCauseBadDeploy, SubCauseBadConfig, SubCauseApplicationPanic,
            SubCauseOOMAdjacent, SubCauseUnknown]]),
         (''recommended_action'', JMap [stringType, enumOf [ActionRestartPod, ActionRolloutUndo, ActionEscalateToHuman]]),
         (''target'', JMap
           [(''type'', JString ''object''), (''additionalProperties'', JBool False),
            (''properties'', JMap
              [(''kind'', JMap [stringType, (''minLength'', JInt 1), enumOf [TargetKindPod, TargetKindDeployment]]),
               (''namespace'', JMap [stringType, (''minLength'', JInt 1)]),
               (''name'', JMap [stringType, (''minLength'', JInt 1)])]),
            (''required'', JArray [JString ''kind'', JString ''namespace'', JString ''name''])]),
         (''safe_for_automation'', JMap [(''type'', JString ''boolean'')]),
         (''reasoning'', JMap [(''type'', JString ''string'')])]),
      (''required'', JArray [JString ''sub_cause'', JString ''recommended_action'', JString ''target'', JString ''safe_for_automation'',
         JString ''reasoning''])]"

section \<open>The vocabulary of the schema\<close>

text \<open>The strings an enumeration of the schema allows, found by the path of property names to it.\<close>

fun field :: "string \<Rightarrow> json \<Rightarrow> json" where
  "field k (JMap fs) = (case map_of fs k of None \<Rightarrow> JNull | Some v \<Rightarrow> v)"
| "field k _ = JNull"

fun strings :: "json \<Rightarrow> string list" where
  "strings (JArray vs) = concat (map (\<lambda>v. case v of JString s \<Rightarrow> [s] | _ \<Rightarrow> []) vs)"
| "strings _ = []"

definition schemaEnum :: "string list \<Rightarrow> string list" where
  "schemaEnum path = strings (field ''enum'' (fold (\<lambda>k v. field k (field ''properties'' v)) path proposalJSONSchema))"

lemma schemaEnum_values:
  "schemaEnum [''sub_cause''] = [SubCauseTransientFailure, SubCauseBadDeploy, SubCauseBadConfig, SubCauseApplicationPanic,
     SubCauseOOMAdjacent, SubCauseUnknown]"
  "schemaEnum [''recommended_action''] = [ActionRestartPod, ActionRolloutUndo, ActionEscalateToHuman]"
  "schemaEnum [''target'', ''kind''] = [TargetKindPod, TargetKindDeployment]"
  by (simp_all add: schemaEnum_def proposalJSONSchema_def stringType_def enumOf_def)

section \<open>Evidence adds no lines\<close>

abbreviation breaks :: "string \<Rightarrow> nat" where
  "breaks s \<equiv> count_list s LF"

lemma breaks_0: "LF \<notin> set s \<Longrightarrow> breaks s = 0"
  by simp

lemma breaks_Join: "breaks (Join xs sep) = sum_list (map breaks xs) + (length xs - 1) * breaks sep"
  by (induction xs sep rule: Join.induct) auto

lemma breaks_newlineAt [simp]: "breaks (newlineAt d) = 1"
  by (induction d) (auto simp: newlineAt_def)

lemma breaks_string [simp]: "breaks (json_string s) = 0"
  by (rule breaks_0) simp

lemma breaks_bracketed:
  assumes "LF \<notin> set l" "LF \<notin> set r"
  shows "breaks (bracketed d l r items) = (if items = [] then 0 else sum_list (map breaks items) + length items + 1)"
  using assms by (cases items) (auto simp: bracketed_def breaks_Join breaks_0)

lemma incident_breaks:
  assumes "LF \<notin> set timeText"
  shows "breaks (marshalIndent 0 (incidentJSON nilEvents timeText input)) = 9 + (if inEvents input = [] then 0 else length (inEvents input) + 1)"
proof -
  have "breaks (marshalIndent 1 (JArray (map JString evs))) = (if evs = [] then 0 else length evs + 1)" for evs
    by (simp add: breaks_bracketed comp_def)
  then show ?thesis using assms by (simp add: incidentJSON_def breaks_bracketed breaks_0)
qed

text \<open>
  C30: evidence cannot add a line to the user prompt. However the log and the events read, line feeds included, the number of line breaks of the
  prompt depends on the number of events alone, when the names and the time text have none; so no text of a log can pose as a line of the prompt's
  own, such as a canonical resource identifier.
\<close>

theorem evidence_adds_no_lines:
  assumes "marshals_plain marshalTime" and "BuildUserPrompt marshalTime nilEvents input = Inr prompt"
    and "LF \<notin> set (inNamespace input)" "LF \<notin> set (inPodName input)" "LF \<notin> set (inOwnerDeployment input)"
  shows "breaks prompt = 26 + (if inEvents input = [] then 0 else length (inEvents input) + 1)"
proof -
  obtain timeText where t: "marshalTime (inTimestamp input) = Inr timeText" "LF \<notin> set timeText"
    and p: "prompt = userPromptText (marshalIndent 0 (incidentJSON nilEvents timeText input)) input"
    using assms(1,2) by (auto simp: BuildUserPrompt_def marshals_plain_def split: sum.splits)
  show ?thesis unfolding p userPromptText_def breaks_Join using assms(3-5) by (simp add: incident_breaks [OF t(2)] breaks_0)
qed

definition noisyIncident :: IncidentInput where
  "noisyIncident = \<lparr>inPodName = ''web-1'', inNamespace = ''shop'', inContainerName = ''web'', inRestartCount = 3, inOwnerDeployment = ''web'',
     inTimestamp = 5, inLogs = ''a'' @ [LF] @ ''- name: other'' @ [LF], inEvents = [''x'' @ [LF], ''y'']\<rparr>"

theorem evidence_adds_no_lines_witness:
  "\<exists>prompt. BuildUserPrompt exampleMarshalTime False noisyIncident = Inr prompt \<and> breaks prompt = 29"
proof -
  obtain prompt where p: "BuildUserPrompt exampleMarshalTime False noisyIncident = Inr prompt"
    by (simp add: BuildUserPrompt_def exampleMarshalTime_def)
  have "breaks prompt = 26 + (if inEvents noisyIncident = [] then 0 else length (inEvents noisyIncident) + 1)"
    by (rule evidence_adds_no_lines [OF exampleMarshalTime_plain p]) (simp_all add: noisyIncident_def)
  with p show ?thesis by (simp add: noisyIncident_def)
qed

end
