(* ===== verification/Providers.thy ===== *)
theory Providers
  imports Prompt Classification
begin

text \<open>
  The two language-model classifiers, \<^verbatim>\<open>internal/classifier/claude.go\<close> and \<^verbatim>\<open>mistral.go\<close>: the checks before a call, the HTTP request,
  and every way from the response to a proposal or an error. What is outside the process is a parameter: the HTTP client (a function from a request to
  a response or an error), the environment variables, and the decoding of response bodies by \<^verbatim>\<open>json.Unmarshal\<close>, of which nothing is assumed.
  \<^verbatim>\<open>json.Marshal\<close> of the request structs and \<^verbatim>\<open>http.NewRequestWithContext\<close> with a constant method and URL and a non-nil
  context do not fail, so their error branches have no counterpart.

  Shown: which requests a classification sends and with which credentials, where a proposal comes from, and that an incident without
  evidence never leaves the process and is escalated; the answer schema allows exactly the vocabulary the validator can accept.
\<close>

section \<open>HTTP and decoding\<close>

text \<open>The headers of a request in the order they are set, under the names the code gives them (HTTP does not distinguish their case).\<close>

record httpRequest =
  rqMethod :: string
  rqURL :: string
  rqHeaders :: "(string \<times> string) list"
  rqBody :: string

text \<open>A body is the bytes it delivers and how it ends (\<open>None\<close>: at end of file).\<close>

record httpResponse =
  hsStatusCode :: int
  hsBody :: "string \<times> error option"

type_synonym 'w httpClient = "httpRequest \<Rightarrow> 'w \<Rightarrow> (error + httpResponse) \<times> 'w"

definition readAll :: "string \<times> error option \<Rightarrow> error + string" where
  "readAll body = (case body of (bytes, None) \<Rightarrow> Inr bytes | (bytes, Some err) \<Rightarrow> Inl err)"

record claudeContent =
  ctType :: string
  ctText :: string

record claudeUsage =
  cuInputTokens :: int
  cuOutputTokens :: int

record claudeResponse =
  crID :: string
  crType :: string
  crRole :: string
  crModel :: string
  crStopReason :: string
  crContent :: "claudeContent list"
  crUsage :: claudeUsage

record claudeErrorResponse =
  ceType :: string
  ceErrorType :: string
  ceErrorMessage :: string

record mistralChoice =
  mcIndex :: int
  mcFinishReason :: string
  mcMessageRole :: string
  mcMessageContent :: string

record mistralResponse =
  mrID :: string
  mrModel :: string
  mrChoices :: "mistralChoice list"

record mistralErrorResponse =
  meMessage :: string
  meType :: string
  meCode :: string

text \<open>What \<^verbatim>\<open>encoding/json\<close> does with the values whose format this development does not fix.\<close>

record jsonCodec =
  jcMarshalTime :: "time \<Rightarrow> error + string"
  jcNilEvents :: bool
  jcProposal :: "string \<Rightarrow> error + Proposal"
  jcClaudeResponse :: "string \<Rightarrow> error + claudeResponse"
  jcClaudeError :: "string \<Rightarrow> error + claudeErrorResponse"
  jcMistralResponse :: "string \<Rightarrow> error + mistralResponse"
  jcMistralError :: "string \<Rightarrow> error + mistralErrorResponse"

section \<open>Shared checks\<close>

definition ProviderClaude :: string where "ProviderClaude = ''anthropic''"
definition ProviderMistral :: string where "ProviderMistral = ''mistral''"
definition ProviderMock :: string where "ProviderMock = ''mock''"
definition ClaudeModelEnv :: string where "ClaudeModelEnv = ''CLAUDE_MODEL''"
definition MistralModelEnv :: string where "MistralModelEnv = ''MISTRAL_MODEL''"

definition roleUser :: string where "roleUser = ''user''"
definition textBlockType :: string where "textBlockType = ''text''"

definition validateIncidentInput :: "IncidentInput \<Rightarrow> error option" where
  "validateIncidentInput input =
     (if TrimSpace (inPodName input) = [] then Some (Errorf ''pod name is empty'')
      else if TrimSpace (inNamespace input) = [] then Some (Errorf ''namespace is empty'')
      else if TrimSpace (inContainerName input) = [] then Some (Errorf ''container name is empty'')
      else if TrimSpace (inLogs input) = [] \<and> inEvents input = [] then Some (Errorf ''both logs and events are empty'')
      else None)"

section \<open>Claude\<close>

definition claudeMessagesURL :: string where "claudeMessagesURL = ''https://api.anthropic.com/v1/messages''"
definition defaultClaudeModel :: string where "defaultClaudeModel = ''claude-sonnet-4-6''"

record 'w ClaudeClassifier =
  ccApiKey :: string
  ccModel :: string
  ccClient :: "'w httpClient option"

definition Claude_ModelName :: "'w ClaudeClassifier option \<Rightarrow> string" where
  "Claude_ModelName c = (case c of None \<Rightarrow> defaultClaudeModel | Some cl \<Rightarrow> if TrimSpace (ccModel cl) = [] then defaultClaudeModel else ccModel cl)"

text \<open>\<open>newClient\<close> is a fresh \<^verbatim>\<open>http.Client\<close> with a timeout of 30 seconds.\<close>

definition NewClaudeClassifier :: "'w httpClient \<Rightarrow> (string \<Rightarrow> string) \<Rightarrow> error + 'w ClaudeClassifier" where
  "NewClaudeClassifier newClient getenv =
     (let apiKey = TrimSpace (getenv ''ANTHROPIC_API_KEY'') in
      if apiKey = [] then Inl (Errorf ''ANTHROPIC_API_KEY environment variable is not set'')
      else Inr \<lparr>ccApiKey = apiKey, ccModel = modelFromEnv getenv ClaudeModelEnv defaultClaudeModel, ccClient = Some newClient\<rparr>)"

definition claudeRequest :: "string \<Rightarrow> string \<Rightarrow> json" where
  "claudeRequest model userPrompt =
     JObject [(''model'', JString model), (''max_tokens'', JInt 1024), (''system'', JString BuildSystemPrompt),
       (''messages'', JArray [JObject [(''role'', JString roleUser), (''content'', JString userPrompt)]]),
       (''output_config'', JObject [(''format'', JObject [(''type'', JString ''json_schema''), (''schema'', proposalJSONSchema)])])]"

definition claudeHTTPRequest :: "string \<Rightarrow> string \<Rightarrow> string \<Rightarrow> httpRequest" where
  "claudeHTTPRequest apiKey model userPrompt =
     \<lparr>rqMethod = ''POST'', rqURL = claudeMessagesURL,
      rqHeaders = [(''Content-Type'', ''application/json''), (''x-api-key'', apiKey), (''anthropic-version'', ''2023-06-01'')],
      rqBody = marshal (claudeRequest model userPrompt)\<rparr>"

definition parseClaudeAPIError :: "jsonCodec \<Rightarrow> int \<Rightarrow> string \<Rightarrow> error" where
  "parseClaudeAPIError codec statusCode body =
     (let text = (case jcClaudeError codec body of
          Inr apiError \<Rightarrow> if ceErrorMessage apiError \<noteq> [] then ceErrorMessage apiError else TrimSpace body
        | Inl err \<Rightarrow> TrimSpace body)
      in Errorf (''claude API returned HTTP '' @ Itoa statusCode @ '': '' @ text))"

fun firstText :: "claudeContent list \<Rightarrow> string option" where
  "firstText [] = None"
| "firstText (content # contents) =
     (if ctType content = textBlockType \<and> TrimSpace (ctText content) \<noteq> [] then Some (TrimSpace (ctText content)) else firstText contents)"

definition extractClaudeText :: "claudeResponse \<Rightarrow> error + string" where
  "extractClaudeText response =
     (case firstText (crContent response) of Some text \<Rightarrow> Inr text | None \<Rightarrow> Inl (Errorf ''claude response did not contain text output''))"

definition claudeCallMetadata :: "claudeUsage \<Rightarrow> ClassifierCallMetadata" where
  "claudeCallMetadata usage =
     \<lparr>cmInputTokens = nonNegativeInt (cuInputTokens usage), cmOutputTokens = nonNegativeInt (cuOutputTokens usage),
      cmTotalTokens = TotalTokens \<lparr>tuInputTokens = cuInputTokens usage, tuOutputTokens = cuOutputTokens usage\<rparr>\<rparr>"

text \<open>From the answer of the HTTP client on.\<close>

definition claudeAnswer :: "jsonCodec \<Rightarrow> error + httpResponse \<Rightarrow> error + (Proposal \<times> ClassifierCallMetadata)" where
  "claudeAnswer codec response =
     (case response of
        Inl err \<Rightarrow> Inl (Wrapf ''call Claude API: '' err [])
      | Inr resp \<Rightarrow>
        (case readAll (hsBody resp) of
           Inl err \<Rightarrow> Inl (Wrapf ''read Claude response: '' err [])
         | Inr body \<Rightarrow>
           if hsStatusCode resp < 200 \<or> hsStatusCode resp \<ge> 300 then Inl (parseClaudeAPIError codec (hsStatusCode resp) body)
           else case jcClaudeResponse codec body of
               Inl err \<Rightarrow> Inl (Wrapf ''decode Claude response: '' err [])
             | Inr claudeResp \<Rightarrow>
               (case extractClaudeText claudeResp of
                  Inl err \<Rightarrow> Inl err
                | Inr outputText \<Rightarrow>
                  (case jcProposal codec outputText of
                     Inl err \<Rightarrow> Inl (Wrapf ''decode Claude proposal JSON: '' err (''; response: '' @ outputText))
                   | Inr proposal \<Rightarrow> Inr (proposal, claudeCallMetadata (crUsage claudeResp))))))"

definition Claude_ClassifyWithMetadata :: "'w httpClient \<Rightarrow> jsonCodec \<Rightarrow> 'w ClaudeClassifier option \<Rightarrow> IncidentInput \<Rightarrow> 'w
    \<Rightarrow> (Proposal \<times> ClassifierCallMetadata \<times> error option) \<times> 'w" where
  "Claude_ClassifyWithMetadata newClient codec classifier input w =
     (let failed = (\<lambda>err. (emptyProposal, zeroMetadata, Some err)) in
      case classifier of
        None \<Rightarrow> (failed (Errorf ''claude classifier is nil''), w)
      | Some c \<Rightarrow>
        if TrimSpace (ccApiKey c) = [] then (failed (Errorf ''claude API key is empty''), w)
        else case validateIncidentInput input of
            Some err \<Rightarrow> (failed err, w)
          | None \<Rightarrow>
            (case BuildUserPrompt (jcMarshalTime codec) (jcNilEvents codec) input of
               Inl err \<Rightarrow> (failed err, w)
             | Inr userPrompt \<Rightarrow>
               (let client = (case ccClient c of Some cl \<Rightarrow> cl | None \<Rightarrow> newClient) in
                case client (claudeHTTPRequest (ccApiKey c) (Claude_ModelName (Some c)) userPrompt) w of
                  (response, w1) \<Rightarrow>
                    (case claudeAnswer codec response of
                       Inl err \<Rightarrow> (failed err, w1)
                     | Inr (proposal, metadata) \<Rightarrow> ((proposal, metadata, None), w1)))))"

definition Claude_Classify :: "'w httpClient \<Rightarrow> jsonCodec \<Rightarrow> 'w ClaudeClassifier option \<Rightarrow> IncidentInput \<Rightarrow> 'w \<Rightarrow> (Proposal \<times> error option) \<times> 'w" where
  "Claude_Classify newClient codec c input w =
     (case Claude_ClassifyWithMetadata newClient codec c input w of ((proposal, metadata, err), w1) \<Rightarrow> ((proposal, err), w1))"

definition ClaudeProvider :: "'w httpClient \<Rightarrow> jsonCodec \<Rightarrow> 'w ClaudeClassifier \<Rightarrow> 'w Classifier" where
  "ClaudeProvider newClient codec c = \<lparr>clMetadata = Some (ProviderClaude, Claude_ModelName (Some c)),
     clClassify = Claude_Classify newClient codec (Some c), clClassifyWithMetadata = Some (Claude_ClassifyWithMetadata newClient codec (Some c))\<rparr>"

section \<open>Mistral\<close>

definition mistralChatURL :: string where "mistralChatURL = ''https://api.mistral.ai/v1/chat/completions''"
definition defaultMistralModel :: string where "defaultMistralModel = ''mistral-large-latest''"

record 'w MistralClassifier =
  mmApiKey :: string
  mmModel :: string
  mmClient :: "'w httpClient option"

definition Mistral_ModelName :: "'w MistralClassifier option \<Rightarrow> string" where
  "Mistral_ModelName m = (case m of None \<Rightarrow> defaultMistralModel | Some cl \<Rightarrow> if TrimSpace (mmModel cl) = [] then defaultMistralModel else mmModel cl)"

definition NewMistralClassifier :: "'w httpClient \<Rightarrow> (string \<Rightarrow> string) \<Rightarrow> error + 'w MistralClassifier" where
  "NewMistralClassifier newClient getenv =
     (let apiKey = TrimSpace (getenv ''MISTRAL_API_KEY'') in
      if apiKey = [] then Inl (Errorf ''MISTRAL_API_KEY environment variable is not set'')
      else Inr \<lparr>mmApiKey = apiKey, mmModel = modelFromEnv getenv MistralModelEnv defaultMistralModel, mmClient = Some newClient\<rparr>)"

definition mistralRequest :: "string \<Rightarrow> string \<Rightarrow> json" where
  "mistralRequest model userPrompt =
     JObject [(''model'', JString model),
       (''messages'', JArray [JObject [(''role'', JString ''system''), (''content'', JString BuildSystemPrompt)],
          JObject [(''role'', JString roleUser), (''content'', JString userPrompt)]]),
       (''response_format'', JObject [(''type'', JString ''json_object'')]), (''temperature'', JInt 0)]"

definition mistralHTTPRequest :: "string \<Rightarrow> string \<Rightarrow> string \<Rightarrow> httpRequest" where
  "mistralHTTPRequest apiKey model userPrompt =
     \<lparr>rqMethod = ''POST'', rqURL = mistralChatURL,
      rqHeaders = [(''Content-Type'', ''application/json''), (''Authorization'', ''Bearer '' @ apiKey)],
      rqBody = marshal (mistralRequest model userPrompt)\<rparr>"

definition parseMistralAPIError :: "jsonCodec \<Rightarrow> int \<Rightarrow> string \<Rightarrow> error" where
  "parseMistralAPIError codec statusCode body =
     (let text = (case jcMistralError codec body of
          Inr apiError \<Rightarrow> if meMessage apiError \<noteq> [] then meMessage apiError else TrimSpace body
        | Inl err \<Rightarrow> TrimSpace body)
      in Errorf (''mistral API returned HTTP '' @ Itoa statusCode @ '': '' @ text))"

definition mistralAnswer :: "jsonCodec \<Rightarrow> error + httpResponse \<Rightarrow> error + Proposal" where
  "mistralAnswer codec response =
     (case response of
        Inl err \<Rightarrow> Inl (Wrapf ''call Mistral API: '' err [])
      | Inr resp \<Rightarrow>
        (case readAll (hsBody resp) of
           Inl err \<Rightarrow> Inl (Wrapf ''read Mistral response: '' err [])
         | Inr body \<Rightarrow>
           if hsStatusCode resp < 200 \<or> hsStatusCode resp \<ge> 300 then Inl (parseMistralAPIError codec (hsStatusCode resp) body)
           else case jcMistralResponse codec body of
               Inl err \<Rightarrow> Inl (Wrapf ''decode Mistral response: '' err [])
             | Inr data \<Rightarrow>
               (case mrChoices data of
                  [] \<Rightarrow> Inl (Errorf ''mistral response contained no choices'')
                | choice # _ \<Rightarrow>
                  (let outputText = TrimSpace (mcMessageContent choice) in
                   if outputText = [] then Inl (Errorf ''mistral response contained empty model output'')
                   else case jcProposal codec outputText of
                       Inl err \<Rightarrow> Inl (Wrapf ''decode Mistral proposal JSON: '' err (''; response: '' @ outputText))
                     | Inr proposal \<Rightarrow> Inr proposal))))"

definition Mistral_Classify :: "'w httpClient \<Rightarrow> jsonCodec \<Rightarrow> 'w MistralClassifier option \<Rightarrow> IncidentInput \<Rightarrow> 'w \<Rightarrow> (Proposal \<times> error option) \<times> 'w" where
  "Mistral_Classify newClient codec classifier input w =
     (let failed = (\<lambda>err. (emptyProposal, Some err)) in
      case classifier of
        None \<Rightarrow> (failed (Errorf ''mistral classifier is nil''), w)
      | Some m \<Rightarrow>
        if TrimSpace (mmApiKey m) = [] then (failed (Errorf ''mistral API key is empty''), w)
        else case validateIncidentInput input of
            Some err \<Rightarrow> (failed err, w)
          | None \<Rightarrow>
            (case BuildUserPrompt (jcMarshalTime codec) (jcNilEvents codec) input of
               Inl err \<Rightarrow> (failed err, w)
             | Inr userPrompt \<Rightarrow>
               (let client = (case mmClient m of Some cl \<Rightarrow> cl | None \<Rightarrow> newClient) in
                case client (mistralHTTPRequest (mmApiKey m) (mmModel m) userPrompt) w of
                  (response, w1) \<Rightarrow>
                    (case mistralAnswer codec response of
                       Inl err \<Rightarrow> (failed err, w1)
                     | Inr proposal \<Rightarrow> ((proposal, None), w1)))))"

definition MistralProvider :: "'w httpClient \<Rightarrow> jsonCodec \<Rightarrow> 'w MistralClassifier \<Rightarrow> 'w Classifier" where
  "MistralProvider newClient codec m = \<lparr>clMetadata = Some (ProviderMistral, Mistral_ModelName (Some m)),
     clClassify = Mistral_Classify newClient codec (Some m), clClassifyWithMetadata = None\<rparr>"

section \<open>What a provider sends and answers\<close>

definition noteRequests :: "'v httpClient \<Rightarrow> ('v \<times> httpRequest list) httpClient" where
  "noteRequests http req s = (case http req (fst s) of (response, v) \<Rightarrow> (response, v, snd s @ [req]))"

text \<open>
  The shape the two classifiers share: an incident is refused, or turned into a prompt that is sent in one request whose answer decides.
\<close>

locale chat_provider =
  fixes call :: "('v \<times> httpRequest list) httpClient \<Rightarrow> IncidentInput \<Rightarrow> 'v \<times> httpRequest list \<Rightarrow> (error + 'a) \<times> 'v \<times> httpRequest list"
    and ready :: "IncidentInput \<Rightarrow> error + string" and request :: "string \<Rightarrow> httpRequest" and answer :: "error + httpResponse \<Rightarrow> error + 'a"
  assumes call_refused: "ready input = Inl err \<Longrightarrow> call http input w = (Inl err, w)"
    and call_sent: "ready input = Inr prompt \<Longrightarrow> call http input w = (case http (request prompt) w of (response, w1) \<Rightarrow> (answer response, w1))"
    and ready_valid: "ready input = Inr prompt \<Longrightarrow> validateIncidentInput input = None"
begin

lemma requests:
  assumes "call (noteRequests http) input (v, []) = (res, (v', reqs))"
  shows "(\<exists>err. ready input = Inl err \<and> res = Inl err \<and> reqs = []) \<or>
    (\<exists>prompt response. ready input = Inr prompt \<and> reqs = [request prompt] \<and> http (request prompt) v = (response, v') \<and> res = answer response)"
proof (cases "ready input")
  case (Inl err)
  then show ?thesis using assms call_refused by auto
next
  case (Inr prompt)
  then show ?thesis using assms call_sent by (auto simp: noteRequests_def split: prod.splits)
qed

lemma incomplete_refused:
  assumes "validateIncidentInput input \<noteq> None"
  shows "\<exists>err. call http input w = (Inl err, w)"
  using assms call_refused ready_valid by (cases "ready input") auto

end

text \<open>A call with its result as a sum: an error comes with no proposal and no metadata.\<close>

definition claudeCall :: "jsonCodec \<Rightarrow> string \<Rightarrow> string \<Rightarrow> 'w httpClient \<Rightarrow> IncidentInput \<Rightarrow> 'w \<Rightarrow> (error + (Proposal \<times> ClassifierCallMetadata)) \<times> 'w" where
  "claudeCall codec apiKey model http input w =
     (case Claude_ClassifyWithMetadata http codec (Some \<lparr>ccApiKey = apiKey, ccModel = model, ccClient = Some http\<rparr>) input w of
        ((proposal, metadata, err), w1) \<Rightarrow> (case err of Some e \<Rightarrow> Inl e | None \<Rightarrow> Inr (proposal, metadata), w1))"

definition mistralCall :: "jsonCodec \<Rightarrow> string \<Rightarrow> string \<Rightarrow> 'w httpClient \<Rightarrow> IncidentInput \<Rightarrow> 'w \<Rightarrow> (error + Proposal) \<times> 'w" where
  "mistralCall codec apiKey model http input w =
     (case Mistral_Classify http codec (Some \<lparr>mmApiKey = apiKey, mmModel = model, mmClient = Some http\<rparr>) input w of
        ((proposal, err), w1) \<Rightarrow> (case err of Some e \<Rightarrow> Inl e | None \<Rightarrow> Inr proposal, w1))"

definition readyPrompt :: "string \<Rightarrow> jsonCodec \<Rightarrow> string \<Rightarrow> IncidentInput \<Rightarrow> error + string" where
  "readyPrompt noKey codec apiKey input =
     (if TrimSpace apiKey = [] then Inl (Errorf noKey)
      else case validateIncidentInput input of Some err \<Rightarrow> Inl err | None \<Rightarrow> BuildUserPrompt (jcMarshalTime codec) (jcNilEvents codec) input)"

lemma readyPrompt_valid: "readyPrompt noKey codec apiKey input = Inr prompt \<Longrightarrow>
    validateIncidentInput input = None \<and> BuildUserPrompt (jcMarshalTime codec) (jcNilEvents codec) input = Inr prompt"
  by (simp add: readyPrompt_def split: if_splits option.splits)

interpretation claude: chat_provider "claudeCall codec apiKey model" "readyPrompt ''claude API key is empty'' codec apiKey"
  "claudeHTTPRequest apiKey (if TrimSpace model = [] then defaultClaudeModel else model)" "claudeAnswer codec"
proof
  show "claudeCall codec apiKey model http input w = (Inl err, w)"
    if "readyPrompt ''claude API key is empty'' codec apiKey input = Inl err" for http input w err
    using that by (auto simp: claudeCall_def Claude_ClassifyWithMetadata_def readyPrompt_def Let_def split: if_splits option.splits sum.splits)
  show "claudeCall codec apiKey model http input w = (case http (claudeHTTPRequest apiKey (if TrimSpace model = [] then defaultClaudeModel else model) prompt) w of
      (response, w1) \<Rightarrow> (claudeAnswer codec response, w1))"
    if "readyPrompt ''claude API key is empty'' codec apiKey input = Inr prompt" for http input w prompt
    using that by (auto simp: claudeCall_def Claude_ClassifyWithMetadata_def readyPrompt_def Claude_ModelName_def Let_def
        split: if_splits option.splits sum.splits prod.splits)
qed (simp add: readyPrompt_valid)

interpretation mistral: chat_provider "mistralCall codec apiKey model" "readyPrompt ''mistral API key is empty'' codec apiKey"
  "mistralHTTPRequest apiKey model" "mistralAnswer codec"
proof
  show "mistralCall codec apiKey model http input w = (Inl err, w)"
    if "readyPrompt ''mistral API key is empty'' codec apiKey input = Inl err" for http input w err
    using that by (auto simp: mistralCall_def Mistral_Classify_def readyPrompt_def Let_def split: if_splits option.splits sum.splits)
  show "mistralCall codec apiKey model http input w = (case http (mistralHTTPRequest apiKey model prompt) w of
      (response, w1) \<Rightarrow> (mistralAnswer codec response, w1))"
    if "readyPrompt ''mistral API key is empty'' codec apiKey input = Inr prompt" for http input w prompt
    using that by (auto simp: mistralCall_def Mistral_Classify_def readyPrompt_def Let_def
        split: if_splits option.splits sum.splits prod.splits)
qed (simp add: readyPrompt_valid)

lemma firstText_Some:
  "firstText contents = Some text \<Longrightarrow> \<exists>content \<in> set contents. ctType content = textBlockType \<and> text = TrimSpace (ctText content) \<and> text \<noteq> []"
  by (induction contents) (auto split: if_splits)

text \<open>Where an accepted answer comes from.\<close>

lemma claudeAnswer_Inr:
  assumes "claudeAnswer codec response = Inr (proposal, metadata)"
  shows "\<exists>resp body decoded content. response = Inr resp \<and> 200 \<le> hsStatusCode resp \<and> hsStatusCode resp < 300 \<and> hsBody resp = (body, None) \<and>
    jcClaudeResponse codec body = Inr decoded \<and> content \<in> set (crContent decoded) \<and> ctType content = textBlockType \<and>
    jcProposal codec (TrimSpace (ctText content)) = Inr proposal \<and> metadata = claudeCallMetadata (crUsage decoded)"
proof -
  obtain resp where r: "response = Inr resp" using assms by (auto simp: claudeAnswer_def split: sum.splits)
  obtain body where b: "readAll (hsBody resp) = Inr body" using assms r by (auto simp: claudeAnswer_def split: sum.splits)
  have st: "200 \<le> hsStatusCode resp" "hsStatusCode resp < 300" using assms by (auto simp: claudeAnswer_def r b split: if_splits)
  obtain decoded where d: "jcClaudeResponse codec body = Inr decoded" using assms st by (auto simp: claudeAnswer_def r b split: sum.splits)
  obtain out where t: "extractClaudeText decoded = Inr out" using assms st by (auto simp: claudeAnswer_def r b d split: sum.splits)
  have "jcProposal codec out = Inr proposal" "metadata = claudeCallMetadata (crUsage decoded)"
    using assms st by (simp_all add: claudeAnswer_def r b d t split: sum.splits)
  moreover have "hsBody resp = (body, None)" using b by (auto simp: readAll_def split: prod.splits option.splits)
  moreover obtain content where "content \<in> set (crContent decoded)" "ctType content = textBlockType" "out = TrimSpace (ctText content)"
    using t firstText_Some by (auto simp: extractClaudeText_def split: option.splits)
  ultimately show ?thesis using r st d by blast
qed

lemma mistralAnswer_Inr:
  assumes "mistralAnswer codec response = Inr proposal"
  shows "\<exists>resp body decoded choice rest. response = Inr resp \<and> 200 \<le> hsStatusCode resp \<and> hsStatusCode resp < 300 \<and> hsBody resp = (body, None) \<and>
    jcMistralResponse codec body = Inr decoded \<and> mrChoices decoded = choice # rest \<and>
    jcProposal codec (TrimSpace (mcMessageContent choice)) = Inr proposal"
proof -
  obtain resp where r: "response = Inr resp" using assms by (auto simp: mistralAnswer_def split: sum.splits)
  obtain body where b: "readAll (hsBody resp) = Inr body" using assms r by (auto simp: mistralAnswer_def split: sum.splits)
  have st: "200 \<le> hsStatusCode resp" "hsStatusCode resp < 300" using assms by (auto simp: mistralAnswer_def r b split: if_splits)
  obtain decoded where d: "jcMistralResponse codec body = Inr decoded" using assms st by (auto simp: mistralAnswer_def r b split: sum.splits)
  obtain choice rest where c: "mrChoices decoded = choice # rest" using assms st by (cases "mrChoices decoded") (auto simp: mistralAnswer_def r b d)
  have "jcProposal codec (TrimSpace (mcMessageContent choice)) = Inr proposal"
    using assms st by (simp add: mistralAnswer_def r b d c Let_def split: if_splits sum.splits)
  moreover have "hsBody resp = (body, None)" using b by (auto simp: readAll_def split: prod.splits option.splits)
  ultimately show ?thesis using r st d c by blast
qed

text \<open>
  C27: what a Claude classification sends and returns. It sends nothing, and then fails, or exactly one POST to the Anthropic endpoint whose only use of
  the API key is the \<^verbatim>\<open>x-api-key\<close> header and whose body is the request for this incident's prompt. When it fails it returns neither a proposal nor
  token counts; when it succeeds the proposal was decoded from a text block of a complete 2xx response and the token counts are not negative.
\<close>

theorem claude_exchange:
  assumes "Claude_ClassifyWithMetadata (noteRequests http) codec (Some \<lparr>ccApiKey = apiKey, ccModel = model, ccClient = Some (noteRequests http)\<rparr>) input (v, [])
      = ((proposal, metadata, err), (v', reqs))"
  shows "(reqs = [] \<and> err \<noteq> None \<or>
      (\<exists>prompt. BuildUserPrompt (jcMarshalTime codec) (jcNilEvents codec) input = Inr prompt \<and>
        reqs = [\<lparr>rqMethod = ''POST'', rqURL = ''https://api.anthropic.com/v1/messages'',
          rqHeaders = [(''Content-Type'', ''application/json''), (''x-api-key'', apiKey), (''anthropic-version'', ''2023-06-01'')],
          rqBody = marshal (claudeRequest (if TrimSpace model = [] then defaultClaudeModel else model) prompt)\<rparr>])) \<and>
    (if err = None then 0 \<le> cmInputTokens metadata \<and> 0 \<le> cmOutputTokens metadata \<and>
       (\<exists>req resp body decoded content. reqs = [req] \<and> http req v = (Inr resp, v') \<and> 200 \<le> hsStatusCode resp \<and> hsStatusCode resp < 300 \<and>
          hsBody resp = (body, None) \<and> jcClaudeResponse codec body = Inr decoded \<and> content \<in> set (crContent decoded) \<and>
          ctType content = ''text'' \<and> jcProposal codec (TrimSpace (ctText content)) = Inr proposal)
     else proposal = emptyProposal \<and> metadata = zeroMetadata)"
proof -
  let ?res = "case err of Some e \<Rightarrow> Inl e | None \<Rightarrow> Inr (proposal, metadata)"
  have call: "claudeCall codec apiKey model (noteRequests http) input (v, []) = (?res, (v', reqs))"
    using assms by (simp add: claudeCall_def)
  have failed: "proposal = emptyProposal \<and> metadata = zeroMetadata" if "err \<noteq> None"
    using assms that by (auto simp: Claude_ClassifyWithMetadata_def Let_def split: if_splits option.splits sum.splits prod.splits)
  from claude.requests [OF call] show ?thesis
  proof (elim disjE exE conjE)
    fix e assume "?res = Inl e" "reqs = []"
    then show ?thesis using failed by (auto split: option.splits)
  next
    fix prompt response
    let ?req = "claudeHTTPRequest apiKey (if TrimSpace model = [] then defaultClaudeModel else model) prompt"
    assume r: "readyPrompt ''claude API key is empty'' codec apiKey input = Inr prompt" "reqs = [?req]" "http ?req v = (response, v')"
      "?res = claudeAnswer codec response"
    have p: "BuildUserPrompt (jcMarshalTime codec) (jcNilEvents codec) input = Inr prompt" using readyPrompt_valid [OF r(1)] by simp
    have req: "?req = \<lparr>rqMethod = ''POST'', rqURL = ''https://api.anthropic.com/v1/messages'',
          rqHeaders = [(''Content-Type'', ''application/json''), (''x-api-key'', apiKey), (''anthropic-version'', ''2023-06-01'')],
          rqBody = marshal (claudeRequest (if TrimSpace model = [] then defaultClaudeModel else model) prompt)\<rparr>"
      unfolding claudeHTTPRequest_def claudeMessagesURL_def ..
    show ?thesis
    proof (cases err)
      case None
      then have "claudeAnswer codec response = Inr (proposal, metadata)" using r(4) by simp
      from claudeAnswer_Inr [OF this] obtain resp body decoded content where
        "response = Inr resp" "200 \<le> hsStatusCode resp" "hsStatusCode resp < 300" "hsBody resp = (body, None)" "jcClaudeResponse codec body = Inr decoded"
        "content \<in> set (crContent decoded)" "ctType content = ''text''" "jcProposal codec (TrimSpace (ctText content)) = Inr proposal"
        and m: "metadata = claudeCallMetadata (crUsage decoded)"
        unfolding textBlockType_def by blast
      moreover have "0 \<le> cmInputTokens metadata" "0 \<le> cmOutputTokens metadata" by (simp_all add: m claudeCallMetadata_def)
      ultimately show ?thesis using None r(2,3) p req by (simp only: if_True simp_thms) blast
    next
      case (Some e)
      then show ?thesis using failed r(2) p req by (simp only: option.simps simp_thms if_False) blast
    qed
  qed
qed

text \<open>A service that answers every request with one text block, and a codec that decodes it to the zero proposal.\<close>

definition okResponse :: httpResponse where
  "okResponse = \<lparr>hsStatusCode = 200, hsBody = (''{}'', None)\<rparr>"

definition exampleCodec :: jsonCodec where
  "exampleCodec = \<lparr>jcMarshalTime = exampleMarshalTime, jcNilEvents = False, jcProposal = (\<lambda>s. Inr emptyProposal),
     jcClaudeResponse = (\<lambda>s. Inr \<lparr>crID = [], crType = [], crRole = [], crModel = [], crStopReason = [], crContent = [\<lparr>ctType = ''text'', ctText = ''p''\<rparr>],
       crUsage = \<lparr>cuInputTokens = 9, cuOutputTokens = - 1\<rparr>\<rparr>),
     jcClaudeError = (\<lambda>s. Inl (Errorf s)), jcMistralResponse = (\<lambda>s. Inl (Errorf s)), jcMistralError = (\<lambda>s. Inl (Errorf s))\<rparr>"

lemma example_valid: "validateIncidentInput transientIncident = None"
  by code_simp

lemma example_answer: "claudeAnswer exampleCodec (Inr okResponse) = Inr (emptyProposal, \<lparr>cmInputTokens = 9, cmOutputTokens = 0, cmTotalTokens = 9\<rparr>)"
  by code_simp

theorem claude_exchange_witness:
  "\<exists>req. Claude_ClassifyWithMetadata (noteRequests (\<lambda>req v. (Inr okResponse, v))) exampleCodec
      (Some \<lparr>ccApiKey = ''k'', ccModel = [], ccClient = Some (noteRequests (\<lambda>req v. (Inr okResponse, v)))\<rparr>) transientIncident ((), []) =
        ((emptyProposal, \<lparr>cmInputTokens = 9, cmOutputTokens = 0, cmTotalTokens = 9\<rparr>, None), ((), [req])) \<and>
      rqURL req = ''https://api.anthropic.com/v1/messages'' \<and> (''x-api-key'', ''k'') \<in> set (rqHeaders req)"
proof -
  have k: "TrimSpace ''k'' = ''k''" by code_simp
  obtain prompt where p: "BuildUserPrompt (jcMarshalTime exampleCodec) (jcNilEvents exampleCodec) transientIncident = Inr prompt"
    by (simp add: BuildUserPrompt_def exampleCodec_def exampleMarshalTime_def)
  then obtain req where run: "Claude_ClassifyWithMetadata (noteRequests (\<lambda>req v. (Inr okResponse, v))) exampleCodec
      (Some \<lparr>ccApiKey = ''k'', ccModel = [], ccClient = Some (noteRequests (\<lambda>req v. (Inr okResponse, v)))\<rparr>) transientIncident ((), []) =
        ((emptyProposal, \<lparr>cmInputTokens = 9, cmOutputTokens = 0, cmTotalTokens = 9\<rparr>, None), ((), [req]))"
    by (simp add: Claude_ClassifyWithMetadata_def Let_def k example_valid noteRequests_def example_answer)
  from claude_exchange [OF run] run show ?thesis by auto
qed

lemma no_evidence_invalid: "inLogs input = [] \<Longrightarrow> inEvents input = [] \<Longrightarrow> validateIncidentInput input \<noteq> None"
  by (simp add: validateIncidentInput_def)

lemma no_evidence_text: "inLogs input = [] \<Longrightarrow> inEvents input = [] \<Longrightarrow> evidenceText input = '' ''"
  by (simp add: evidenceText_def lower_byte_def)

text \<open>
  C29: an incident without evidence never leaves the process and is escalated. With an empty log and no events, a call of either language-model
  classifier fails before any HTTP request (the world is unchanged, whatever the client would do), and the service's proposal, however the call and
  its timeout race, escalates to a human.
\<close>

theorem no_evidence_escalates:
  assumes "plainNames input" and "inLogs input = []" "inEvents input = []"
    and "c = ClaudeProvider newClient codec claude \<or> c = MistralProvider newClient codec mistral"
  shows "(\<exists>err. classifyWithOptionalMetadata c input w = ((emptyProposal, zeroMetadata, Some err), w)) \<and>
    properEscalation (fst (classifiedProposal timeNow contextDone (Some (NewClassificationService (Some c) timeout)) input w')) input"
proof
  obtain err where v: "validateIncidentInput input = Some err" using no_evidence_invalid [OF assms(2,3)] by blast
  show "\<exists>err. classifyWithOptionalMetadata c input w = ((emptyProposal, zeroMetadata, Some err), w)"
    using assms(4) v by (auto simp: classifyWithOptionalMetadata_def ClaudeProvider_def MistralProvider_def Claude_ClassifyWithMetadata_def
        Mistral_Classify_def Let_def)
  let ?p = "fst (classifiedProposal timeNow contextDone (Some (NewClassificationService (Some c) timeout)) input w')"
  have none: "\<not> Contains (evidenceText input) i" if "i \<in> set (transientIndicators @ badDeployIndicators)" for i
    unfolding no_evidence_text [OF assms(2,3)] using that by (auto simp: transientIndicators_def badDeployIndicators_def)
  have "\<not> prSafeForAutomation ?p"
  proof
    assume "prSafeForAutomation ?p"
    from cs.safe_supported [OF assms(1) this] none show False by (auto simp: supportedRestart_def supportedRollout_def)
  qed
  from cs.unsafe_escalates [OF assms(1) this] show "properEscalation ?p input" .
qed

definition silentIncident :: IncidentInput where
  "silentIncident = transientIncident\<lparr>inLogs := []\<rparr>"

lemma silentIncident_facts: "plainNames silentIncident" "inLogs silentIncident = []" "inEvents silentIncident = []"
  by code_simp+

theorem no_evidence_escalates_witness:
  "properEscalation (fst (classifiedProposal (\<lambda>w. (7, w)) (\<lambda>d call w. (None, w)) (Some (NewClassificationService
     (Some (MistralProvider (\<lambda>req v. (Inr okResponse, v)) exampleCodec \<lparr>mmApiKey = ''k'', mmModel = ''m'', mmClient = None\<rparr>)) 0)) silentIncident ())) silentIncident"
  by (rule conjunct2 [OF no_evidence_escalates [OF silentIncident_facts disjI2 [OF refl]]])

text \<open>
  C28: the same of a Mistral classification: nothing sent and an error, or one POST to the Mistral endpoint with the key as its bearer token; a proposal
  comes from the first choice of a complete 2xx response.
\<close>

theorem mistral_exchange:
  assumes "Mistral_Classify (noteRequests http) codec (Some \<lparr>mmApiKey = apiKey, mmModel = model, mmClient = Some (noteRequests http)\<rparr>) input (v, [])
      = ((proposal, err), (v', reqs))"
  shows "(reqs = [] \<and> err \<noteq> None \<or>
      (\<exists>prompt. BuildUserPrompt (jcMarshalTime codec) (jcNilEvents codec) input = Inr prompt \<and>
        reqs = [\<lparr>rqMethod = ''POST'', rqURL = ''https://api.mistral.ai/v1/chat/completions'',
          rqHeaders = [(''Content-Type'', ''application/json''), (''Authorization'', ''Bearer '' @ apiKey)],
          rqBody = marshal (mistralRequest model prompt)\<rparr>])) \<and>
    (if err = None then
       (\<exists>req resp body decoded choice rest. reqs = [req] \<and> http req v = (Inr resp, v') \<and> 200 \<le> hsStatusCode resp \<and> hsStatusCode resp < 300 \<and>
          hsBody resp = (body, None) \<and> jcMistralResponse codec body = Inr decoded \<and> mrChoices decoded = choice # rest \<and>
          jcProposal codec (TrimSpace (mcMessageContent choice)) = Inr proposal)
     else proposal = emptyProposal)"
proof -
  let ?res = "case err of Some e \<Rightarrow> Inl e | None \<Rightarrow> Inr proposal"
  have call: "mistralCall codec apiKey model (noteRequests http) input (v, []) = (?res, (v', reqs))"
    using assms by (simp add: mistralCall_def)
  have failed: "proposal = emptyProposal" if "err \<noteq> None"
    using assms that by (auto simp: Mistral_Classify_def Let_def split: if_splits option.splits sum.splits prod.splits)
  from mistral.requests [OF call] show ?thesis
  proof (elim disjE exE conjE)
    fix e assume "?res = Inl e" "reqs = []"
    then show ?thesis using failed by (auto split: option.splits)
  next
    fix prompt response
    let ?req = "mistralHTTPRequest apiKey model prompt"
    assume r: "readyPrompt ''mistral API key is empty'' codec apiKey input = Inr prompt" "reqs = [?req]" "http ?req v = (response, v')"
      "?res = mistralAnswer codec response"
    have p: "BuildUserPrompt (jcMarshalTime codec) (jcNilEvents codec) input = Inr prompt" using readyPrompt_valid [OF r(1)] by simp
    have req: "?req = \<lparr>rqMethod = ''POST'', rqURL = ''https://api.mistral.ai/v1/chat/completions'',
          rqHeaders = [(''Content-Type'', ''application/json''), (''Authorization'', ''Bearer '' @ apiKey)], rqBody = marshal (mistralRequest model prompt)\<rparr>"
      unfolding mistralHTTPRequest_def mistralChatURL_def ..
    show ?thesis
    proof (cases err)
      case None
      then have "mistralAnswer codec response = Inr proposal" using r(4) by simp
      from mistralAnswer_Inr [OF this] show ?thesis using None r(2,3) p req by (simp only: if_True simp_thms) blast
    next
      case (Some e)
      then show ?thesis using failed r(2) p req by (simp only: option.simps simp_thms if_False) blast
    qed
  qed
qed

theorem mistral_exchange_witness:
  "\<exists>err. Mistral_Classify (noteRequests (\<lambda>req v. (Inr okResponse, v))) exampleCodec
      (Some \<lparr>mmApiKey = ''k'', mmModel = [], mmClient = Some (noteRequests (\<lambda>req v. (Inr okResponse, v)))\<rparr>) silentIncident ((), []) =
        ((emptyProposal, Some err), ((), []))"
proof -
  let ?run = "Mistral_Classify (noteRequests (\<lambda>req v. (Inr okResponse, v))) exampleCodec
      (Some \<lparr>mmApiKey = ''k'', mmModel = [], mmClient = Some (noteRequests (\<lambda>req v. (Inr okResponse, v)))\<rparr>) silentIncident ((), [])"
  obtain err where v: "validateIncidentInput silentIncident = Some err" using no_evidence_invalid [OF silentIncident_facts(2,3)] by blast
  have k: "TrimSpace ''k'' = ''k''" by code_simp
  obtain proposal where run: "?run = ((proposal, Some err), ((), []))" using v k by (simp add: Mistral_Classify_def Let_def)
  from mistral_exchange [OF run] run show ?thesis by simp
qed

section \<open>The answer schema and the validator\<close>

text \<open>
  The answers the validator accepts, over all proposals and incidents, seen through one of their fields.
\<close>

definition accepted_values :: "(Proposal \<Rightarrow> string) \<Rightarrow> string set" where
  "accepted_values sel = {sel (vaOutput (ValidateProposal p input)) | p input. vaValid (ValidateProposal p input)}"

lemma accepted_valuesI:
  "acceptable (normalizeProposal p) input \<Longrightarrow> sel (normalizeProposal p) = v \<Longrightarrow> v \<in> accepted_values sel"
  unfolding accepted_values_def by (auto simp: Validate_valid)

lemma accepted_values_in:
  assumes "v \<in> accepted_values sel"
  obtains p input where "acceptable p input" "v = sel p"
  using assms unfolding accepted_values_def by (auto simp: Validate_valid)

definition badDeployIncident :: IncidentInput where
  "badDeployIncident = transientIncident\<lparr>inLogs := ''invalid image'', inEvents := [''new revision'']\<rparr>"

lemma badDeployIncident_facts:
  "plainNames badDeployIncident" "TrimSpace (inOwnerDeployment badDeployIncident) = inOwnerDeployment badDeployIncident"
  "inOwnerDeployment badDeployIncident \<noteq> []" "containsAny (evidenceText badDeployIncident) badDeployIndicators"
  "hasRecentDeploymentEvidence badDeployIncident"
  by code_simp+

lemma some_reason: "TrimSpace ''r'' \<noteq> []"
  by code_simp

text \<open>
  C31: the schema that the language models must answer in and the validator have one vocabulary. The sub-causes, the actions and the target kinds that the
  schema enumerates are exactly the ones of the proposals the validator accepts for some incident: a value the schema forbids is never
  accepted, and every value it allows can be.
\<close>

theorem schema_vocabulary_exact:
  "set (schemaEnum [''sub_cause'']) = accepted_values prSubCause \<and>
   set (schemaEnum [''recommended_action'']) = accepted_values prRecommendedAction \<and>
   set (schemaEnum [''target'', ''kind'']) = accepted_values (\<lambda>p. tgKind (prTarget p))"
proof (intro conjI set_eqI iffI)
  note esc = escalation_acceptable [OF transientIncident_plain _ some_reason]
  note restart = restart_acceptable [OF transientIncident_plain transientIncident_evidence [unfolded transient_evidence] some_reason]
  note rollout = rollout_acceptable [OF badDeployIncident_facts(1-4) some_reason, THEN iffD2, OF badDeployIncident_facts(5)]
  note sels = normalizeProposal_def escalationProposal_def restartProposal_def rolloutProposal_def trimmed_constants
  fix v
  show "v \<in> accepted_values prSubCause" if "v \<in> set (schemaEnum [''sub_cause''])"
  proof -
    have "v \<in> allowedSubCauses" using that by (auto simp: schemaEnum_values allowedSubCauses_def)
    then show ?thesis using accepted_valuesI [OF esc] trimmed_sub_causes [of v] by (simp add: sels)
  qed
  show "v \<in> accepted_values prRecommendedAction" if "v \<in> set (schemaEnum [''recommended_action''])"
    using that accepted_valuesI [OF esc [OF sub_causes_allowed(6)], of prRecommendedAction]
      accepted_valuesI [OF restart, of prRecommendedAction] accepted_valuesI [OF rollout, of prRecommendedAction]
    by (auto simp: schemaEnum_values sels)
  show "v \<in> accepted_values (\<lambda>p. tgKind (prTarget p))" if "v \<in> set (schemaEnum [''target'', ''kind''])"
    using that accepted_valuesI [OF restart, of "\<lambda>p. tgKind (prTarget p)"] accepted_valuesI [OF rollout, of "\<lambda>p. tgKind (prTarget p)"]
    by (auto simp: schemaEnum_values sels)
  note spec = acceptable_def supportedRestart_def supportedRollout_def properEscalation_def
  show "v \<in> set (schemaEnum [''sub_cause''])" if "v \<in> accepted_values prSubCause"
    using that by (elim accepted_values_in) (auto simp: spec schemaEnum_values allowedSubCauses_def sub_cause_defs)
  show "v \<in> set (schemaEnum [''recommended_action''])" if "v \<in> accepted_values prRecommendedAction"
    using that by (elim accepted_values_in) (auto simp: spec schemaEnum_values action_defs)
  show "v \<in> set (schemaEnum [''target'', ''kind''])" if "v \<in> accepted_values (\<lambda>p. tgKind (prTarget p))"
    using that by (elim accepted_values_in) (auto simp: spec schemaEnum_values target_kind_defs)
qed

end
