(* ===== verification/Manager.thy ===== *)
theory Manager
  imports LedgerCalls Providers
begin

text \<open>
  The entry point, \<^verbatim>\<open>cmd/main.go\<close>: the flags, the options of the metrics and webhook servers, the choice of the classifier, and
  \<^verbatim>\<open>main\<close> itself, which wires the reconciler and hands it to the controller manager. What the process gets from outside (the controller
  manager, the clientset, the environment, files, clocks, the HTTP client) is the record \<open>process\<close>. The ledger starts as
  a nil map in the reconciler; the world has it as a component.

  Shown, of the reconciler that \<^verbatim>\<open>main\<close> starts: what justifies a dispatched remediation, where credentials go, and when the
  process refuses to start.
\<close>

section \<open>Flags and server options\<close>

record flags =
  flMetricsAddr :: string
  flProbeAddr :: string
  flAuditPath :: string
  flAuditWorkload :: string
  flAuditArmLabel :: string
  flEnableLeaderElection :: bool
  flSecureMetrics :: bool
  flWebhookCertPath :: string
  flWebhookCertName :: string
  flWebhookCertKey :: string
  flMetricsCertPath :: string
  flMetricsCertName :: string
  flMetricsCertKey :: string
  flEnableHTTP2 :: bool

text \<open>The values before \<^verbatim>\<open>flag.Parse\<close>.\<close>

definition defaultFlags :: flags where
  "defaultFlags =
     \<lparr>flMetricsAddr = ''0'', flProbeAddr = '':8081'', flAuditPath = [], flAuditWorkload = [], flAuditArmLabel = [],
      flEnableLeaderElection = False, flSecureMetrics = True,
      flWebhookCertPath = [], flWebhookCertName = ''tls.crt'', flWebhookCertKey = ''tls.key'',
      flMetricsCertPath = [], flMetricsCertName = ''tls.crt'', flMetricsCertKey = ''tls.key'', flEnableHTTP2 = False\<rparr>"

text \<open>Of \<^verbatim>\<open>tls.Config\<close> only the field that is set. An option is a function that changes the configuration.\<close>

record tlsConfig =
  NextProtos :: "string list"

record webhookOptions =
  whTLSOpts :: "(tlsConfig \<Rightarrow> tlsConfig) list"
  whCertDir :: string
  whCertName :: string
  whKeyName :: string

record metricsOptions =
  msBindAddress :: string
  msSecureServing :: bool
  msTLSOpts :: "(tlsConfig \<Rightarrow> tlsConfig) list"
  msWithAuthenticationAndAuthorization :: bool
  msCertDir :: string
  msCertName :: string
  msKeyName :: string

record managerOptions =
  moMetrics :: metricsOptions
  moWebhookServer :: webhookOptions
  moHealthProbeBindAddress :: string
  moLeaderElection :: bool
  moLeaderElectionID :: string

definition disableHTTP2 :: "tlsConfig \<Rightarrow> tlsConfig" where
  "disableHTTP2 c = c\<lparr>NextProtos := [''http/1.1'']\<rparr>"

definition tlsOpts :: "flags \<Rightarrow> (tlsConfig \<Rightarrow> tlsConfig) list" where
  "tlsOpts fl = (if \<not> flEnableHTTP2 fl then [disableHTTP2] else [])"

definition webhookServerOptions :: "flags \<Rightarrow> webhookOptions" where
  "webhookServerOptions fl =
     (let opts = \<lparr>whTLSOpts = tlsOpts fl, whCertDir = [], whCertName = [], whKeyName = []\<rparr> in
      if length (flWebhookCertPath fl) > 0
      then opts\<lparr>whCertDir := flWebhookCertPath fl, whCertName := flWebhookCertName fl, whKeyName := flWebhookCertKey fl\<rparr>
      else opts)"

definition metricsServerOptions :: "flags \<Rightarrow> metricsOptions" where
  "metricsServerOptions fl =
     (let opts = \<lparr>msBindAddress = flMetricsAddr fl, msSecureServing = flSecureMetrics fl, msTLSOpts = tlsOpts fl,
            msWithAuthenticationAndAuthorization = False, msCertDir = [], msCertName = [], msKeyName = []\<rparr>;
          opts = (if flSecureMetrics fl then opts\<lparr>msWithAuthenticationAndAuthorization := True\<rparr> else opts)
      in if length (flMetricsCertPath fl) > 0
         then opts\<lparr>msCertDir := flMetricsCertPath fl, msCertName := flMetricsCertName fl, msKeyName := flMetricsCertKey fl\<rparr>
         else opts)"

definition managerOptionsOf :: "flags \<Rightarrow> managerOptions" where
  "managerOptionsOf fl =
     \<lparr>moMetrics = metricsServerOptions fl, moWebhookServer = webhookServerOptions fl, moHealthProbeBindAddress = flProbeAddr fl,
      moLeaderElection = flEnableLeaderElection fl, moLeaderElectionID = ''ee7d0c97.selfheal.local''\<rparr>"

section \<open>The process\<close>

type_synonym 'w logStream = "string \<Rightarrow> string \<Rightarrow> string \<Rightarrow> bool \<Rightarrow> int \<Rightarrow> 'w \<Rightarrow> (error + (string \<times> error option)) \<times> 'w"

text \<open>
  The controller manager: its client, the event list of its API reader, the registration of a reconciler for Pods, the two
  health checks, and the run until the signal context ends.
\<close>

record 'w Manager =
  mgClient :: "'w Client"
  mgListEvents :: "string \<Rightarrow> string \<times> string \<Rightarrow> 'w \<Rightarrow> (error + Event list) \<times> 'w"
  mgCompleteForPod :: "'w PodReconciler \<Rightarrow> 'w \<Rightarrow> error option \<times> 'w"
  mgAddHealthzCheck :: "'w \<Rightarrow> error option \<times> 'w"
  mgAddReadyzCheck :: "'w \<Rightarrow> error option \<times> 'w"
  mgStart :: "'w \<Rightarrow> error option \<times> 'w"

record 'w process =
  psGetenv :: "string \<Rightarrow> string"
  psGetConfig :: "'w \<Rightarrow> error option \<times> 'w"
  psNewManager :: "managerOptions \<Rightarrow> 'w \<Rightarrow> (error + 'w Manager) \<times> 'w"
  psSetupSignalHandler :: "'w \<Rightarrow> 'w"
  psNewForConfig :: "'w \<Rightarrow> (error + 'w logStream) \<times> 'w"
  psStdout :: "string \<Rightarrow> 'w \<Rightarrow> error option \<times> 'w"
  psOpenFile :: "string \<Rightarrow> 'w \<Rightarrow> (error + 'w File) \<times> 'w"
  psTimeNow :: "'w \<Rightarrow> time \<times> 'w"
  psAfter :: "duration \<Rightarrow> 'w \<Rightarrow> error option \<times> 'w"
  psContextDone :: "duration \<Rightarrow> ('w \<Rightarrow> 'w) \<Rightarrow> 'w \<Rightarrow> error option \<times> 'w"
  psContextErr :: "'w \<Rightarrow> error option"
  psHTTPClient :: "'w httpClient"
  psCodec :: jsonCodec
  psMachinery :: Apimachinery
  psIncidents :: "'w \<Rightarrow> incidents"
  psSetIncidents :: "incidents \<Rightarrow> 'w \<Rightarrow> 'w"
  psNewUUID :: "'w \<Rightarrow> string \<times> 'w"

definition RealClock :: "'w process \<Rightarrow> 'w Clock" where
  "RealClock ps = \<lparr>clkNow = psTimeNow ps, clkAfter = psAfter ps\<rparr>"

section \<open>Wiring\<close>

definition classifierProviderEnv :: string where
  "classifierProviderEnv = ''CLASSIFIER_PROVIDER''"

definition newClassifier :: "'w process \<Rightarrow> error + 'w Classifier" where
  "newClassifier ps =
     (let provider = ToLower (TrimSpace (psGetenv ps classifierProviderEnv)) in
      if provider = [] \<or> provider = ProviderMock then Inr (MockClassifier (psContextErr ps))
      else if provider = ProviderClaude
        then (case NewClaudeClassifier (psHTTPClient ps) (psGetenv ps) of
            Inl err \<Rightarrow> Inl err
          | Inr c \<Rightarrow> Inr (ClaudeProvider (psHTTPClient ps) (psCodec ps) c))
      else if provider = ProviderMistral
        then (case NewMistralClassifier (psHTTPClient ps) (psGetenv ps) of
            Inl err \<Rightarrow> Inl err
          | Inr m \<Rightarrow> Inr (MistralProvider (psHTTPClient ps) (psCodec ps) m))
      else Inl (Errorf (''unknown '' @ classifierProviderEnv @ '' '' @ Quote provider @ '' (want '' @ Quote ProviderMock @ '', '' @
        Quote ProviderClaude @ '', or '' @ Quote ProviderMistral @ '')'')))"

text \<open>The audit sink: a writer, and the deferred close when it is a file.\<close>

definition openAudit :: "flags \<Rightarrow> 'w process \<Rightarrow> 'w \<Rightarrow> (error + 'w JSONLAuditWriter) \<times> 'w" where
  "openAudit fl ps w =
     (if flAuditPath fl \<noteq> [] then NewJSONLFileAuditWriter (psOpenFile ps) (flAuditPath fl) w
      else (Inr (NewJSONLAuditWriter (psStdout ps)), w))"

definition managerActions :: "Apimachinery \<Rightarrow> 'w Client \<Rightarrow> string \<rightharpoonup> 'w RemediationAction" where
  "managerActions am c = [raName (RestartPodAction am c) \<mapsto> RestartPodAction am c, raName (RolloutUndoAction am c) \<mapsto> RolloutUndoAction am c]"

definition managerReconciler :: "flags \<Rightarrow> 'w process \<Rightarrow> 'w Manager \<Rightarrow> 'w Classifier \<Rightarrow> 'w logStream \<Rightarrow> 'w JSONLAuditWriter \<Rightarrow> 'w PodReconciler" where
  "managerReconciler fl ps mgr rawClassifier logClientset auditWriter =
     \<lparr>rcReader = clientReader (mgClient mgr), rcMachinery = psMachinery ps,
      rcClassifier = Some (ClassifyIncident (psTimeNow ps) (psContextDone ps) (Some (NewClassificationService (Some rawClassifier) 0))),
      rcActions = managerActions (psMachinery ps) (mgClient mgr),
      rcEvidence = Some \<lparr>ecLogs = Some \<lparr>Tail = Clientset_Tail (Some logClientset)\<rparr>,
        ecEvents = Some \<lparr>ListFor = APIReader_ListFor (Some (mgListEvents mgr))\<rparr>, ecNow = None\<rparr>,
      rcSnapshots = Some (KubeSnapshots (psMachinery ps) \<lparr>ssClient = Some (mgClient mgr)\<rparr>),
      rcVerifier = Some (verifierSeam (NewVerifier (psMachinery ps) (RealClock ps) (clientReader (mgClient mgr)))),
      rcAudit = Some (JSONLWriter (jcMarshalTime (psCodec ps)) (Some auditWriter)), rcClock = Some (RealClock ps),
      rcAuditMetadata = \<lparr>Workload = flAuditWorkload fl, ArmLabel = flAuditArmLabel fl\<rparr>,
      rcLedger = mutexLedger (psIncidents ps) (psSetIncidents ps) (psNewUUID ps), rcTimeNow = psTimeNow ps\<rparr>"

definition SetupWithManager :: "'w Manager \<Rightarrow> 'w PodReconciler \<Rightarrow> 'w \<Rightarrow> error option \<times> 'w" where
  "SetupWithManager mgr r = mgCompleteForPod mgr r"

text \<open>
  From the wired reconciler to the end of the process. \<open>Some\<close> of a message and an error is \<^verbatim>\<open>os.Exit(1)\<close> after they were logged, which runs no deferred
  function; \<open>None\<close> is a return from \<^verbatim>\<open>main\<close>, at which a file sink is closed.
\<close>

definition runManager :: "'w Manager \<Rightarrow> 'w PodReconciler \<Rightarrow> 'w JSONLAuditWriter \<Rightarrow> 'w \<Rightarrow> (string \<times> error) option \<times> 'w" where
  "runManager mgr r auditWriter w =
     (case SetupWithManager mgr r w of
        (Some err, w1) \<Rightarrow> (Some (''unable to create controller'', err), w1)
      | (None, w1) \<Rightarrow>
        (case mgAddHealthzCheck mgr w1 of
           (Some err, w2) \<Rightarrow> (Some (''Failed to set up health check'', err), w2)
         | (None, w2) \<Rightarrow>
           (case mgAddReadyzCheck mgr w2 of
              (Some err, w3) \<Rightarrow> (Some (''Failed to set up ready check'', err), w3)
            | (None, w3) \<Rightarrow>
              (case mgStart mgr w3 of
                 (Some err, w4) \<Rightarrow> (Some (''Failed to run manager'', err), w4)
               | (None, w4) \<Rightarrow> (case JSONL_Close (Some auditWriter) w4 of (_, _, w5) \<Rightarrow> (None, w5))))))"

definition main :: "flags \<Rightarrow> 'w process \<Rightarrow> 'w \<Rightarrow> (string \<times> error) option \<times> 'w" where
  "main fl ps w =
     (case psGetConfig ps w of
        (Some err, w1) \<Rightarrow> (Some (''unable to get kubeconfig'', err), w1)
      | (None, w1) \<Rightarrow>
        (case psNewManager ps (managerOptionsOf fl) w1 of
           (Inl err, w2) \<Rightarrow> (Some (''Failed to start manager'', err), w2)
         | (Inr mgr, w2) \<Rightarrow>
           let w3 = psSetupSignalHandler ps w2 in
           (case newClassifier ps of
              Inl err \<Rightarrow> (Some (''failed to initialize classifier'', err), w3)
            | Inr rawClassifier \<Rightarrow>
              (case psNewForConfig ps w3 of
                 (Inl err, w4) \<Rightarrow> (Some (''Failed to build clientset for pod log collection'', err), w4)
               | (Inr logClientset, w4) \<Rightarrow>
                 (case openAudit fl ps w4 of
                    (Inl err, w5) \<Rightarrow> (Some (''Unable to initialize durable audit sink'', err), w5)
                  | (Inr auditWriter, w5) \<Rightarrow>
                    runManager mgr (managerReconciler fl ps mgr rawClassifier logClientset auditWriter) auditWriter w5)))))"

section \<open>What justifies a remediation\<close>

lemma managerActions_Some:
  assumes "managerActions am c name = Some action"
  shows "name = ''restart_pod'' \<and> action = RestartPodAction am c \<or> name = ''rollout_undo'' \<and> action = RolloutUndoAction am c"
  using assms by (auto simp: managerActions_def RestartPodAction_def RolloutUndoAction_def split: if_splits)

text \<open>The ways to a dispatch, one lemma for each part of \<^verbatim>\<open>Reconcile\<close>.\<close>

lemma act_dispatches:
  assumes "actOnProposal r key podRef event proposal w = (Some d, w')"
  shows "\<exists>action n. prSafeForAutomation proposal \<and> rcActions r (prRecommendedAction proposal) = Some action \<and>
    d = \<lparr>dsService = serviceFor r action, dsEvent = event\<lparr>evAttemptNumber := n\<rparr>, dsKey = key, dsPodRef = podRef\<rparr>"
  using assms by (auto simp: actOnProposal_def ShouldEscalate_def split: if_splits option.splits prod.splits)

lemma pursue_dispatches:
  assumes "pursue r key podRef pod event w = (Some d, w')"
  shows "\<exists>classify logs events w1 proposal action n. rcClassifier r = Some classify \<and> gatherEvidence r key pod event w = ((logs, events), w1) \<and>
    proposal = coProposal (fst (classify (incidentInputOf event logs events) w1)) \<and> prSafeForAutomation proposal \<and>
    rcActions r (prRecommendedAction proposal) = Some action \<and>
    d = \<lparr>dsService = serviceFor r action, dsEvent = event\<lparr>evAttemptNumber := n\<rparr>, dsKey = key, dsPodRef = podRef\<rparr>"
proof -
  obtain classify where c: "rcClassifier r = Some classify" using assms by (auto simp: pursue_def split: option.splits)
  obtain logs events w1 where g: "gatherEvidence r key pod event w = ((logs, events), w1)" by (metis prod.collapse)
  obtain out w2 where o: "classify (incidentInputOf event logs events) w1 = (out, w2)" by fastforce
  from assms c g o have "actOnProposal r key podRef event (coProposal out) w2 = (Some d, w')" by (simp add: pursue_def)
  from act_dispatches [OF this] c g o show ?thesis by auto
qed

lemma crash_dispatches:
  assumes "handleCrash r pod cs w = (Returns (Some d), w')"
  shows "\<exists>event w1 w2. pursue r (incidentKey (evNamespace event) (evOwnerDeployment event)) (evNamespace event @ ''/'' @ evPodName event) pod event w1 = (Some d, w2) \<and>
    evPodName event = Name (podMeta pod) \<and> evNamespace event = Namespace (podMeta pod) \<and> evContainerName event = csName cs \<and>
    evOwnerDeployment event \<noteq> [] \<and> evAttemptNumber event = 0"
proof -
  obtain owner w1 where o: "ownerDeploymentName (rcReader r) pod w = (owner, w1)" by fastforce
  obtain now w2 where n: "rcTimeNow r w1 = (now, w2)" by fastforce
  obtain name where name: "name = (case owner of Inl err \<Rightarrow> [] | Inr name \<Rightarrow> name)" by simp
  have ne: "name \<noteq> []" using assms o n name by (auto simp: handleCrash_def Let_def split: if_splits)
  obtain g e w3 where g: "deploymentGeneration (rcReader r) (Namespace (podMeta pod)) name w2 = ((g, e), w3)" by (metis prod.collapse)
  obtain now' w4 where n': "rcTimeNow r w3 = (now', w4)" by fastforce
  let ?key = "incidentKey (Namespace (podMeta pod)) name"
  obtain b w5 where b: "lgBeginAttempt (rcLedger r) ?key g now' w4 = (b, w5)" by fastforce
  note unfolded = assms [unfolded handleCrash_def o n prod.case, folded name] ne g n' b
  show ?thesis
  proof (cases b)
    case Panics
    with unfolded show ?thesis by (simp add: Let_def)
  next
    case (Returns x)
    obtain rcd decision where x: "x = (rcd, decision)" by fastforce
    with unfolded Returns have "decision = admitProceed" by (cases decision) (simp_all add: Let_def)
    with unfolded Returns x show ?thesis
      by (intro exI [of _ "\<lparr>evPodName = Name (podMeta pod), evNamespace = Namespace (podMeta pod), evContainerName = csName cs,
              evRestartCount = csRestartCount cs, evOwnerDeployment = name, evTimestamp = now,
              evIncidentID = irId rcd, evAttemptNumber = 0\<rparr>"] exI [of _ w5] exI [of _ w'])
        (simp add: Let_def split: prod.splits)
  qed
qed

lemma statuses_dispatch:
  assumes "reconcileStatuses r pod css w = (Returns (Some d), w')"
  shows "\<exists>cs \<in> set css. csWaiting cs = Some ''CrashLoopBackOff'' \<and> handleCrash r pod cs w = (Returns (Some d), w')"
  using assms by (induction css) (auto split: if_splits)

lemma Reconcile_dispatches:
  assumes "Reconcile r req w = (Returns (err, Some d), w')"
  shows "\<exists>pod w1 cs. nnNamespace req \<notin> excludedNamespaces \<and> GetPod (rcReader r) req w = (Inr pod, w1) \<and> cs \<in> set (podContainerStatuses pod) \<and>
    csWaiting cs = Some ''CrashLoopBackOff'' \<and> handleCrash r pod cs w1 = (Returns (Some d), w')"
proof -
  from assms have "nnNamespace req \<notin> excludedNamespaces" by (auto simp: Reconcile_def)
  moreover from assms this obtain pod w1 where "GetPod (rcReader r) req w = (Inr pod, w1)"
    "reconcileStatuses r pod (podContainerStatuses pod) w1 = (Returns (Some d), w')"
    by (auto simp: Reconcile_def split: prod.splits sum.splits result.splits)
  ultimately show ?thesis using statuses_dispatch [of r pod "podContainerStatuses pod" w1 d w'] by auto
qed

lemma incidentInputOf_numbered [simp]: "incidentInputOf (event\<lparr>evAttemptNumber := n\<rparr>) logs events = incidentInputOf event logs events"
  by (simp add: incidentInputOf_def)

lemma incidentInputOf_plain: "plainNames (incidentInputOf event logs events) = plainNames (incidentInputOf event logs' events')"
  by (simp add: incidentInputOf_def plainNames_def)

lemma managerReconciler_service:
  "serviceFor (managerReconciler fl ps mgr rawClassifier logClientset auditWriter) action =
     managerService (psMachinery ps) (mgClient mgr) (RealClock ps) (JSONLWriter (jcMarshalTime (psCodec ps)) (Some auditWriter))
       \<lparr>Workload = flAuditWorkload fl, ArmLabel = flAuditArmLabel fl\<rparr> action"
  by (simp add: serviceFor_def managerReconciler_def managerService_def)

text \<open>The action that goes with a supported proposal.\<close>

lemma supported_action:
  assumes "supportedRestart p input \<or> supportedRollout p input" and "managerActions am c (prRecommendedAction p) = Some action"
  shows "action = RestartPodAction am c \<and> (\<exists>i \<in> set transientIndicators. Contains (evidenceText input) i) \<or>
    action = RolloutUndoAction am c \<and> (\<exists>i \<in> set badDeployIndicators. Contains (evidenceText input) i) \<and> hasRecentDeploymentEvidence input"
  using assms(1) managerActions_Some [OF assms(2)] unfolding supportedRestart_def supportedRollout_def by auto

text \<open>
  C5: what justifies a remediation of the running program. Whatever classifier is configured and whatever it answers, when a reconcile dispatches a
  remediation then: the request was not in an excluded namespace; a container of the Pod it read is in CrashLoopBackOff, and the dispatched event names
  that Pod and container and an owning Deployment; and the attempt runs the manager's own service either with the Pod restart, on evidence that shows a
  transient failure, or with the rollback, on evidence that shows a bad deployment and a recent rollout, where the evidence is what this incident
  collected or had frozen before.
\<close>

theorem dispatch_justified:
  assumes "r = managerReconciler fl ps mgr rawClassifier logClientset auditWriter" and "Reconcile r req w = (Returns (err, Some d), w')"
    and "plainNames (incidentInputOf (dsEvent d) [] [])"
  shows "\<exists>pod w1 cs logs events w2 w3 input action.
    nnNamespace req \<notin> {''kube-system'', ''kube-node-lease'', ''local-path-storage''} \<and>
    GetPod (clientReader (mgClient mgr)) req w = (Inr pod, w1) \<and> cs \<in> set (podContainerStatuses pod) \<and> csWaiting cs = Some ''CrashLoopBackOff'' \<and>
    evPodName (dsEvent d) = Name (podMeta pod) \<and> evNamespace (dsEvent d) = Namespace (podMeta pod) \<and> evContainerName (dsEvent d) = csName cs \<and>
    evOwnerDeployment (dsEvent d) \<noteq> [] \<and> dsKey d = incidentKey (evNamespace (dsEvent d)) (evOwnerDeployment (dsEvent d)) \<and>
    gatherEvidence r (dsKey d) pod ((dsEvent d)\<lparr>evAttemptNumber := 0\<rparr>) w2 = ((logs, events), w3) \<and> input = incidentInputOf (dsEvent d) logs events \<and>
    dsService d = managerService (psMachinery ps) (mgClient mgr) (RealClock ps) (JSONLWriter (jcMarshalTime (psCodec ps)) (Some auditWriter))
      \<lparr>Workload = flAuditWorkload fl, ArmLabel = flAuditArmLabel fl\<rparr> action \<and>
    (action = RestartPodAction (psMachinery ps) (mgClient mgr) \<and> (\<exists>i \<in> set transientIndicators. Contains (evidenceText input) i) \<or>
     action = RolloutUndoAction (psMachinery ps) (mgClient mgr) \<and> (\<exists>i \<in> set badDeployIndicators. Contains (evidenceText input) i) \<and>
       hasRecentDeploymentEvidence input)"
proof -
  from Reconcile_dispatches [OF assms(2)] obtain pod w1 cs where p: "nnNamespace req \<notin> excludedNamespaces" "GetPod (rcReader r) req w = (Inr pod, w1)"
    "cs \<in> set (podContainerStatuses pod)" "csWaiting cs = Some ''CrashLoopBackOff''" "handleCrash r pod cs w1 = (Returns (Some d), w')" by blast
  from crash_dispatches [OF p(5)] obtain event w2 w4 where
    e: "pursue r (incidentKey (evNamespace event) (evOwnerDeployment event)) (evNamespace event @ ''/'' @ evPodName event) pod event w2 = (Some d, w4)"
    "evPodName event = Name (podMeta pod)" "evNamespace event = Namespace (podMeta pod)" "evContainerName event = csName cs"
    "evOwnerDeployment event \<noteq> []" "evAttemptNumber event = 0" by blast
  from pursue_dispatches [OF e(1)] obtain classify logs events w3 proposal action n where
    c: "rcClassifier r = Some classify" "gatherEvidence r (incidentKey (evNamespace event) (evOwnerDeployment event)) pod event w2 = ((logs, events), w3)"
    "proposal = coProposal (fst (classify (incidentInputOf event logs events) w3))" "prSafeForAutomation proposal"
    "rcActions r (prRecommendedAction proposal) = Some action"
    "d = \<lparr>dsService = serviceFor r action, dsEvent = event\<lparr>evAttemptNumber := n\<rparr>,
        dsKey = incidentKey (evNamespace event) (evOwnerDeployment event), dsPodRef = evNamespace event @ ''/'' @ evPodName event\<rparr>" by blast
  let ?input = "incidentInputOf event logs events"
  have plain: "plainNames ?input" using assms(3) c(6) incidentInputOf_plain [of event "[]" "[]"] by simp
  have classified: "proposal = fst (classifiedProposal (psTimeNow ps) (psContextDone ps) (Some (NewClassificationService (Some rawClassifier) 0)) ?input w3)"
    using c(1,3) by (simp add: assms(1) managerReconciler_def classifiedProposal_fst)
  have "supportedRestart proposal ?input \<or> supportedRollout proposal ?input"
    using c(4) unfolding classified by (rule cs.safe_supported [OF plain])
  moreover have "managerActions (psMachinery ps) (mgClient mgr) (prRecommendedAction proposal) = Some action"
    using c(5) by (simp add: assms(1) managerReconciler_def)
  ultimately have act: "action = RestartPodAction (psMachinery ps) (mgClient mgr) \<and> (\<exists>i \<in> set transientIndicators. Contains (evidenceText ?input) i) \<or>
    action = RolloutUndoAction (psMachinery ps) (mgClient mgr) \<and> (\<exists>i \<in> set badDeployIndicators. Contains (evidenceText ?input) i) \<and>
      hasRecentDeploymentEvidence ?input"
    by (rule supported_action)
  have reset: "event\<lparr>evAttemptNumber := 0\<rparr> = event" using e(6) by simp
  have reader: "rcReader r = clientReader (mgClient mgr)" by (simp add: assms(1) managerReconciler_def)
  show ?thesis
    using p [unfolded reader excludedNamespaces_def] e(2-5) c(2) act reset unfolding c(6)
    by (intro exI [of _ pod] exI [of _ w1] exI [of _ cs] exI [of _ logs] exI [of _ events] exI [of _ w2] exI [of _ w3] exI [of _ ?input] exI [of _ action])
      (simp add: assms(1) managerReconciler_service)
qed

text \<open>
  A process whose world is the example cluster and the ledger, with the rule-based classifier; every log ends in a timeout and there are no events.
\<close>

definition exampleManager :: "(cluster \<times> incidents) Manager" where
  "exampleManager =
     \<lparr>mgClient = \<lparr>clientReader = besideReader clusterReader, UpdateDeployment = (\<lambda>d. beside (UpdateDeployment clusterClient d)),
        DeletePod = (\<lambda>p. beside (DeletePod clusterClient p))\<rparr>,
      mgListEvents = (\<lambda>ns sel w. (Inr [], w)), mgCompleteForPod = (\<lambda>r w. (None, w)), mgAddHealthzCheck = (\<lambda>w. (None, w)),
      mgAddReadyzCheck = (\<lambda>w. (None, w)), mgStart = (\<lambda>w. (None, w))\<rparr>"

definition exampleLogs :: "(cluster \<times> incidents) logStream" where
  "exampleLogs ns p cn prev n w = (Inr (''timeout'', None), w)"

definition exampleProcess :: "(string \<Rightarrow> string) \<Rightarrow> (cluster \<times> incidents) process" where
  "exampleProcess env =
     \<lparr>psGetenv = env, psGetConfig = (\<lambda>w. (None, w)), psNewManager = (\<lambda>opts w. (Inr exampleManager, w)),
      psSetupSignalHandler = (\<lambda>w. w), psNewForConfig = (\<lambda>w. (Inr exampleLogs, w)), psStdout = (\<lambda>s w. (None, w)), psOpenFile = (\<lambda>p w. (Inl (Errorf ''read-only file system''), w)),
      psTimeNow = (\<lambda>w. (clNow (fst w), w)), psAfter = (\<lambda>d w. (None, w)), psContextDone = (\<lambda>d call w. (None, w)), psContextErr = (\<lambda>w. None),
      psHTTPClient = (\<lambda>req w. (Inr okResponse, w)), psCodec = exampleCodec, psMachinery = stdMachinery,
      psIncidents = snd, psSetIncidents = (\<lambda>m w. (fst w, m)), psNewUUID = (\<lambda>w. (''i-1'', w))\<rparr>"

definition unhelpfulClassifier :: "'w Classifier" where
  "unhelpfulClassifier = \<lparr>clMetadata = None, clClassify = (\<lambda>input w. ((emptyProposal, None), w)), clClassifyWithMetadata = None\<rparr>"

definition exampleReconciler :: "(cluster \<times> incidents) PodReconciler" where
  "exampleReconciler = managerReconciler defaultFlags (exampleProcess (\<lambda>_. [])) exampleManager unhelpfulClassifier exampleLogs
     (NewJSONLAuditWriter (\<lambda>s w. (None, w)))"

lemma unhelpful_restarts:
  assumes "inLogs input = ''timeout''" and "inEvents input = []"
    and "ClassifyIncident (psTimeNow (exampleProcess env)) (psContextDone (exampleProcess env)) (Some (NewClassificationService (Some unhelpfulClassifier) 0)) input w
      = (out :: ClassificationOutcome, w')"
  shows "prSafeForAutomation (coProposal out)" and "prRecommendedAction (coProposal out) = ''restart_pod''" and "w' = w"
proof -
  obtain t where out: "out = concludeCall input (emptyProposal, zeroMetadata, None) t t ''unknown'' ''unknown''" and w: "w' = w"
    using assms(3) by (auto simp: ClassifyIncident_def ClassifyAndValidate_def Service_classifier_def NewClassificationService_def classifierMetadata_def
        unhelpfulClassifier_def exampleProcess_def classifyWithOptionalMetadata_def)
  obtain reason where p: "coProposal out = normalizeProposal (buildSafeFallback input reason)"
    using emptyProposal_refused unfolding out concludeCall_proposal by auto
  have "evidenceText input = ''timeout ''" by (simp add: evidenceText_def assms lower_byte_def)
  moreover have "Contains ''timeout '' ''timeout''" by code_simp
  ultimately have "hasTransientFailureEvidence input" unfolding hasTransientFailureEvidence_def containsAny_iff by simp
  then show "prSafeForAutomation (coProposal out)" "prRecommendedAction (coProposal out) = ''restart_pod''"
    unfolding p by (simp_all add: fallback_outcome_decision ActionRestartPod_def)
  show "w' = w" by (rule w)
qed

lemma example_logs: "Clientset_Tail (Some exampleLogs) ns p cn prev n w = (Inr ''timeout'', w)"
  by (simp add: Clientset_Tail_def exampleLogs_def readLimited_def evidenceLogReadCeiling_def evidenceLogMaxBytes_def)

lemma example_events: "collectNames \<lparr>ListFor = APIReader_ListFor (Some (mgListEvents exampleManager))\<rparr> ns now names ({}, []) w = (({}, []), w)"
  by (induction names) (simp_all add: APIReader_ListFor_def exampleManager_def)

lemma example_collected:
  "Collect (rcTimeNow exampleReconciler) (rcEvidence exampleReconciler) (Some pod) cn owner w = ((''timeout'', []), w)"
proof -
  have "TrimSpace ''timeout'' \<noteq> []" by code_simp
  moreover have "newestEvents [] = []" by code_simp
  ultimately show ?thesis
    by (simp add: Collect_def exampleReconciler_def managerReconciler_def collectLogs_def collectEvents_def Collector_now_def exampleProcess_def
        example_logs example_events truncateTail_def evidenceLogMaxBytes_def)
qed

lemma example_parts:
  "rcLedger exampleReconciler = mutexLedger snd (\<lambda>m w. (fst w, m)) (\<lambda>w. (''i-1'', w))" "rcReader exampleReconciler = besideReader clusterReader"
  "rcTimeNow exampleReconciler w = (clNow (fst w), w)"
  by (simp_all add: exampleReconciler_def managerReconciler_def exampleProcess_def exampleManager_def)

lemma example_pursues:
  assumes "incidentEvidence key (snd w) = (l, e, False)"
  shows "\<exists>n d w'. pursue exampleReconciler key podRef pod event w = (Some d, w') \<and> dsEvent d = event\<lparr>evAttemptNumber := n\<rparr>"
proof -
  let ?w = "(fst w, freezeEvidence key ''timeout'' [] (snd w))"
  have g: "gatherEvidence exampleReconciler key pod event w = ((''timeout'', []), ?w)"
    using assms by (simp add: gatherEvidence_def example_parts(1) mutexLedger_def example_collected)
  let ?input = "incidentInputOf event ''timeout'' []"
  obtain out w2 where out: "ClassifyIncident (psTimeNow (exampleProcess (\<lambda>_. []))) (psContextDone (exampleProcess (\<lambda>_. [])))
      (Some (NewClassificationService (Some unhelpfulClassifier) 0)) ?input ?w = (out :: ClassificationOutcome, w2)"
    by (metis prod.collapse)
  have input: "inLogs ?input = ''timeout''" "inEvents ?input = []" by (simp_all add: incidentInputOf_def)
  note o = out [unfolded unhelpful_restarts(3) [OF input out]]
  have c: "rcClassifier exampleReconciler = Some (ClassifyIncident (psTimeNow (exampleProcess (\<lambda>_. []))) (psContextDone (exampleProcess (\<lambda>_. [])))
      (Some (NewClassificationService (Some unhelpfulClassifier) 0)))"
    by (simp add: exampleReconciler_def managerReconciler_def)
  have p: "prSafeForAutomation (coProposal out)" "prRecommendedAction (coProposal out) = ''restart_pod''"
    by (rule unhelpful_restarts [OF input o])+
  have "\<exists>action. rcActions exampleReconciler ''restart_pod'' = Some action"
    by (simp add: exampleReconciler_def managerReconciler_def managerActions_def RestartPodAction_def RolloutUndoAction_def)
  then show ?thesis
    by (auto simp: pursue_def c g o actOnProposal_def ShouldEscalate_def p split: prod.splits)
qed

lemma example_world:
  "GetPod (besideReader clusterReader) (nsName ''shop'' ''checkout-1'') (crashLoopCluster, m) = (Inr crashedPod, (crashLoopCluster, m))"
  "ownerDeploymentName (besideReader clusterReader) crashedPod (crashLoopCluster, m) = (Inr ''checkout'', (crashLoopCluster, m))"
  "\<exists>g e. deploymentGeneration (besideReader clusterReader) ''shop'' ''checkout'' (crashLoopCluster, m) = ((g, e), (crashLoopCluster, m))"
  by (simp_all add: besideReader_def beside_def clusterReader_def find_obj_def crashLoopCluster_def crashedPod_def exampleMeta_def healedCluster_def
      ownerDeploymentName_def exampleOwner_def kindReplicaSet_def kindDeployment_def deploymentGeneration_def)


lemma example_dispatch:
  obtains d w' where "Reconcile exampleReconciler (nsName ''shop'' ''checkout-1'') (crashLoopCluster, Map.empty) = (Returns (None, Some d), w')"
    "evPodName (dsEvent d) = ''checkout-1''" "evNamespace (dsEvent d) = ''shop''"
proof -
  let ?k = "incidentKey ''shop'' ''checkout''"
  obtain g e where g: "deploymentGeneration (besideReader clusterReader) ''shop'' ''checkout'' (crashLoopCluster, Map.empty :: incidents) = ((g, e), (crashLoopCluster, Map.empty))"
    using example_world(3) [of "Map.empty :: incidents"] by auto
  let ?r = "(freshRecord ''i-1'' g (clNow crashLoopCluster))\<lparr>irInFlight := True\<rparr>"
  have b: "beginAttempt ''i-1'' ?k g (clNow crashLoopCluster) Map.empty = Returns (?r, admitProceed, [?k \<mapsto> ?r])"
    by (simp add: beginAttempt_live liveRecord_def claimRecord_eq MaxAttempts_def)
  let ?ev = "\<lparr>evPodName = ''checkout-1'', evNamespace = ''shop'', evContainerName = ''app'', evRestartCount = 3, evOwnerDeployment = ''checkout'',
    evTimestamp = clNow crashLoopCluster, evIncidentID = ''i-1'', evAttemptNumber = 0\<rparr>"
  have "incidentEvidence ?k (snd (crashLoopCluster, [?k \<mapsto> ?r])) = ([], [], False)" by (simp add: incidentEvidence_def)
  from example_pursues [OF this] obtain n d w' where d:
    "pursue exampleReconciler ?k ''shop/checkout-1'' crashedPod ?ev (crashLoopCluster, [?k \<mapsto> ?r]) = (Some d, w')" "dsEvent d = ?ev\<lparr>evAttemptNumber := n\<rparr>"
    by blast
  have pod: "Name (podMeta crashedPod) = ''checkout-1''" "Namespace (podMeta crashedPod) = ''shop''"
    "podContainerStatuses crashedPod = [\<lparr>csName = ''app'', csRestartCount = 3, csWaiting = Some ''CrashLoopBackOff''\<rparr>]"
    by (simp_all add: crashedPod_def exampleMeta_def)
  have "Reconcile exampleReconciler (nsName ''shop'' ''checkout-1'') (crashLoopCluster, Map.empty) = (Returns (None, Some d), w')"
    using d(1) by (simp add: Reconcile_def excludedNamespaces_def example_parts example_world pod handleCrash_def Let_def g mutexLedger_def b)
  then show ?thesis using d(2) that by simp
qed

theorem dispatch_justified_witness:
  "\<exists>d w' action. Reconcile exampleReconciler (nsName ''shop'' ''checkout-1'') (crashLoopCluster, Map.empty) = (Returns (None, Some d), w') \<and>
     svAction (dsService d) = Some action \<and> raName action \<in> {''restart_pod'', ''rollout_undo''}"
proof -
  obtain d w' where d: "Reconcile exampleReconciler (nsName ''shop'' ''checkout-1'') (crashLoopCluster, Map.empty) = (Returns (None, Some d), w')"
    "evPodName (dsEvent d) = ''checkout-1''" "evNamespace (dsEvent d) = ''shop''" by (rule example_dispatch)
  have "TrimSpace ''checkout-1'' = ''checkout-1''" "TrimSpace ''shop'' = ''shop''" by code_simp+
  with d(2,3) have "plainNames (incidentInputOf (dsEvent d) [] [])" by (simp add: plainNames_def incidentInputOf_def)
  from dispatch_justified [OF exampleReconciler_def d(1) this] d(1) show ?thesis
    by (auto simp: managerService_def RestartPodAction_def RolloutUndoAction_def)
qed

section \<open>Credentials\<close>

lemma claude_sends:
  assumes "classifyWithOptionalMetadata (ClaudeProvider (noteRequests http) codec \<lparr>ccApiKey = key, ccModel = model, ccClient = Some (noteRequests http)\<rparr>) input (v, [])
      = (res, (v', reqs))"
  shows "reqs = [] \<or> (\<exists>m prompt. reqs = [claudeHTTPRequest key m prompt])"
proof -
  obtain res' where "claudeCall codec key model (noteRequests http) input (v, []) = (res', (v', reqs))"
    using assms by (cases res) (auto simp: claudeCall_def classifyWithOptionalMetadata_def ClaudeProvider_def)
  from claude.requests [OF this] show ?thesis by blast
qed

lemma mistral_sends:
  assumes "classifyWithOptionalMetadata (MistralProvider (noteRequests http) codec \<lparr>mmApiKey = key, mmModel = model, mmClient = Some (noteRequests http)\<rparr>) input (v, [])
      = (res, (v', reqs))"
  shows "reqs = [] \<or> (\<exists>prompt. reqs = [mistralHTTPRequest key model prompt])"
proof -
  obtain res' where "mistralCall codec key model (noteRequests http) input (v, []) = (res', (v', reqs))"
    using assms by (auto simp: mistralCall_def classifyWithOptionalMetadata_def MistralProvider_def split: prod.splits)
  from mistral.requests [OF this] show ?thesis by blast
qed

text \<open>
  C14: credentials and incidents go to the selected provider only. A classification by the classifier the process selected sends at most one HTTP request;
  one to Anthropic only when the selection says so, with the trimmed \<^verbatim>\<open>ANTHROPIC_API_KEY\<close> in its header, one to Mistral likewise with
  \<^verbatim>\<open>MISTRAL_API_KEY\<close>. With no selection, or the rule-based classifier, none is sent.
\<close>

theorem requests_to_selected_provider:
  assumes "psHTTPClient ps = noteRequests http" and "newClassifier ps = Inr rawClassifier"
    and "classifyWithOptionalMetadata rawClassifier input (v, []) = (res, (v', reqs))"
    and "provider = ToLower (TrimSpace (psGetenv ps ''CLASSIFIER_PROVIDER''))"
  shows "reqs = [] \<or>
    (\<exists>req. reqs = [req] \<and> provider = ''anthropic'' \<and> rqURL req = ''https://api.anthropic.com/v1/messages'' \<and>
       rqHeaders req = [(''Content-Type'', ''application/json''), (''x-api-key'', TrimSpace (psGetenv ps ''ANTHROPIC_API_KEY'')), (''anthropic-version'', ''2023-06-01'')]) \<or>
    (\<exists>req. reqs = [req] \<and> provider = ''mistral'' \<and> rqURL req = ''https://api.mistral.ai/v1/chat/completions'' \<and>
       rqHeaders req = [(''Content-Type'', ''application/json''), (''Authorization'', ''Bearer '' @ TrimSpace (psGetenv ps ''MISTRAL_API_KEY''))])"
proof -
  consider (mock) "rawClassifier = MockClassifier (psContextErr ps)"
    | (claude) model where "provider = ''anthropic''" "rawClassifier = ClaudeProvider (noteRequests http) (psCodec ps)
        \<lparr>ccApiKey = TrimSpace (psGetenv ps ''ANTHROPIC_API_KEY''), ccModel = model, ccClient = Some (noteRequests http)\<rparr>"
    | (mistral) model where "provider = ''mistral''" "rawClassifier = MistralProvider (noteRequests http) (psCodec ps)
        \<lparr>mmApiKey = TrimSpace (psGetenv ps ''MISTRAL_API_KEY''), mmModel = model, mmClient = Some (noteRequests http)\<rparr>"
    using assms(1,2,4) unfolding newClassifier_def Let_def classifierProviderEnv_def ProviderClaude_def ProviderMistral_def
    by (auto simp: NewClaudeClassifier_def NewMistralClassifier_def Let_def split: if_splits)
  then show ?thesis
  proof cases
    case mock
    with assms(3) show ?thesis by (simp add: classifyWithOptionalMetadata_def MockClassifier_def split: prod.splits)
  next
    case claude
    from claude_sends [OF assms(3) [unfolded claude(2)]] claude(1) show ?thesis by (auto simp: claudeHTTPRequest_def claudeMessagesURL_def)
  next
    case mistral
    from mistral_sends [OF assms(3) [unfolded mistral(2)]] mistral(1) show ?thesis by (auto simp: mistralHTTPRequest_def mistralChatURL_def)
  qed
qed

text \<open>A process that selected Claude, with a key that has white space around it.\<close>

definition claudeEnv :: "string \<Rightarrow> string" where
  "claudeEnv name = (if name = ''CLASSIFIER_PROVIDER'' then '' Anthropic'' else if name = ''ANTHROPIC_API_KEY'' then '' k'' else [])"

definition claudeProcess :: "(unit \<times> httpRequest list) process" where
  "claudeProcess =
     \<lparr>psGetenv = claudeEnv, psGetConfig = (\<lambda>w. (None, w)), psNewManager = (\<lambda>opts w. (Inl (Errorf ''no cluster''), w)),
      psSetupSignalHandler = (\<lambda>w. w), psNewForConfig = (\<lambda>w. (Inl (Errorf ''no cluster''), w)), psStdout = (\<lambda>s w. (None, w)), psOpenFile = (\<lambda>p w. (Inl (Errorf ''read-only file system''), w)),
      psTimeNow = (\<lambda>w. (100, w)), psAfter = (\<lambda>d w. (None, w)), psContextDone = (\<lambda>d call w. (None, w)), psContextErr = (\<lambda>w. None),
      psHTTPClient = noteRequests (\<lambda>req v. (Inr okResponse, v)), psCodec = exampleCodec, psMachinery = stdMachinery,
      psIncidents = (\<lambda>w. Map.empty), psSetIncidents = (\<lambda>m w. w), psNewUUID = (\<lambda>w. (''i-1'', w))\<rparr>"

lemma claudeProcess_env:
  "ToLower (TrimSpace (psGetenv claudeProcess ''CLASSIFIER_PROVIDER'')) = ''anthropic''" "TrimSpace (psGetenv claudeProcess ''ANTHROPIC_API_KEY'') = ''k''"
  by code_simp+

theorem requests_to_selected_provider_witness:
  "\<exists>c res reqs. newClassifier claudeProcess = Inr c \<and> classifyWithOptionalMetadata c transientIncident ((), []) = (res, ((), reqs)) \<and>
     filter (\<lambda>req. rqURL req \<noteq> ''https://api.anthropic.com/v1/messages'') reqs = [] \<and>
     filter (\<lambda>req. (''x-api-key'', ''k'') \<notin> set (rqHeaders req)) reqs = []"
proof -
  obtain c where c: "newClassifier claudeProcess = Inr c"
    using claudeProcess_env by (simp add: newClassifier_def Let_def classifierProviderEnv_def ProviderMock_def ProviderClaude_def NewClaudeClassifier_def)
  obtain res u reqs where "classifyWithOptionalMetadata c transientIncident ((), []) = (res, (u, reqs))" by (metis prod.collapse)
  then have r: "classifyWithOptionalMetadata c transientIncident ((), []) = (res, ((), reqs))" by simp
  have "psHTTPClient claudeProcess = noteRequests (\<lambda>req v. (Inr okResponse, v))" by (simp add: claudeProcess_def)
  from requests_to_selected_provider [OF this c r refl] c r show ?thesis unfolding claudeProcess_env by (cases res) auto
qed

section \<open>Start\<close>

text \<open>The configurations of the classifier the process does not start with.\<close>

definition misconfigured :: "(string \<Rightarrow> string) \<Rightarrow> bool" where
  "misconfigured getenv \<longleftrightarrow>
     (let provider = ToLower (TrimSpace (getenv ''CLASSIFIER_PROVIDER'')) in
      provider \<notin> {[], ''mock'', ''anthropic'', ''mistral''} \<or> provider = ''anthropic'' \<and> TrimSpace (getenv ''ANTHROPIC_API_KEY'') = [] \<or>
      provider = ''mistral'' \<and> TrimSpace (getenv ''MISTRAL_API_KEY'') = [])"

lemma newClassifier_refuses: "(\<exists>err. newClassifier ps = Inl err) \<longleftrightarrow> misconfigured (psGetenv ps)"
  unfolding newClassifier_def misconfigured_def Let_def classifierProviderEnv_def ProviderMock_def ProviderClaude_def ProviderMistral_def
  by (simp add: NewClaudeClassifier_def NewMistralClassifier_def Let_def)

text \<open>
  C32: the process does not run with a classifier it cannot use. If the selected provider is unknown or its API key is blank, then \<^verbatim>\<open>main\<close> exits with an
  error whatever else happens: with that of the cluster configuration or of the controller manager when one of these fails first, and otherwise with
  the classifier's, the last thing done before it being the installation of the signal handler: no clientset, audit file or controller was
  created and nothing was started. With a usable provider it never exits with the classifier's error.
\<close>

theorem misconfigured_classifier_exits:
  "if misconfigured (psGetenv ps)
   then \<exists>msg err w'. main fl ps w = (Some (msg, err), w') \<and>
     (msg = ''unable to get kubeconfig'' \<and> psGetConfig ps w = (Some err, w') \<or>
      (\<exists>w1. psGetConfig ps w = (None, w1) \<and>
        (msg = ''Failed to start manager'' \<and> psNewManager ps (managerOptionsOf fl) w1 = (Inl err, w') \<or>
         (\<exists>mgr w2. msg = ''failed to initialize classifier'' \<and> psNewManager ps (managerOptionsOf fl) w1 = (Inr mgr, w2) \<and>
            w' = psSetupSignalHandler ps w2))))
   else \<forall>err. fst (main fl ps w) \<noteq> Some (''failed to initialize classifier'', err)"
proof (cases "newClassifier ps")
  case (Inl err)
  with newClassifier_refuses [of ps] have "misconfigured (psGetenv ps)" by blast
  then show ?thesis
    by (simp add: main_def Inl Let_def split: prod.split sum.split option.split)
next
  case (Inr c)
  with newClassifier_refuses [of ps] have "\<not> misconfigured (psGetenv ps)" by simp
  then show ?thesis
    by (simp add: main_def Inr Let_def runManager_def split: prod.split sum.split option.split)
qed

theorem misconfigured_classifier_exits_witness:
  "\<exists>err. main defaultFlags (exampleProcess (\<lambda>name. if name = ''CLASSIFIER_PROVIDER'' then ''mistral'' else [])) (crashLoopCluster, Map.empty) =
     (Some (''failed to initialize classifier'', err), (crashLoopCluster, Map.empty))"
proof -
  let ?ps = "exampleProcess (\<lambda>name. if name = ''CLASSIFIER_PROVIDER'' then ''mistral'' else [])"
  have "ToLower (TrimSpace ''mistral'') = ''mistral''" "TrimSpace [] = []" by code_simp+
  then have "misconfigured (psGetenv ?ps)" by (simp add: misconfigured_def exampleProcess_def)
  with misconfigured_classifier_exits [of ?ps defaultFlags "(crashLoopCluster, Map.empty)"] show ?thesis
    by (auto simp: exampleProcess_def)
qed

end
