(* ===== verification/Spec2Isabelle.thy ===== *)
theory Spec2Isabelle
  imports Progress Manager
begin

text \<open>
  A verification of the self-healing controller \<^verbatim>\<open>k8s-selfheal\<close> (Go).

  \<^bold>\<open>The program.\<close> A Kubernetes controller watches Pods. When a container is in CrashLoopBackOff, the reconciler finds the owning Deployment, asks an
  in-memory ledger whether an attempt is due, collects logs and events, has the incident classified (by rules or by a language model), validates the
  answer, and dispatches a remediation in its own goroutine: restart the Pod or roll the Deployment back. The remediation service snapshots the
  Deployment, executes the action, verifies that a replacement Pod becomes and stays ready, restores the snapshot if it does not, and
  audits each lifecycle state. At most three attempts with exponential backoff are made per incident.

  \<^bold>\<open>Theories and sources.\<close> Paths are under \<^verbatim>\<open>src/\<close>.
  \<^item> \<^verbatim>\<open>Prelude\<close>: Go's strings, numbers, errors, time and sorting, with the lemmas the components share; \<^verbatim>\<open>Json\<close>: string encoding and quoting;
    \<^verbatim>\<open>Float64\<close>: binary floating-point arithmetic with its rounding, for the cost estimate;
    \<^verbatim>\<open>Kube\<close>: the Kubernetes objects and the client interface as records of functions, the detection event of \<^verbatim>\<open>internal/contracts/types.go\<close>, and a concrete
    cluster for the witnesses; \<^verbatim>\<open>Effects\<close>: a client that records its writes.
  \<^item> \<^verbatim>\<open>StateMachine\<close>, \<^verbatim>\<open>AuditLog\<close>, \<^verbatim>\<open>Snapshot\<close>, \<^verbatim>\<open>PodResolver\<close>, \<^verbatim>\<open>Verifier\<close>, \<^verbatim>\<open>Service\<close>: the files of \<^verbatim>\<open>internal/safety/\<close>, one theory each
    (\<^verbatim>\<open>service.go\<close> with \<^verbatim>\<open>contracts.go\<close>, \<^verbatim>\<open>verifier.go\<close> with \<^verbatim>\<open>clock.go\<close>).
  \<^item> \<^verbatim>\<open>Attempts\<close>: the protocol of the calls of \<^verbatim>\<open>Service.Remediate\<close> as an inductive relation; \<^verbatim>\<open>Actions\<close>: \<^verbatim>\<open>internal/actions/\<close>; \<^verbatim>\<open>Remediation\<close>: attempts of the
    service with the dependencies it has in the program.
  \<^item> \<^verbatim>\<open>Incident\<close>: the ledger, \<^verbatim>\<open>internal/controller/incident.go\<close> and \<^verbatim>\<open>escalation.go\<close>; \<^verbatim>\<open>Concurrency\<close>: threads on the ledger as a step relation, with its
    invariant; \<^verbatim>\<open>Interleavings\<close> and \<^verbatim>\<open>Progress\<close>: what holds in every reachable state and along every run.
  \<^item> \<^verbatim>\<open>Validator\<close>, \<^verbatim>\<open>Classification\<close>, \<^verbatim>\<open>Prompt\<close>, \<^verbatim>\<open>Providers\<close>: \<^verbatim>\<open>internal/classifier/\<close> (\<^verbatim>\<open>validator.go\<close> and \<^verbatim>\<open>types.go\<close>; \<^verbatim>\<open>service.go\<close>, \<^verbatim>\<open>cost.go\<close>, \<^verbatim>\<open>config.go\<close> and
    \<^verbatim>\<open>mock_classifier.go\<close>; \<^verbatim>\<open>prompt.go\<close> and the answer schema; \<^verbatim>\<open>claude.go\<close> and \<^verbatim>\<open>mistral.go\<close>).
  \<^item> \<^verbatim>\<open>Evidence\<close> and \<^verbatim>\<open>Controller\<close>: \<^verbatim>\<open>evidence.go\<close> and \<^verbatim>\<open>pod_controller.go\<close> of \<^verbatim>\<open>internal/controller/\<close>; \<^verbatim>\<open>LedgerCalls\<close>: the ledger calls of the reconciler;
    \<^verbatim>\<open>Manager\<close>: \<^verbatim>\<open>cmd/main.go\<close>.

  \<^bold>\<open>State and effects.\<close> A Go struct is a record, a method a function on it, a nil pointer or interface \<open>None\<close>. Every operation that reads or changes
  something outside its arguments takes and returns a world \<open>'w\<close> about which nothing is assumed, so a theorem that quantifies over the dependencies
  covers every behaviour of the API server, the clocks, files, the network and other threads. An error is a value of \<open>error\<close> in a
  sum or an option, a panic the value \<open>Panics\<close>. Integers are unbounded where the code cannot overflow and wrap at 64 bits where it can (the revision
  comparator, token totals). A string is its bytes.

  \<^bold>\<open>What is shown.\<close>
  \<^item> Ledger: the decision of every admission; in every interleaving one attempt per Deployment at a time, numbered 1 to 3 and spaced by the backoff, fixed
    evidence, silent exhausted incidents; every claim is released along every run in which the threads keep going. The reconciler refines the threads: the calls
    of any number of reconciles and goroutines, interleaved in any way, are an execution of the step relation, so those invariants hold of the program.
  \<^item> Attempts: the action runs at most once and only behind the captured snapshot, the restore only after failed verification; what each
    action, capture and restore may write, and what a successful restore leaves, the reads being possibly stale; the audit log is a lifecycle path, and a
    file written through the file constructor's writer splits back into its entries and is durable.
  \<^item> Verification: a recovered verdict means a replacement that was read again after every wait of the whole window and found ready, and \<^verbatim>\<open>Verify\<close> returns,
    within 90 seconds and twelve times the lateness of a single call.
  \<^item> Classification: the validator decides a declarative specification; whatever a classifier answers, what leaves the service is supported by the evidence;
    what is sent to which provider, that evidence cannot add lines to the prompt, and that the answer schema allows exactly what the validator can accept; the
    accuracy of the cost estimate.
  \<^item> The whole: what justifies a remediation the program dispatches (\<^verbatim>\<open>Manager\<close>), and with which configuration it does not start.
  \<^item> Four theorems state behaviour that differs from what the code's comments say: a failed read revives an exhausted incident, a rollback lifts its own
    cooldown, a refused proposal may still restart a Pod, an error of the verifier leaves the action in place.

  \<^bold>\<open>Interfaces.\<close> Each \<open>locale\<close> states what a client relies on (a total order for sorting, an append-only file and the audit sink on it, an acceptable classifier, a
  chat provider, a reconciler whose ledger calls are recorded) and is interpreted on the model's own definitions.

  \<^bold>\<open>Loops.\<close> Loops over lists are structural recursion. The two polling loops of \<^verbatim>\<open>Verify\<close> may run forever when the clock does not move; they are
  instances of \<open>iterate\<close> (\<^verbatim>\<open>Prelude\<close>, a partial function whose value is \<open>None\<close> for a run that does not end), and the theorem
  \<^verbatim>\<open>verify_returns\<close> shows that they end when a fired timer took at least its delay and reads do not turn the time back, and how late at most. There is no fuel.

  \<^bold>\<open>Parameters.\<close> Code outside the repository is an argument: the API server and apimachinery (owner checks, selectors, semantic equality), \<^verbatim>\<open>time.Time\<close>'s
  JSON encoding, \<^verbatim>\<open>json.Unmarshal\<close>, HTTP, files, the environment, UUIDs, the controller manager, and which branch of a \<^verbatim>\<open>select\<close> is ready first (for the classifier's
  timeout together with what the goroutine already started may have done by then). A read of the API server may be answered from a cache; only
  an accepted update is taken to have been stored.

  \<^bold>\<open>Not modelled.\<close> Log lines; a fused multiply-add that Go may use for the cost on some architectures; the parsing of command-line flags and the logger;
  memory-level races on fields read outside the lock for logging; the helpers of the end-to-end tests (\<^verbatim>\<open>test/utils\<close>), which only run external commands.
\<close>

end
